(* ===== verification/Prelude.thy ===== *)
theory Prelude
  imports Main "HOL-Library.Word"
begin

text \<open>
  Shared vocabulary of the development: the machine integers of the Rust source, \<open>Result\<close>
  values, the conversions between integers and bytes of the Rust standard library
  (\<open>from_le_bytes\<close>, \<open>to_le_bytes\<close>, \<open>from_be_bytes\<close>), the text that \<open>format!\<close> produces, and
  the fact collections that the component theories extend.

  \<open>usize\<close> is a \<open>nat\<close>: the supported targets have a 64-bit \<open>usize\<close>, and no length or sum of
  lengths in the program comes near that bound (a frame length is at most \<open>2^32 + 9\<close>).
\<close>

unbundle bit_operations_syntax

named_theorems byte_simps \<open>conversions between integers and their bytes\<close>
named_theorems frame_defs \<open>layout of protocol frames\<close>
named_theorems inv_intros \<open>preservation of invariants by operations\<close>

type_synonym byte = "8 word"
type_synonym u16 = "16 word"
type_synonym u32 = "32 word"

text \<open>Rust's \<open>Result<T, E>\<close> is a sum with the error on the left.\<close>

type_synonym ('a, 'e) result = "'e + 'a"

abbreviation Ok :: "'a \<Rightarrow> ('a, 'e) result" where
  "Ok \<equiv> Inr"

abbreviation Err :: "'e \<Rightarrow> ('a, 'e) result" where
  "Err \<equiv> Inl"

text \<open>
  A \<open>&mut self\<close> operation returns its result and the new state. \<open>try_then m f\<close> is \<open>m?\<close> followed by
  the rest \<open>f\<close> of the block; \<open>map_err\<close> is the method of \<open>Result\<close>.
\<close>

definition try_then ::
    "('a, 'e) result \<times> 's \<Rightarrow> ('a \<Rightarrow> 's \<Rightarrow> ('b, 'e) result \<times> 's) \<Rightarrow> ('b, 'e) result \<times> 's" where
  "try_then m f = (case m of (Err e, s) \<Rightarrow> (Err e, s) | (Ok a, s) \<Rightarrow> f a s)"

definition map_err :: "('e \<Rightarrow> 'f) \<Rightarrow> ('a, 'e) result \<times> 's \<Rightarrow> ('a, 'f) result \<times> 's" where
  "map_err g m = (case m of (Err e, s) \<Rightarrow> (Err (g e), s) | (Ok a, s) \<Rightarrow> (Ok a, s))"

lemma try_then_simps [simp]:
  "try_then (Err e, s) f = (Err e, s)"
  "try_then (Ok a, s) f = f a s"
  by (simp_all add: try_then_def)

lemma map_err_simps [simp]:
  "map_err g (Err e, s) = (Err (g e), s)"
  "map_err g (Ok a, s) = (Ok a, s)"
  by (simp_all add: map_err_def)

lemma try_then_cases:
  assumes "try_then m f = (res, s')"
  obtains (failed) e where "m = (Err e, s')" "res = Err e"
  | (ok) a s where "m = (Ok a, s)" "f a s = (res, s')"
  using assms by (cases m; cases "fst m") auto

lemma map_err_cases:
  assumes "map_err g m = (res, s')"
  obtains (failed) e where "m = (Err e, s')" "res = Err (g e)"
  | (ok) a where "m = (Ok a, s')" "res = Ok a"
  using assms by (cases m; cases "fst m") auto

text \<open>
  An error of \<open>std::io\<close>: its kind and the text its \<open>Display\<close> prints. \<open>Panicked\<close> is no error value of
  the program: as the result of a call it says that the call did not return but unwound with a
  panic. Nothing in the program catches a panic, so it passes every caller as \<open>?\<close> passes an error.
\<close>

datatype error_kind = Unsupported_Kind | InvalidData_Kind | Other_Kind | UnexpectedEof_Kind
  | TimedOut_Kind

datatype io_error = IoError (io_kind: error_kind) (io_display: string) | Panicked

subsection \<open>Integers and bytes\<close>

definition u16_from_le :: "byte \<Rightarrow> byte \<Rightarrow> u16" where
  "u16_from_le b0 b1 = of_nat (unat b0 + 256 * unat b1)"

definition u16_from_be :: "byte \<Rightarrow> byte \<Rightarrow> u16" where
  "u16_from_be b0 b1 = u16_from_le b1 b0"

definition u16_to_le :: "u16 \<Rightarrow> byte list" where
  "u16_to_le w = [ucast w, ucast (drop_bit 8 w)]"

definition u32_from_le :: "byte \<Rightarrow> byte \<Rightarrow> byte \<Rightarrow> byte \<Rightarrow> u32" where
  "u32_from_le b0 b1 b2 b3 =
     of_nat (unat b0 + 256 * unat b1 + 65536 * unat b2 + 16777216 * unat b3)"

definition u32_to_le :: "u32 \<Rightarrow> byte list" where
  "u32_to_le w =
     [ucast w, ucast (drop_bit 8 w), ucast (drop_bit 16 w), ucast (drop_bit 24 w)]"

text \<open>Code equations that stay within words.\<close>

lemma u16_from_le_code [code]: "u16_from_le b0 b1 = ucast b0 + 256 * ucast b1"
  by (simp add: u16_from_le_def)

lemma u32_from_le_code [code]:
  "u32_from_le b0 b1 b2 b3 = ucast b0 + 256 * ucast b1 + 65536 * ucast b2 + 16777216 * ucast b3"
  by (simp add: u32_from_le_def)

lemma unat_byte_bound [simp]: "unat (b :: byte) < 256"
  using unsigned_less [of b] by simp

lemma unat_byte_le [simp]: "unat (b :: byte) \<le> 255"
  using unat_byte_bound [of b] by linarith

lemma unat_ucast_byte: "unat (ucast w :: byte) = unat (w :: 'a::len word) mod 256"
  by (simp add: unsigned_ucast_eq take_bit_eq_mod)

lemma unat_drop_div: "unat (drop_bit n (w :: 'a::len word)) = unat w div 2 ^ n"
  by (subst unat_drop_bit_eq) (rule drop_bit_eq_div)

lemma unat_u16_from_le [byte_simps]: "unat (u16_from_le b0 b1) = unat b0 + 256 * unat b1"
proof -
  have "unat b0 + 256 * unat b1 < 65536"
    using unat_byte_bound [of b0] unat_byte_bound [of b1] by linarith
  then show ?thesis
    unfolding u16_from_le_def by (subst unat_of_nat) simp
qed

lemma unat_u32_from_le [byte_simps]:
  "unat (u32_from_le b0 b1 b2 b3) =
     unat b0 + 256 * unat b1 + 65536 * unat b2 + 16777216 * unat b3"
proof -
  have "unat b0 + 256 * unat b1 + 65536 * unat b2 + 16777216 * unat b3 < 4294967296"
    using unat_byte_bound [of b0] unat_byte_bound [of b1] unat_byte_bound [of b2]
      unat_byte_bound [of b3] by linarith
  then show ?thesis
    unfolding u32_from_le_def by (subst unat_of_nat) simp
qed

lemma length_u16_to_le [simp]: "length (u16_to_le w) = 2"
  by (simp add: u16_to_le_def)

lemma length_u32_to_le [simp]: "length (u32_to_le w) = 4"
  by (simp add: u32_to_le_def)

lemma byte_powers:
  "(2::nat) ^ 8 = 256" "(2::nat) ^ 16 = 65536" "(2::nat) ^ 24 = 16777216"
  by simp_all

lemma nat_bytes_16:
  assumes "(n::nat) < 65536"
  shows "n mod 256 + 256 * (n div 256 mod 256) = n"
proof -
  have "n div 256 < 256"
    using assms by (simp add: less_mult_imp_div_less)
  then show ?thesis by simp
qed

lemma nat_bytes_32:
  assumes "(n::nat) < 4294967296"
  shows "n mod 256 + 256 * (n div 256 mod 256) + 65536 * (n div 65536 mod 256)
    + 16777216 * (n div 16777216 mod 256) = n"
proof -
  define q where "q = n div 256"
  define r where "r = q div 256"
  define s where "s = r div 256"
  have eqs: "n div 65536 = r" "n div 16777216 = s"
    by (simp_all add: q_def r_def s_def flip: div_mult2_eq)
  have "s < 256"
    using assms by (simp add: q_def r_def s_def flip: div_mult2_eq)
  moreover have "n = 256 * q + n mod 256" "q = 256 * r + q mod 256" "r = 256 * s + r mod 256"
    by (simp_all add: q_def r_def s_def)
  ultimately show ?thesis
    unfolding eqs q_def [symmetric] by simp
qed

lemma u16_le_roundtrip [byte_simps]:
  "u16_from_le (ucast w) (ucast (drop_bit 8 w)) = (w :: u16)"
proof (rule word_unat_eq_iff [THEN iffD2])
  have "unat w < 65536"
    using unsigned_less [of w] by simp
  from nat_bytes_16 [OF this] show "unat (u16_from_le (ucast w) (ucast (drop_bit 8 w))) = unat w"
    by (simp only: unat_u16_from_le unat_ucast_byte unat_drop_div byte_powers)
qed

lemma u32_le_roundtrip [byte_simps]:
  "u32_from_le (ucast w) (ucast (drop_bit 8 w)) (ucast (drop_bit 16 w)) (ucast (drop_bit 24 w))
     = (w :: u32)"
proof (rule word_unat_eq_iff [THEN iffD2])
  have "unat w < 4294967296"
    using unsigned_less [of w] by simp
  from nat_bytes_32 [OF this] show "unat (u32_from_le (ucast w) (ucast (drop_bit 8 w)) (ucast (drop_bit 16 w))
      (ucast (drop_bit 24 w))) = unat w"
    by (simp only: unat_u32_from_le unat_ucast_byte unat_drop_div byte_powers)
qed

lemma byte_of_word_sum:
  assumes "unat (w :: 'a::len word) = unat b + 256 * k"
  shows "(ucast w :: byte) = b"
  by (rule word_unat_eq_iff [THEN iffD2]) (simp add: unat_ucast_byte assms)

lemma nat_shift_cell: "b < 256 \<Longrightarrow> (b + 256 * k) div 256 = (k::nat)"
  by simp

lemma nat_cells_32:
  "(b0::nat) + 256 * b1 + 65536 * b2 + 16777216 * b3
     = b0 + 256 * (b1 + 256 * (b2 + 256 * b3))"
  by simp

lemma unat_drop_cell:
  assumes "unat (w :: 'a::len word) = unat (b :: byte) + 256 * k"
  shows "unat (drop_bit 8 w) = k"
  by (simp only: unat_drop_div byte_powers assms nat_shift_cell [OF unat_byte_bound])

lemma drop_bit_cells:
  "drop_bit 16 (w :: 'a::len word) = drop_bit 8 (drop_bit 8 w)"
  "drop_bit 24 (w :: 'a::len word) = drop_bit 8 (drop_bit 8 (drop_bit 8 w))"
  by simp_all

lemma u32_to_le_from_le [byte_simps]: "u32_to_le (u32_from_le b0 b1 b2 b3) = [b0, b1, b2, b3]"
proof -
  let ?w = "u32_from_le b0 b1 b2 b3"
  have w0: "unat ?w = unat b0 + 256 * (unat b1 + 256 * (unat b2 + 256 * unat b3))"
    by (simp only: unat_u32_from_le nat_cells_32)
  note w1 = unat_drop_cell [OF w0]
  note w2 = unat_drop_cell [OF w1]
  have w3: "unat (drop_bit 8 (drop_bit 8 (drop_bit 8 ?w))) = unat b3 + 256 * 0"
    using unat_drop_cell [OF w2] by simp
  show ?thesis
    by (simp only: u32_to_le_def drop_bit_cells byte_of_word_sum [OF w0]
        byte_of_word_sum [OF w1] byte_of_word_sum [OF w2] byte_of_word_sum [OF w3])
qed

lemma u16_to_le_from_le [byte_simps]: "u16_to_le (u16_from_le b0 b1) = [b0, b1]"
proof -
  let ?w = "u16_from_le b0 b1"
  have w0: "unat ?w = unat b0 + 256 * unat b1"
    by (rule unat_u16_from_le)
  have w1: "unat (drop_bit 8 ?w) = unat b1 + 256 * 0"
    using unat_drop_cell [OF w0] by simp
  show ?thesis
    by (simp only: u16_to_le_def byte_of_word_sum [OF w0] byte_of_word_sum [OF w1])
qed

subsection \<open>Text\<close>

text \<open>
  What \<open>format!\<close> writes: \<open>{}\<close> of an unsigned integer is its decimal digits, \<open>{:02x}\<close> of a byte
  its two lower-case hexadecimal digits.
\<close>

definition hex_digit :: "nat \<Rightarrow> char" where
  "hex_digit n = ''0123456789abcdef'' ! n"

fun fmt_nat :: "nat \<Rightarrow> string" where
  "fmt_nat n = (if n < 10 then [hex_digit n] else fmt_nat (n div 10) @ [hex_digit (n mod 10)])"

fun fmt_hex :: "nat \<Rightarrow> string" where
  "fmt_hex n = (if n < 16 then [hex_digit n] else fmt_hex (n div 16) @ [hex_digit (n mod 16)])"

declare fmt_nat.simps [simp del]
declare fmt_hex.simps [simp del]

definition pad_left :: "nat \<Rightarrow> char \<Rightarrow> string \<Rightarrow> string" where
  "pad_left n c s = replicate (n - length s) c @ s"

definition fmt_02x :: "byte \<Rightarrow> string" where
  "fmt_02x b = pad_left 2 (CHR ''0'') (fmt_hex (unat b))"

text \<open>
  What \<open>{:?}\<close> writes of a \<open>bool\<close>, of an \<open>Option\<close>, and of a struct whose \<open>fmt\<close> is written with
  \<open>debug_struct\<close>: the fields with their names and texts.
\<close>

definition debug_bool :: "bool \<Rightarrow> string" where
  "debug_bool b = (if b then ''true'' else ''false'')"

definition debug_option :: "('a \<Rightarrow> string) \<Rightarrow> 'a option \<Rightarrow> string" where
  "debug_option f x = (case x of None \<Rightarrow> ''None'' | Some a \<Rightarrow> ''Some('' @ f a @ '')'')"

fun debug_fields :: "(string \<times> string) list \<Rightarrow> string" where
  "debug_fields [] = []"
| "debug_fields [(name, val)] = name @ '': '' @ val"
| "debug_fields ((name, val) # fs) = name @ '': '' @ val @ '', '' @ debug_fields fs"

definition debug_struct :: "string \<Rightarrow> (string \<times> string) list \<Rightarrow> string" where
  "debug_struct name fs = (if fs = [] then name else name @ '' { '' @ debug_fields fs @ '' }'')"

text \<open>A byte string literal \<open>b"..."\<close>.\<close>

definition ascii :: "string \<Rightarrow> byte list" where
  "ascii s = map of_char s"

lemma length_ascii [simp]: "length (ascii s) = length s"
  by (simp add: ascii_def)

lemma fmt_02x_digits:
  "fmt_02x b = [hex_digit (unat b div 16), hex_digit (unat b mod 16)]"
proof (cases "unat b < 16")
  case True
  then show ?thesis
    by (simp add: fmt_02x_def pad_left_def fmt_hex.simps [of "unat b"] hex_digit_def)
next
  case False
  moreover have "unat b div 16 < 16"
    using unat_byte_bound [of b] by linarith
  ultimately show ?thesis
    by (simp add: fmt_02x_def pad_left_def fmt_hex.simps [of "unat b"]
        fmt_hex.simps [of "unat b div 16"])
qed

lemma hex_digit_inj: "m < 16 \<Longrightarrow> n < 16 \<Longrightarrow> hex_digit m = hex_digit n \<longleftrightarrow> m = n"
proof -
  have "distinct ''0123456789abcdef''" by simp
  moreover assume "m < 16" "n < 16"
  ultimately show ?thesis
    unfolding hex_digit_def by (subst nth_eq_iff_index_eq) auto
qed

subsection \<open>Lists\<close>

text \<open>
  Indexing \<open>xs[i]\<close> and slicing \<open>&xs[i..j]\<close> panic out of range, which is \<open>None\<close> here. The definitions
  use them where a panic depends on the input; where the lines just before rule it out, \<open>!\<close>, \<open>take\<close>
  and \<open>drop\<close> are used.
\<close>

definition checked_nth :: "'a list \<Rightarrow> nat \<Rightarrow> 'a option" where
  "checked_nth xs i = (if i < length xs then Some (xs ! i) else None)"

definition checked_slice :: "'a list \<Rightarrow> nat \<Rightarrow> nat \<Rightarrow> 'a list option" where
  "checked_slice xs i j = (if i \<le> j \<and> j \<le> length xs then Some (take (j - i) (drop i xs)) else None)"

lemma checked_nth_in [simp]: "i < length xs \<Longrightarrow> checked_nth xs i = Some (xs ! i)"
  by (simp add: checked_nth_def)

lemma checked_slice_in [simp]:
  "i \<le> j \<Longrightarrow> j \<le> length xs \<Longrightarrow> checked_slice xs i j = Some (take (j - i) (drop i xs))"
  by (simp add: checked_slice_def)

lemma checked_slice_None: "checked_slice xs i j = None \<longleftrightarrow> j < i \<or> length xs < j"
  by (auto simp: checked_slice_def)

text \<open>
  \<open>Read::read_exact\<close> overwrites a buffer of fixed length, so the buffer keeps its length
  whatever the reader delivers.
\<close>

definition fill_buffer :: "nat \<Rightarrow> byte list \<Rightarrow> byte list" where
  "fill_buffer n bs = take n (bs @ replicate n 0)"

lemma length_fill_buffer [simp]: "length (fill_buffer n bs) = n"
  by (simp add: fill_buffer_def)

lemma fill_buffer_exact [simp]: "length bs = n \<Longrightarrow> fill_buffer n bs = bs"
  by (simp add: fill_buffer_def)

lemma list10_exhaust:
  assumes "10 \<le> length xs"
  obtains a b c d e f g h i j ys where "xs = a # b # c # d # e # f # g # h # i # j # ys"
  using assms by (auto simp: numeral_eq_Suc Suc_le_length_iff intro: that)

end
