(* ===== verification/Ccid_Protocol.thy ===== *)
theory Ccid_Protocol
  imports Prelude
begin

text \<open>
  The CCID message layer, \<open>src/ccid/protocol.rs\<close>: the commands a host sends on the bulk OUT
  pipe, the responses of the reader, the status byte, and the two codecs
  \<open>CcidCommand::decode\<close> and \<open>CcidResponse::encode\<close>. The section on the host's side defines the
  inverse directions (what a host writes and reads), which the source does not contain: they are
  the abstract specification that the codecs are proved against.
\<close>

subsection \<open>Message types\<close>

definition PC_TO_RDR_ICC_POWER_ON :: byte where "PC_TO_RDR_ICC_POWER_ON = 0x62"
definition PC_TO_RDR_ICC_POWER_OFF :: byte where "PC_TO_RDR_ICC_POWER_OFF = 0x63"
definition PC_TO_RDR_GET_SLOT_STATUS :: byte where "PC_TO_RDR_GET_SLOT_STATUS = 0x65"
definition PC_TO_RDR_SET_PARAMETERS :: byte where "PC_TO_RDR_SET_PARAMETERS = 0x61"
definition PC_TO_RDR_GET_PARAMETERS :: byte where "PC_TO_RDR_GET_PARAMETERS = 0x6c"
definition PC_TO_RDR_RESET_PARAMETERS :: byte where "PC_TO_RDR_RESET_PARAMETERS = 0x6d"
definition PC_TO_RDR_XFR_BLOCK :: byte where "PC_TO_RDR_XFR_BLOCK = 0x6f"
definition PC_TO_RDR_ABORT :: byte where "PC_TO_RDR_ABORT = 0x72"

definition RDR_TO_PC_DATA_BLOCK :: byte where "RDR_TO_PC_DATA_BLOCK = 0x80"
definition RDR_TO_PC_SLOT_STATUS :: byte where "RDR_TO_PC_SLOT_STATUS = 0x81"
definition RDR_TO_PC_PARAMETERS :: byte where "RDR_TO_PC_PARAMETERS = 0x82"

lemmas command_codes [frame_defs] =
  PC_TO_RDR_ICC_POWER_ON_def PC_TO_RDR_ICC_POWER_OFF_def PC_TO_RDR_GET_SLOT_STATUS_def
  PC_TO_RDR_SET_PARAMETERS_def PC_TO_RDR_GET_PARAMETERS_def PC_TO_RDR_RESET_PARAMETERS_def
  PC_TO_RDR_XFR_BLOCK_def PC_TO_RDR_ABORT_def

lemmas response_codes [frame_defs] =
  RDR_TO_PC_DATA_BLOCK_def RDR_TO_PC_SLOT_STATUS_def RDR_TO_PC_PARAMETERS_def

subsection \<open>Commands, responses and the status byte\<close>

text \<open>
  The fields of a constructor are in the order of the Rust variant: \<open>slot\<close> and \<open>seq\<close> first.
\<close>

datatype ccid_command =
    IccPowerOn byte byte byte                      \<comment> \<open>slot, seq, power_select\<close>
  | IccPowerOff byte byte                          \<comment> \<open>slot, seq\<close>
  | GetSlotStatus byte byte                        \<comment> \<open>slot, seq\<close>
  | GetParameters byte byte                        \<comment> \<open>slot, seq\<close>
  | ResetParameters byte byte                      \<comment> \<open>slot, seq\<close>
  | SetParameters byte byte byte "byte list"       \<comment> \<open>slot, seq, protocol_num, payload\<close>
  | XfrBlock byte byte byte u16 "byte list"        \<comment> \<open>slot, seq, bwi, level_parameter, payload\<close>
  | Abort byte byte                                \<comment> \<open>slot, seq\<close>
  | Unknown byte byte byte "byte \<times> byte \<times> byte" "byte list"
      \<comment> \<open>message_type, slot, seq, parameters, payload\<close>

datatype icc_status = Active | Inactive | NotPresent

datatype command_status = NoError | Failed | TimeExtension

record slot_status =
  icc :: icc_status
  command :: command_status

datatype ccid_response =
    DataBlock byte byte slot_status byte byte "byte list"
      \<comment> \<open>slot, seq, status, error, chain_parameter, payload\<close>
  | SlotStatus byte byte slot_status byte byte
      \<comment> \<open>slot, seq, status, error, clock_status\<close>
  | Parameters byte byte slot_status byte byte "byte list"
      \<comment> \<open>slot, seq, status, error, protocol_num, payload\<close>

datatype ccid_protocol_error =
    FrameTooShort nat
  | LengthMismatch nat nat                         \<comment> \<open>expected, actual\<close>

fun protocol_error_display :: "ccid_protocol_error \<Rightarrow> string" where
  "protocol_error_display (FrameTooShort n) =
     ''CCID frame is too short: got '' @ fmt_nat n @ '' bytes''"
| "protocol_error_display (LengthMismatch expected actual) =
     ''CCID payload length mismatch: header says '' @ fmt_nat expected @
     '', frame has '' @ fmt_nat actual"

text \<open>The discriminants of the two enums (\<open>as u8\<close>).\<close>

fun icc_code :: "icc_status \<Rightarrow> byte" where
  "icc_code Active = 0"
| "icc_code Inactive = 1"
| "icc_code NotPresent = 2"

fun command_code :: "command_status \<Rightarrow> byte" where
  "command_code NoError = 0"
| "command_code Failed = 1"
| "command_code TimeExtension = 2"

definition status_ok :: "icc_status \<Rightarrow> slot_status" where
  "status_ok i = \<lparr>icc = i, command = NoError\<rparr>"

definition status_failed :: "icc_status \<Rightarrow> slot_status" where
  "status_failed i = \<lparr>icc = i, command = Failed\<rparr>"

definition encode_status :: "slot_status \<Rightarrow> byte" where
  "encode_status s = (push_bit 6 (command_code (command s))) OR icc_code (icc s)"

subsection \<open>Decoding commands\<close>

definition decode :: "byte list \<Rightarrow> (ccid_command, ccid_protocol_error) result" where
  "decode frame =
     (if length frame < 10 then Err (FrameTooShort (length frame))
      else
        let message_type = frame ! 0;
            payload_length = unat (u32_from_le (frame ! 1) (frame ! 2) (frame ! 3) (frame ! 4));
            slot = frame ! 5;
            seq = frame ! 6;
            p0 = frame ! 7; p1 = frame ! 8; p2 = frame ! 9;
            actual_payload_length = length frame - 10
        in if payload_length \<noteq> actual_payload_length
           then Err (LengthMismatch payload_length actual_payload_length)
           else
             let payload = drop 10 frame
             in Ok (if message_type = PC_TO_RDR_ICC_POWER_ON then IccPowerOn slot seq p0
                    else if message_type = PC_TO_RDR_ICC_POWER_OFF then IccPowerOff slot seq
                    else if message_type = PC_TO_RDR_GET_SLOT_STATUS then GetSlotStatus slot seq
                    else if message_type = PC_TO_RDR_GET_PARAMETERS then GetParameters slot seq
                    else if message_type = PC_TO_RDR_RESET_PARAMETERS
                      then ResetParameters slot seq
                    else if message_type = PC_TO_RDR_SET_PARAMETERS
                      then SetParameters slot seq p0 payload
                    else if message_type = PC_TO_RDR_XFR_BLOCK
                      then XfrBlock slot seq p0 (u16_from_le p1 p2) payload
                    else if message_type = PC_TO_RDR_ABORT then Abort slot seq
                    else Unknown message_type slot seq (p0, p1, p2) payload))"

subsection \<open>Encoding responses\<close>

text \<open>\<open>payload_length as u32\<close> truncates to 32 bits, as \<open>of_nat\<close> into \<open>u32\<close> does.\<close>

definition header :: "byte \<Rightarrow> nat \<Rightarrow> byte \<Rightarrow> byte \<Rightarrow> byte \<times> byte \<times> byte \<Rightarrow> byte list" where
  "header message_type payload_length slot seq params =
     (case params of (p0, p1, p2) \<Rightarrow>
        [message_type] @ u32_to_le (of_nat payload_length) @ [slot] @ [seq] @ [p0, p1, p2])"

fun encode :: "ccid_response \<Rightarrow> byte list" where
  "encode (DataBlock slot seq status error chain_parameter payload) =
     header RDR_TO_PC_DATA_BLOCK (length payload) slot seq
       (encode_status status, error, chain_parameter) @ payload"
| "encode (SlotStatus slot seq status error clock_status) =
     header RDR_TO_PC_SLOT_STATUS 0 slot seq (encode_status status, error, clock_status)"
| "encode (Parameters slot seq status error protocol_num payload) =
     header RDR_TO_PC_PARAMETERS (length payload) slot seq
       (encode_status status, error, protocol_num) @ payload"

subsection \<open>The host's side: specification of the two codecs\<close>

text \<open>
  \<open>encode_command\<close> is the frame a CCID host builds for a command; \<open>decode_response\<close> is how it
  reads a response. \<open>frame_payload_len\<close> is the length field of a frame.
\<close>

fun encode_command :: "ccid_command \<Rightarrow> byte list" where
  "encode_command (IccPowerOn slot seq p) = header PC_TO_RDR_ICC_POWER_ON 0 slot seq (p, 0, 0)"
| "encode_command (IccPowerOff slot seq) = header PC_TO_RDR_ICC_POWER_OFF 0 slot seq (0, 0, 0)"
| "encode_command (GetSlotStatus slot seq) =
     header PC_TO_RDR_GET_SLOT_STATUS 0 slot seq (0, 0, 0)"
| "encode_command (GetParameters slot seq) =
     header PC_TO_RDR_GET_PARAMETERS 0 slot seq (0, 0, 0)"
| "encode_command (ResetParameters slot seq) =
     header PC_TO_RDR_RESET_PARAMETERS 0 slot seq (0, 0, 0)"
| "encode_command (SetParameters slot seq p payload) =
     header PC_TO_RDR_SET_PARAMETERS (length payload) slot seq (p, 0, 0) @ payload"
| "encode_command (XfrBlock slot seq bwi level payload) =
     header PC_TO_RDR_XFR_BLOCK (length payload) slot seq
       (bwi, ucast level, ucast (drop_bit 8 level)) @ payload"
| "encode_command (Abort slot seq) = header PC_TO_RDR_ABORT 0 slot seq (0, 0, 0)"
| "encode_command (Unknown t slot seq ps payload) =
     header t (length payload) slot seq ps @ payload"

fun command_payload :: "ccid_command \<Rightarrow> byte list" where
  "command_payload (SetParameters _ _ _ payload) = payload"
| "command_payload (XfrBlock _ _ _ _ payload) = payload"
| "command_payload (Unknown _ _ _ _ payload) = payload"
| "command_payload _ = []"

text \<open>\<open>CcidCommand::slot\<close> and \<open>CcidCommand::seq\<close>, which \<open>src/ccid/transport.rs\<close> adds to the enum.\<close>

fun command_slot :: "ccid_command \<Rightarrow> byte" where
  "command_slot (IccPowerOn slot _ _) = slot"
| "command_slot (IccPowerOff slot _) = slot"
| "command_slot (GetSlotStatus slot _) = slot"
| "command_slot (GetParameters slot _) = slot"
| "command_slot (ResetParameters slot _) = slot"
| "command_slot (SetParameters slot _ _ _) = slot"
| "command_slot (XfrBlock slot _ _ _ _) = slot"
| "command_slot (Abort slot _) = slot"
| "command_slot (Unknown _ slot _ _ _) = slot"

fun command_seq :: "ccid_command \<Rightarrow> byte" where
  "command_seq (IccPowerOn _ seq _) = seq"
| "command_seq (IccPowerOff _ seq) = seq"
| "command_seq (GetSlotStatus _ seq) = seq"
| "command_seq (GetParameters _ seq) = seq"
| "command_seq (ResetParameters _ seq) = seq"
| "command_seq (SetParameters _ seq _ _) = seq"
| "command_seq (XfrBlock _ seq _ _ _) = seq"
| "command_seq (Abort _ seq) = seq"
| "command_seq (Unknown _ _ seq _ _) = seq"

definition known_types :: "byte set" where
  "known_types = {PC_TO_RDR_ICC_POWER_ON, PC_TO_RDR_ICC_POWER_OFF, PC_TO_RDR_GET_SLOT_STATUS,
     PC_TO_RDR_SET_PARAMETERS, PC_TO_RDR_GET_PARAMETERS, PC_TO_RDR_RESET_PARAMETERS,
     PC_TO_RDR_XFR_BLOCK, PC_TO_RDR_ABORT}"

fun wf_command :: "ccid_command \<Rightarrow> bool" where
  "wf_command (Unknown t _ _ _ payload) \<longleftrightarrow> t \<notin> known_types \<and> length payload < 2 ^ 32"
| "wf_command c \<longleftrightarrow> length (command_payload c) < 2 ^ 32"

fun response_slot :: "ccid_response \<Rightarrow> byte" where
  "response_slot (DataBlock slot _ _ _ _ _) = slot"
| "response_slot (SlotStatus slot _ _ _ _) = slot"
| "response_slot (Parameters slot _ _ _ _ _) = slot"

fun response_seq :: "ccid_response \<Rightarrow> byte" where
  "response_seq (DataBlock _ seq _ _ _ _) = seq"
| "response_seq (SlotStatus _ seq _ _ _) = seq"
| "response_seq (Parameters _ seq _ _ _ _) = seq"

fun response_status :: "ccid_response \<Rightarrow> slot_status" where
  "response_status (DataBlock _ _ status _ _ _) = status"
| "response_status (SlotStatus _ _ status _ _) = status"
| "response_status (Parameters _ _ status _ _ _) = status"

fun response_error :: "ccid_response \<Rightarrow> byte" where
  "response_error (DataBlock _ _ _ error _ _) = error"
| "response_error (SlotStatus _ _ _ error _) = error"
| "response_error (Parameters _ _ _ error _ _) = error"

fun response_payload :: "ccid_response \<Rightarrow> byte list" where
  "response_payload (DataBlock _ _ _ _ _ payload) = payload"
| "response_payload (SlotStatus _ _ _ _ _) = []"
| "response_payload (Parameters _ _ _ _ _ payload) = payload"

definition decode_status :: "byte \<Rightarrow> slot_status option" where
  "decode_status b =
     (let i = (if b AND 3 = 0 then Some Active else if b AND 3 = 1 then Some Inactive
               else if b AND 3 = 2 then Some NotPresent else None);
          c = (if drop_bit 6 b = 0 then Some NoError else if drop_bit 6 b = 1 then Some Failed
               else if drop_bit 6 b = 2 then Some TimeExtension else None)
      in case (i, c) of
           (Some i', Some c') \<Rightarrow> Some \<lparr>icc = i', command = c'\<rparr>
         | _ \<Rightarrow> None)"

definition frame_payload_len :: "byte list \<Rightarrow> nat" where
  "frame_payload_len f = unat (u32_from_le (f ! 1) (f ! 2) (f ! 3) (f ! 4))"

definition decode_response :: "byte list \<Rightarrow> ccid_response option" where
  "decode_response f =
     (if length f < 10 \<or> frame_payload_len f \<noteq> length f - 10 then None
      else case decode_status (f ! 7) of None \<Rightarrow> None
           | Some s \<Rightarrow>
               if f ! 0 = RDR_TO_PC_DATA_BLOCK
                 then Some (DataBlock (f ! 5) (f ! 6) s (f ! 8) (f ! 9) (drop 10 f))
               else if f ! 0 = RDR_TO_PC_SLOT_STATUS \<and> length f = 10
                 then Some (SlotStatus (f ! 5) (f ! 6) s (f ! 8) (f ! 9))
               else if f ! 0 = RDR_TO_PC_PARAMETERS
                 then Some (Parameters (f ! 5) (f ! 6) s (f ! 8) (f ! 9) (drop 10 f))
               else None)"

subsection \<open>Layout of a frame\<close>

lemma length_header [simp]: "length (header t n slot seq ps) = 10"
  by (cases ps) (simp add: header_def)

lemma header_cells [byte_simps]:
  "header t n slot seq (p0, p1, p2) =
     [t, ucast (of_nat n :: u32), ucast (drop_bit 8 (of_nat n :: u32)),
      ucast (drop_bit 16 (of_nat n :: u32)), ucast (drop_bit 24 (of_nat n :: u32)),
      slot, seq, p0, p1, p2]"
  by (simp add: header_def u32_to_le_def)

lemma header_nth [simp]:
  "(header t n slot seq (p0, p1, p2) @ ys) ! 0 = t"
  "(header t n slot seq (p0, p1, p2) @ ys) ! 5 = slot"
  "(header t n slot seq (p0, p1, p2) @ ys) ! 6 = seq"
  "(header t n slot seq (p0, p1, p2) @ ys) ! 7 = p0"
  "(header t n slot seq (p0, p1, p2) @ ys) ! 8 = p1"
  "(header t n slot seq (p0, p1, p2) @ ys) ! 9 = p2"
  by (simp_all only: header_cells, simp_all)

lemma frame_payload_len_cells:
  "frame_payload_len (t # b0 # b1 # b2 # b3 # xs) = unat (u32_from_le b0 b1 b2 b3)"
  by (simp add: frame_payload_len_def)

lemma header_payload_len [simp]:
  "frame_payload_len (header t n slot seq ps @ ys) = n mod 2 ^ 32"
proof -
  obtain p0 p1 p2 where ps: "ps = (p0, p1, p2)" by (cases ps)
  have "frame_payload_len (header t n slot seq ps @ ys) = unat (of_nat n :: u32)"
    by (simp only: ps header_cells append_Cons frame_payload_len_cells u32_le_roundtrip)
  then show ?thesis
    by (simp only: unat_of_nat) simp
qed

lemmas header_nth_nil [simp] = header_nth [where ys = "[]", simplified]
lemmas header_payload_len_nil [simp] = header_payload_len [where ys = "[]", simplified]

lemma drop_header [simp]: "drop 10 (header t n slot seq ps @ ys) = ys"
  by simp

lemma length_encode [simp]: "length (encode r) = 10 + length (response_payload r)"
  by (cases r) simp_all

lemma encode_command_nonempty [simp]: "10 \<le> length (encode_command c)"
  by (cases c) simp_all

lemma length_encode_command:
  "length (encode_command c) = 10 + length (command_payload c)"
  by (cases c) simp_all

lemma frame_payload_len_bound: "frame_payload_len f < 2 ^ 32"
proof -
  have "unat w < 2 ^ 32" for w :: u32
    using unsigned_less [of w] by simp
  then show ?thesis by (simp only: frame_payload_len_def)
qed

subsection \<open>Which frames decode, and to what\<close>

lemmas decode_folded = decode_def [folded frame_payload_len_def, unfolded Let_def]

lemma decode_Ok_iff:
  "(\<exists>c. decode f = Ok c) \<longleftrightarrow> 10 \<le> length f \<and> frame_payload_len f = length f - 10"
  by (auto simp: decode_folded)

lemma decode_Ok_length: "decode f = Ok c \<Longrightarrow> 10 \<le> length f"
  using decode_Ok_iff [of f] by blast

lemma decode_encode_command:
  assumes "wf_command c"
  shows "decode (encode_command c) = Ok c"
  using assms
  by (cases c)
    (auto simp: decode_folded u16_le_roundtrip command_codes known_types_def)

lemma status_roundtrip: "decode_status (encode_status s) = Some s"
proof (cases s)
  case (fields i c)
  then show ?thesis
    by (cases i; cases c) (simp_all add: encode_status_def decode_status_def)
qed

lemma decode_encode_response:
  assumes "length (response_payload r) < 2 ^ 32"
  shows "decode_response (encode r) = Some r"
  using assms
  by (cases r) (simp_all add: decode_response_def status_roundtrip response_codes)

text \<open>
  For the commands that carry a payload and use all three parameter bytes, decoding loses
  nothing: the frame is the host's encoding of the decoded command.
\<close>

lemma frame_from_fields:
  assumes "10 \<le> length f" "frame_payload_len f = length f - 10"
  shows "f = header (f ! 0) (length f - 10) (f ! 5) (f ! 6) (f ! 7, f ! 8, f ! 9) @ drop 10 f"
proof -
  obtain t b0 b1 b2 b3 s q p0 p1 p2 ys
    where f: "f = t # b0 # b1 # b2 # b3 # s # q # p0 # p1 # p2 # ys"
    using assms(1) by (rule list10_exhaust)
  have "unat (u32_from_le b0 b1 b2 b3) = length ys"
    using assms(2) unfolding f frame_payload_len_cells by simp
  then have "(of_nat (length ys) :: u32) = of_nat (unat (u32_from_le b0 b1 b2 b3))"
    by simp
  then have "(of_nat (length ys) :: u32) = u32_from_le b0 b1 b2 b3"
    by simp
  then show ?thesis
    by (simp add: f header_def u32_to_le_from_le)
qed

lemma decode_xfr_exact:
  assumes "decode f = Ok (XfrBlock slot seq bwi level payload)"
  shows "encode_command (XfrBlock slot seq bwi level payload) = f"
proof -
  have len: "10 \<le> length f" "frame_payload_len f = length f - 10"
    using decode_Ok_iff [of f] assms by auto
  have fields: "f ! 0 = PC_TO_RDR_XFR_BLOCK" "f ! 5 = slot" "f ! 6 = seq" "f ! 7 = bwi"
      "level = u16_from_le (f ! 8) (f ! 9)" "payload = drop 10 f"
    using assms len by (auto simp: decode_folded command_codes split: if_splits)
  have "ucast level = f ! 8 \<and> ucast (drop_bit 8 level) = f ! 9"
    using u16_to_le_from_le [of "f ! 8" "f ! 9"] by (simp add: u16_to_le_def fields(5))
  then show ?thesis
    using frame_from_fields [OF len] by (simp add: fields)
qed

lemma decode_slot_seq:
  assumes "decode f = Ok c"
  shows "command_slot c = f ! 5 \<and> command_seq c = f ! 6"
  using assms by (auto simp: decode_folded split: if_splits)

subsection \<open>Properties\<close>

text \<open>C16: Decoding inverts the host's encoding. For every well-formed command (a payload that fits
  the 32-bit length field; an unknown message type that is really unknown) the frame a CCID host
  builds for it decodes to that very command.\<close>

theorem decode_inverts_host_encoding:
  assumes "wf_command c"
  shows "decode (encode_command c) = Ok c"
  by (rule decode_encode_command [OF assms])

theorem decode_inverts_host_encoding_witness:
  "decode (encode_command (XfrBlock 0 0x22 0 0x1234 [0x00, 0xa4, 0x04, 0x00]))
     = Ok (XfrBlock 0 0x22 0 0x1234 [0x00, 0xa4, 0x04, 0x00])"
  by (rule decode_inverts_host_encoding) simp

text \<open>C28: Which frames are accepted and which error a rejected frame gives: fewer than ten bytes
  is \<open>FrameTooShort\<close> with the length, a length field that differs from the bytes after the header
  is \<open>LengthMismatch\<close> with both numbers, and every other frame decodes to some command.\<close>

theorem decode_accepts_exactly:
  "(decode f = Err (FrameTooShort n) \<longleftrightarrow> length f < 10 \<and> n = length f)
   \<and> (decode f = Err (LengthMismatch e a) \<longleftrightarrow>
        10 \<le> length f \<and> e = frame_payload_len f \<and> a = length f - 10 \<and> e \<noteq> a)
   \<and> ((\<exists>c. decode f = Ok c) \<longleftrightarrow> 10 \<le> length f \<and> frame_payload_len f = length f - 10)"
  by (auto simp: decode_folded)

text \<open>C29: Responses survive the wire. A host that reads an encoded response gets back every field,
  for payloads that fit the length field; the frame is ten bytes longer than the payload.\<close>

theorem response_roundtrip:
  assumes "length (response_payload r) < 2 ^ 32"
  shows "decode_response (encode r) = Some r \<and> length (encode r) = 10 + length (response_payload r)"
  using decode_encode_response [OF assms] by simp

theorem response_roundtrip_witness:
  "decode_response (encode (DataBlock 0 1 (status_ok Active) 0 0 [0x90, 0x00]))
     = Some (DataBlock 0 1 (status_ok Active) 0 0 [0x90, 0x00])"
  using response_roundtrip [of "DataBlock 0 1 (status_ok Active) 0 0 [0x90, 0x00]"] by simp

end
