(* ===== verification/Nfc_Reader.thy ===== *)
theory Nfc_Reader
  imports Prelude
begin

text \<open>
  The reader abstraction, \<open>src/nfc/mod.rs\<close>: what a card and a reader are to the CCID layer, the
  errors of a reader, and the trait \<open>NfcReader\<close>.

  A \<open>Box<dyn NfcReader>\<close> is a value of a type \<open>'r\<close> of the backend's own state together with the
  trait's methods; the methods are the fields of the record \<open>nfc_reader\<close>, and a \<open>&mut self\<close>
  method returns its result and the new state. The locale \<open>reader_contract\<close> is the contract the
  CCID layer relies on; each backend interprets it on its own model.
\<close>

datatype card_protocol = Iso14443A | Iso14443B | IsoDep

record card_presence =
  uid :: "byte list"
  card_protocol :: card_protocol
  historical_bytes :: "byte list"

record reader_capabilities =
  cap_name :: string
  supports_iso_dep :: bool
  supports_apdu_exchange :: bool

datatype reader_error =
    Configuration string
  | Transport string
  | Protocol string
  | TargetLost string
  | Unsupported string
  | Io string

primrec reader_error_display :: "reader_error \<Rightarrow> string" where
  "reader_error_display (Configuration m) = ''reader configuration error: '' @ m"
| "reader_error_display (Transport m) = ''reader transport error: '' @ m"
| "reader_error_display (Protocol m) = ''reader protocol error: '' @ m"
| "reader_error_display (TargetLost m) = ''NFC target lost: '' @ m"
| "reader_error_display (Unsupported m) = ''reader feature is not implemented yet: '' @ m"
| "reader_error_display (Io m) = ''reader I/O error: '' @ m"

definition reader_error_from_io :: "io_error \<Rightarrow> reader_error" where
  "reader_error_from_io e = Io (io_display e)"

record 'r nfc_reader =
  capabilities :: "'r \<Rightarrow> reader_capabilities"
  poll_card :: "'r \<Rightarrow> (card_presence option, reader_error) result \<times> 'r"
  power_off :: "'r \<Rightarrow> (unit, reader_error) result \<times> 'r"
  exchange_apdu :: "'r \<Rightarrow> byte list \<Rightarrow> (byte list, reader_error) result \<times> 'r"

fun is_target_lost :: "reader_error \<Rightarrow> bool" where
  "is_target_lost (TargetLost _) = True"
| "is_target_lost _ = False"

text \<open>\<open>reader_call rd r r'\<close>: at most one method call takes the reader from \<open>r\<close> to \<open>r'\<close>.\<close>

definition reader_call :: "'r nfc_reader \<Rightarrow> 'r \<Rightarrow> 'r \<Rightarrow> bool" where
  "reader_call rd r r' \<longleftrightarrow>
     r' = r \<or> (\<exists>res. poll_card rd r = (res, r')) \<or> (\<exists>res. power_off rd r = (res, r'))
   \<or> (\<exists>a res. exchange_apdu rd r a = (res, r'))"

lemma reader_call_refl [simp]: "reader_call rd r r"
  by (simp add: reader_call_def)

lemma reader_call_intros:
  "poll_card rd r = (res, r') \<Longrightarrow> reader_call rd r r'"
  "power_off rd r = (pres, r') \<Longrightarrow> reader_call rd r r'"
  "exchange_apdu rd r a = (eres, r') \<Longrightarrow> reader_call rd r r'"
  by (auto simp: reader_call_def)

text \<open>The states a session of method calls can reach.\<close>

inductive reader_reach :: "'r nfc_reader \<Rightarrow> 'r \<Rightarrow> 'r \<Rightarrow> bool" for rd r0 where
  start: "reader_reach rd r0 r0"
| call: "reader_reach rd r0 r \<Longrightarrow> reader_call rd r r' \<Longrightarrow> reader_reach rd r0 r'"

subsection \<open>What the CCID layer relies on\<close>

text \<open>
  \<open>ok\<close> is the backend's own invariant, \<open>attached\<close> that the backend holds an activated target.
  The laws: every method keeps \<open>ok\<close> and the capabilities; a poll that reports a card leaves the
  reader attached, one that reports no card leaves it detached; an exchange that reports
  \<open>TargetLost\<close> leaves it detached, and any other outcome keeps an attached reader attached.
\<close>

locale reader_contract =
  fixes rd :: "'r nfc_reader"
    and ok :: "'r \<Rightarrow> bool"
    and attached :: "'r \<Rightarrow> bool"
  assumes poll_ok: "ok r \<Longrightarrow> poll_card rd r = (res, r') \<Longrightarrow> ok r'"
    and power_off_ok: "ok r \<Longrightarrow> power_off rd r = (pres, r') \<Longrightarrow> ok r'"
    and exchange_ok: "ok r \<Longrightarrow> exchange_apdu rd r a = (eres, r') \<Longrightarrow> ok r'"
    and poll_caps: "poll_card rd r = (res, r') \<Longrightarrow> capabilities rd r' = capabilities rd r"
    and power_off_caps: "power_off rd r = (pres, r') \<Longrightarrow> capabilities rd r' = capabilities rd r"
    and exchange_caps:
      "exchange_apdu rd r a = (eres, r') \<Longrightarrow> capabilities rd r' = capabilities rd r"
    and poll_card_attached: "ok r \<Longrightarrow> poll_card rd r = (Ok (Some c), r') \<Longrightarrow> attached r'"
    and poll_none_detached: "ok r \<Longrightarrow> poll_card rd r = (Ok None, r') \<Longrightarrow> \<not> attached r'"
    and exchange_lost_detached:
      "ok r \<Longrightarrow> exchange_apdu rd r a = (Err (TargetLost m), r') \<Longrightarrow> \<not> attached r'"
    and exchange_keeps_attached:
      "ok r \<Longrightarrow> attached r \<Longrightarrow> exchange_apdu rd r a = (eres, r') \<Longrightarrow>
         (\<forall>m. eres \<noteq> Err (TargetLost m)) \<Longrightarrow> attached r'"

context reader_contract
begin

lemma call_keeps_ok: "reader_call rd r r' \<Longrightarrow> ok r \<Longrightarrow> ok r'"
  by (auto simp: reader_call_def dest: poll_ok power_off_ok exchange_ok)

lemma reach_keeps_ok: "reader_reach rd r0 r \<Longrightarrow> ok r0 \<Longrightarrow> ok r"
  by (induction rule: reader_reach.induct) (auto intro: call_keeps_ok)

lemma call_keeps_caps: "reader_call rd r r' \<Longrightarrow> capabilities rd r' = capabilities rd r"
  by (auto simp: reader_call_def dest: poll_caps power_off_caps exchange_caps)

end

text \<open>A reader whose card is always there: every poll reports the same card.\<close>

locale present_reader = reader_contract +
  fixes the_card :: card_presence
  assumes poll_present: "ok r \<Longrightarrow> fst (poll_card rd r) = Ok (Some the_card)"
    and power_off_succeeds: "ok r \<Longrightarrow> fst (power_off rd r) = Ok ()"
    and exchange_not_lost: "ok r \<Longrightarrow> fst (exchange_apdu rd r a) \<noteq> Err (TargetLost m)"

end
