(* ===== verification/Ccid_Bridge.thy ===== *)
theory Ccid_Bridge
  imports Ccid_Protocol Nfc_Reader
begin

text \<open>
  The bridge between CCID commands and the NFC reader, \<open>src/ccid/bridge.rs\<close>: the slot's state,
  \<open>handle_command\<close> with one handler per command, the pseudo ATR, and the APDU helpers.

  The reader's methods are the argument \<open>rd\<close>, its state the field \<open>reader\<close>. A method that takes
  \<open>&mut self\<close> returns its result and the new bridge. Log output (\<open>debug!\<close>, \<open>warn!\<close>) has no
  effect on the state and is left out. \<open>select_aid\<close>, whose value only a log line uses, is called on
  every APDU of a powered slot and can panic, so \<open>handle_command\<close> returns an option: \<open>None\<close> is the
  panic, and the bridge beside it is the one the panic leaves behind. \<open>format_hex\<close> cannot panic and is
  modelled on its own.
\<close>

subsection \<open>Constants and state\<close>

definition GENERIC_FAILURE_ERROR :: byte where "GENERIC_FAILURE_ERROR = 0xff"
definition T1_PROTOCOL_NUM :: byte where "T1_PROTOCOL_NUM = 0x01"
definition DEFAULT_T1_PARAMETERS :: "byte list" where
  "DEFAULT_T1_PARAMETERS = [0x11, 0x10, 0x00, 0x15, 0x00, 0xfe, 0x00]"
definition APDU_SELECT_INS :: byte where "APDU_SELECT_INS = 0xa4"
definition APDU_SELECT_BY_DF_NAME_P1 :: byte where "APDU_SELECT_BY_DF_NAME_P1 = 0x04"
definition APDU_GET_RESPONSE_INS :: byte where "APDU_GET_RESPONSE_INS = 0xc0"
definition ATR_T0_HISTORICAL_BYTES_MASK :: byte where "ATR_T0_HISTORICAL_BYTES_MASK = 0x0f"
definition ATR_T0_TD1_PRESENT :: byte where "ATR_T0_TD1_PRESENT = 0x80"
definition ATR_TD_T0_WITH_TD2 :: byte where "ATR_TD_T0_WITH_TD2 = 0x80"
definition ATR_TD_T1 :: byte where "ATR_TD_T1 = 0x01"

lemmas bridge_consts =
  GENERIC_FAILURE_ERROR_def T1_PROTOCOL_NUM_def DEFAULT_T1_PARAMETERS_def APDU_SELECT_INS_def
  APDU_SELECT_BY_DF_NAME_P1_def APDU_GET_RESPONSE_INS_def ATR_T0_HISTORICAL_BYTES_MASK_def
  ATR_T0_TD1_PRESENT_def ATR_TD_T0_WITH_TD2_def ATR_TD_T1_def

record 'r bridge =
  reader :: 'r
  reader_caps :: reader_capabilities
  current_card :: "card_presence option"
  slot_powered :: bool
  protocol_num :: byte
  parameters :: "byte list"

definition new_bridge :: "'r nfc_reader \<Rightarrow> 'r \<Rightarrow> 'r bridge" where
  "new_bridge rd r =
     \<lparr>reader = r, reader_caps = capabilities rd r, current_card = None, slot_powered = False,
      protocol_num = T1_PROTOCOL_NUM, parameters = DEFAULT_T1_PARAMETERS\<rparr>"

subsection \<open>Card presence\<close>

definition card_present :: "'r bridge \<Rightarrow> bool" where
  "card_present b \<longleftrightarrow> current_card b \<noteq> None"

definition refresh_card_presence ::
  "'r nfc_reader \<Rightarrow> 'r bridge \<Rightarrow> (bool, reader_error) result \<times> 'r bridge" where
  "refresh_card_presence rd b =
     (if slot_powered b \<and> current_card b \<noteq> None then (Ok True, b)
      else case poll_card rd (reader b) of
          (Err e, r) \<Rightarrow> (Err e, b\<lparr>reader := r\<rparr>)
        | (Ok crd, r) \<Rightarrow>
            let b1 = b\<lparr>reader := r\<rparr>;
                b2 = (if crd = None then b1\<lparr>slot_powered := False\<rparr> else b1);
                b3 = b2\<lparr>current_card := crd\<rparr>
            in (Ok (current_card b3 \<noteq> None), b3))"

definition current_icc_status :: "'r bridge \<Rightarrow> icc_status" where
  "current_icc_status b =
     (if current_card b = None then NotPresent
      else if slot_powered b then Active else Inactive)"

definition parameters_response :: "'r bridge \<Rightarrow> byte \<Rightarrow> byte \<Rightarrow> bool \<Rightarrow> ccid_response" where
  "parameters_response b slot seq failed =
     Parameters slot seq
       (if failed then status_failed (current_icc_status b)
        else status_ok (current_icc_status b))
       (if failed then GENERIC_FAILURE_ERROR else 0)
       (protocol_num b) (parameters b)"

subsection \<open>The pseudo ATR and the APDU helpers\<close>

definition build_pseudo_atr :: "card_presence \<Rightarrow> byte list" where
  "build_pseudo_atr crd =
     (if historical_bytes crd \<noteq> [] \<and> hd (historical_bytes crd) \<in> {0x3b, 0x3f}
      then historical_bytes crd
      else
        let hist = (if length (historical_bytes crd) > unat ATR_T0_HISTORICAL_BYTES_MASK
                    then take 15 (historical_bytes crd) else historical_bytes crd);
            atr = [0x3b, ATR_T0_TD1_PRESENT OR of_nat (length hist), ATR_TD_T0_WITH_TD2,
                   ATR_TD_T1] @ hist;
            checksum = foldl (XOR) 0 (drop 1 atr)
        in atr @ [checksum])"

text \<open>
  \<open>bool::then_some\<close> evaluates its argument before it looks at the condition, so the slice is taken,
  and panics out of range, also where the condition is false.
\<close>

definition select_aid :: "byte list \<Rightarrow> byte list option option" where
  "select_aid apdu =
     (if length apdu < 5 \<or> apdu ! 1 \<noteq> APDU_SELECT_INS \<or> apdu ! 2 \<noteq> APDU_SELECT_BY_DF_NAME_P1
      then Some None
      else
        let aid_len = unat (apdu ! 4); aid_start = 5; aid_end = aid_start + aid_len
        in case checked_slice apdu aid_start aid_end of
             None \<Rightarrow> None
           | Some aid \<Rightarrow> Some (if aid_len > 0 \<and> length apdu \<ge> aid_end then Some aid else None))"

definition normalize_apdu_for_exchange :: "byte list \<Rightarrow> byte list" where
  "normalize_apdu_for_exchange apdu =
     (if length apdu > 1 \<and> apdu ! 1 = APDU_GET_RESPONSE_INS then apdu[0 := 0x00] else apdu)"

definition format_hex :: "byte list \<Rightarrow> string" where
  "format_hex bytes =
     concat (map (\<lambda>b. [''0123456789abcdef'' ! unat (drop_bit 4 b),
                       ''0123456789abcdef'' ! unat (b AND 0x0f)]) bytes)"

subsection \<open>The handlers\<close>

definition handle_power_on ::
  "'r nfc_reader \<Rightarrow> byte \<Rightarrow> byte \<Rightarrow> 'r bridge \<Rightarrow> ccid_response \<times> 'r bridge" where
  "handle_power_on rd slot seq b =
     (case poll_card rd (reader b) of
        (Ok (Some crd), r) \<Rightarrow>
          (DataBlock slot seq (status_ok Active) 0 0 (build_pseudo_atr crd),
           b\<lparr>reader := r, current_card := Some crd, slot_powered := True\<rparr>)
      | (Ok None, r) \<Rightarrow>
          (SlotStatus slot seq (status_failed NotPresent) GENERIC_FAILURE_ERROR 0,
           b\<lparr>reader := r, current_card := None, slot_powered := False\<rparr>)
      | (Err error, r) \<Rightarrow>
          (SlotStatus slot seq (status_failed Inactive) GENERIC_FAILURE_ERROR 0,
           b\<lparr>reader := r, current_card := None, slot_powered := False\<rparr>))"

definition handle_power_off ::
  "'r nfc_reader \<Rightarrow> byte \<Rightarrow> byte \<Rightarrow> 'r bridge \<Rightarrow> ccid_response \<times> 'r bridge" where
  "handle_power_off rd slot seq b =
     (case power_off rd (reader b) of
        (Err error, r) \<Rightarrow>
          (SlotStatus slot seq (status_failed Inactive) GENERIC_FAILURE_ERROR 0,
           b\<lparr>reader := r\<rparr>)
      | (Ok _, r) \<Rightarrow>
          let b' = b\<lparr>reader := r, slot_powered := False\<rparr>
          in (SlotStatus slot seq (status_ok (current_icc_status b')) 0 0, b'))"

definition handle_get_slot_status ::
  "'r nfc_reader \<Rightarrow> byte \<Rightarrow> byte \<Rightarrow> 'r bridge \<Rightarrow> ccid_response \<times> 'r bridge" where
  "handle_get_slot_status rd slot seq b =
     (case refresh_card_presence rd b of
        (Ok _, b1) \<Rightarrow>
          let b2 = (if current_card b1 \<noteq> None \<and> cap_name (reader_caps b1) = ''dummy''
                    then b1\<lparr>slot_powered := True\<rparr> else b1)
          in (SlotStatus slot seq (status_ok (current_icc_status b2)) 0 0, b2)
      | (Err error, b1) \<Rightarrow>
          (SlotStatus slot seq (status_failed Inactive) GENERIC_FAILURE_ERROR 0, b1))"

definition handle_reset_parameters ::
  "byte \<Rightarrow> byte \<Rightarrow> 'r bridge \<Rightarrow> ccid_response \<times> 'r bridge" where
  "handle_reset_parameters slot seq b =
     (let b' = b\<lparr>protocol_num := T1_PROTOCOL_NUM, parameters := DEFAULT_T1_PARAMETERS\<rparr>
      in (parameters_response b' slot seq False, b'))"

text \<open>
  \<open>copy_from_slice\<close> panics when the lengths differ; the guard before it makes them equal.
\<close>

definition handle_set_parameters ::
  "byte \<Rightarrow> byte \<Rightarrow> byte \<Rightarrow> byte list \<Rightarrow> 'r bridge \<Rightarrow> ccid_response \<times> 'r bridge" where
  "handle_set_parameters slot seq pnum payload b =
     (if pnum \<noteq> T1_PROTOCOL_NUM \<or> length payload \<noteq> length DEFAULT_T1_PARAMETERS
      then (parameters_response b slot seq True, b)
      else
        let b' = b\<lparr>protocol_num := pnum, parameters := payload\<rparr>
        in (parameters_response b' slot seq False, b'))"

text \<open>
  \<open>handle_xfr_block\<close> is the arm of \<open>XfrBlock\<close>: refresh when no card is known, then the two
  guards, then the log line with its \<open>select_aid\<close> and the exchange (\<open>exchange_powered\<close>).
\<close>

definition exchange_powered ::
  "'r nfc_reader \<Rightarrow> byte \<Rightarrow> byte \<Rightarrow> byte list \<Rightarrow> 'r bridge \<Rightarrow> ccid_response option \<times> 'r bridge" where
  "exchange_powered rd slot seq payload b =
     (case select_aid payload of
        None \<Rightarrow> (None, b)
      | Some aid \<Rightarrow>
          (case exchange_apdu rd (reader b) (normalize_apdu_for_exchange payload) of
             (Ok response, r) \<Rightarrow>
               (Some (DataBlock slot seq (status_ok Active) 0 0 response), b\<lparr>reader := r\<rparr>)
           | (Err error, r) \<Rightarrow>
               (case error of
                  TargetLost message \<Rightarrow>
                    (Some (SlotStatus slot seq (status_failed NotPresent) GENERIC_FAILURE_ERROR 0),
                     b\<lparr>reader := r, current_card := None, slot_powered := False\<rparr>)
                | _ \<Rightarrow>
                    (Some (SlotStatus slot seq (status_failed (current_icc_status b))
                       GENERIC_FAILURE_ERROR 0),
                     b\<lparr>reader := r\<rparr>))))"

definition exchange_guarded ::
  "'r nfc_reader \<Rightarrow> byte \<Rightarrow> byte \<Rightarrow> byte list \<Rightarrow> 'r bridge \<Rightarrow> ccid_response option \<times> 'r bridge" where
  "exchange_guarded rd slot seq payload b =
     (if current_card b = None then
        (Some (SlotStatus slot seq (status_failed NotPresent) GENERIC_FAILURE_ERROR 0), b)
      else if \<not> slot_powered b then
        (Some (SlotStatus slot seq (status_failed Inactive) GENERIC_FAILURE_ERROR 0), b)
      else exchange_powered rd slot seq payload b)"

definition handle_xfr_block ::
  "'r nfc_reader \<Rightarrow> byte \<Rightarrow> byte \<Rightarrow> byte list \<Rightarrow> 'r bridge \<Rightarrow> ccid_response option \<times> 'r bridge" where
  "handle_xfr_block rd slot seq payload b =
     (if current_card b = None then
        (case refresh_card_presence rd b of
           (Ok _, b1) \<Rightarrow> exchange_guarded rd slot seq payload b1
         | (Err error, b1) \<Rightarrow>
             (Some (SlotStatus slot seq (status_failed Inactive) GENERIC_FAILURE_ERROR 0),
              b1\<lparr>slot_powered := False\<rparr>))
      else exchange_guarded rd slot seq payload b)"

text \<open>The arms of \<open>GetParameters\<close>, \<open>Abort\<close> and unknown messages leave the bridge as it is.\<close>

definition handle_get_parameters :: "byte \<Rightarrow> byte \<Rightarrow> 'r bridge \<Rightarrow> ccid_response \<times> 'r bridge" where
  [simp]: "handle_get_parameters slot seq b = (parameters_response b slot seq False, b)"

definition handle_abort :: "byte \<Rightarrow> byte \<Rightarrow> 'r bridge \<Rightarrow> ccid_response \<times> 'r bridge" where
  [simp]: "handle_abort slot seq b =
     (SlotStatus slot seq (status_ok (current_icc_status b)) 0 0, b)"

definition handle_unknown :: "byte \<Rightarrow> byte \<Rightarrow> byte \<Rightarrow> 'r bridge \<Rightarrow> ccid_response \<times> 'r bridge" where
  [simp]: "handle_unknown message_type slot seq b =
     (SlotStatus slot seq \<lparr>icc = current_icc_status b, command = Failed\<rparr>
        GENERIC_FAILURE_ERROR 0, b)"

text \<open>An arm that always returns its response.\<close>

definition returning :: "'a \<times> 'b \<Rightarrow> 'a option \<times> 'b" where
  "returning m = (Some (fst m), snd m)"

lemma returning_simps [simp]:
  "returning (r, b) = (Some r, b)"
  "fst (returning m) = Some (fst m)" "snd (returning m) = snd m"
  "returning m = (res, b) \<longleftrightarrow> (\<exists>r. m = (r, b) \<and> res = Some r)"
  by (cases m; auto simp: returning_def)+

fun handle_command ::
  "'r nfc_reader \<Rightarrow> ccid_command \<Rightarrow> 'r bridge \<Rightarrow> ccid_response option \<times> 'r bridge" where
  "handle_command rd (IccPowerOn slot seq power_select) b = returning (handle_power_on rd slot seq b)"
| "handle_command rd (IccPowerOff slot seq) b = returning (handle_power_off rd slot seq b)"
| "handle_command rd (GetSlotStatus slot seq) b = returning (handle_get_slot_status rd slot seq b)"
| "handle_command rd (GetParameters slot seq) b = returning (handle_get_parameters slot seq b)"
| "handle_command rd (ResetParameters slot seq) b = returning (handle_reset_parameters slot seq b)"
| "handle_command rd (SetParameters slot seq pnum payload) b =
     returning (handle_set_parameters slot seq pnum payload b)"
| "handle_command rd (XfrBlock slot seq bwi level_parameter payload) b =
     handle_xfr_block rd slot seq payload b"
| "handle_command rd (Abort slot seq) b = returning (handle_abort slot seq b)"
| "handle_command rd (Unknown message_type slot seq ps payload) b =
     returning (handle_unknown message_type slot seq b)"

lemmas handler_defs =
  handle_power_on_def handle_power_off_def handle_get_slot_status_def handle_reset_parameters_def
  handle_set_parameters_def handle_xfr_block_def exchange_guarded_def exchange_powered_def
  refresh_card_presence_def parameters_response_def

lemmas result_splits = sum.splits prod.splits option.splits reader_error.splits if_splits

subsection \<open>The slot's invariant\<close>

text \<open>
  Power implies a card, only T=1 is ever selected, and the parameter block has its seven bytes.
\<close>

definition bridge_inv :: "'r bridge \<Rightarrow> bool" where
  "bridge_inv b \<longleftrightarrow> (slot_powered b \<longrightarrow> current_card b \<noteq> None)
     \<and> protocol_num b = T1_PROTOCOL_NUM \<and> length (parameters b) = 7"

lemma bridge_inv_new [inv_intros]: "bridge_inv (new_bridge rd r)"
  by (simp add: bridge_inv_def new_bridge_def bridge_consts)

lemma bridge_inv_refresh [inv_intros]:
  "bridge_inv b \<Longrightarrow> refresh_card_presence rd b = (res, b') \<Longrightarrow> bridge_inv b'"
  by (auto simp: bridge_inv_def refresh_card_presence_def Let_def split: result_splits)

lemma bridge_inv_exchange_guarded:
  "bridge_inv b \<Longrightarrow> exchange_guarded rd slot seq payload b = (resp, b') \<Longrightarrow> bridge_inv b'"
  by (auto simp: bridge_inv_def exchange_guarded_def exchange_powered_def split: result_splits)

lemma bridge_inv_xfr:
  "bridge_inv b \<Longrightarrow> handle_xfr_block rd slot seq payload b = (resp, b') \<Longrightarrow> bridge_inv b'"
  by (auto simp: handle_xfr_block_def split: result_splits
      dest: bridge_inv_refresh bridge_inv_exchange_guarded)
    (auto simp: bridge_inv_def refresh_card_presence_def Let_def split: result_splits)

lemma bridge_inv_get_slot_status:
  "bridge_inv b \<Longrightarrow> handle_get_slot_status rd slot seq b = (resp, b') \<Longrightarrow> bridge_inv b'"
  by (auto simp: handle_get_slot_status_def Let_def split: result_splits
      dest: bridge_inv_refresh)
    (auto simp: bridge_inv_def refresh_card_presence_def Let_def split: result_splits)

lemma bridge_inv_handle_command [inv_intros]:
  "bridge_inv b \<Longrightarrow> handle_command rd c b = (resp, b') \<Longrightarrow> bridge_inv b'"
  by (cases c)
    (auto simp: handle_power_on_def handle_power_off_def handle_reset_parameters_def
      handle_set_parameters_def bridge_consts Let_def
      split: result_splits dest: bridge_inv_xfr bridge_inv_get_slot_status,
     auto simp: bridge_inv_def bridge_consts)

subsection \<open>What every response says\<close>

lemma handle_command_echo:
  "handle_command rd c b = (Some resp, b') \<Longrightarrow>
     response_slot resp = command_slot c \<and> response_seq resp = command_seq c"
  by (cases c) (auto simp: handler_defs Let_def split: result_splits)

definition response_consistent :: "ccid_response \<Rightarrow> bool" where
  "response_consistent resp \<longleftrightarrow>
     (command (response_status resp) = NoError \<and> response_error resp = 0)
   \<or> (command (response_status resp) = Failed \<and> response_error resp = GENERIC_FAILURE_ERROR)"

lemma handle_command_consistent:
  "handle_command rd c b = (Some resp, b') \<Longrightarrow> response_consistent resp"
  by (cases c)
    (auto simp: response_consistent_def status_ok_def status_failed_def handler_defs Let_def
      split: result_splits)

lemma handle_command_reports_state:
  "bridge_inv b \<Longrightarrow> handle_command rd c b = (Some resp, b') \<Longrightarrow>
     command (response_status resp) = NoError \<Longrightarrow>
     icc (response_status resp) = current_icc_status b'"
  by (cases c)
    (auto simp: status_ok_def status_failed_def handler_defs current_icc_status_def Let_def
      split: result_splits)

subsection \<open>APDUs that make the bridge panic\<close>

text \<open>A SELECT by DF name whose length byte promises more bytes than follow.\<close>

fun aid_overruns :: "byte list \<Rightarrow> bool" where
  "aid_overruns (cla # ins # p1 # p2 # lc # rest) \<longleftrightarrow> ins = 0xa4 \<and> p1 = 0x04 \<and> length rest < unat lc"
| "aid_overruns _ \<longleftrightarrow> False"

definition overruns_select :: "ccid_command \<Rightarrow> bool" where
  "overruns_select c = (case c of XfrBlock _ _ _ _ payload \<Rightarrow> aid_overruns payload | _ \<Rightarrow> False)"

lemma select_aid_panics_iff: "select_aid apdu = None \<longleftrightarrow> aid_overruns apdu"
proof (cases "length apdu < 5")
  case True
  then show ?thesis
    by (cases apdu rule: aid_overruns.cases) (simp_all add: select_aid_def)
next
  case False
  then obtain cla ins p1 p2 lc rest where "apdu = cla # ins # p1 # p2 # lc # rest"
    by (auto simp: numeral_eq_Suc Suc_le_length_iff not_less)
  then show ?thesis
    by (auto simp: select_aid_def bridge_consts checked_slice_def Let_def)
qed

lemma select_aid_returns: "\<not> aid_overruns apdu \<Longrightarrow> \<exists>aid. select_aid apdu = Some aid"
  using select_aid_panics_iff by (metis not_None_eq)

lemma handle_command_panics:
  "handle_command rd c b = (None, b') \<Longrightarrow> overruns_select c"
  by (cases c)
    (auto simp: overruns_select_def handle_xfr_block_def exchange_guarded_def exchange_powered_def
      select_aid_panics_iff split: result_splits)

lemma handle_command_returns:
  assumes "\<not> overruns_select c"
  obtains resp b' where "handle_command rd c b = (Some resp, b')"
  using assms handle_command_panics [of rd c b] by (metis not_None_eq prod.exhaust)

subsection \<open>The slot as a state machine\<close>

text \<open>
  The abstract slot has the three states of \<open>icc_status\<close>. What it does with a command depends on
  them and on what the reader answers, so a step is labelled with the answer: \<open>slot_call\<close> is the call
  of the reader that a slot in a given state makes for a command, if it makes one, and
  \<open>slot_step auto c out s report s'\<close> says that on the command \<open>c\<close>, with the answer \<open>out\<close>, the slot reports
  \<open>report\<close> to the host (\<open>None\<close> when it panics) and goes from \<open>s\<close> to \<open>s'\<close>. \<open>auto\<close> is the behaviour the bridge
  gives the dummy backend, whose slot is powered by a mere status query.
\<close>

datatype reader_answer =
    Not_Called
  | Card_Found | No_Card | Poll_Error
  | Switched_Off | Off_Error
  | Apdu_Answered | Target_Gone | Apdu_Error

fun poll_answer :: "(card_presence option, reader_error) result \<Rightarrow> reader_answer" where
  "poll_answer (Ok (Some c)) = Card_Found"
| "poll_answer (Ok None) = No_Card"
| "poll_answer (Err e) = Poll_Error"

fun off_answer :: "(unit, reader_error) result \<Rightarrow> reader_answer" where
  "off_answer (Ok u) = Switched_Off"
| "off_answer (Err e) = Off_Error"

fun exchange_answer :: "(byte list, reader_error) result \<Rightarrow> reader_answer" where
  "exchange_answer (Ok a) = Apdu_Answered"
| "exchange_answer (Err e) = (if is_target_lost e then Target_Gone else Apdu_Error)"

definition slot_call ::
  "'r nfc_reader \<Rightarrow> icc_status \<Rightarrow> ccid_command \<Rightarrow> 'r \<Rightarrow> reader_answer \<times> 'r" where
  "slot_call rd s c r =
     (case c of
        IccPowerOn _ _ _ \<Rightarrow> apfst poll_answer (poll_card rd r)
      | IccPowerOff _ _ \<Rightarrow> apfst off_answer (power_off rd r)
      | GetSlotStatus _ _ \<Rightarrow>
          if s = Active then (Not_Called, r) else apfst poll_answer (poll_card rd r)
      | XfrBlock _ _ _ _ payload \<Rightarrow>
          (case s of
             NotPresent \<Rightarrow> apfst poll_answer (poll_card rd r)
           | Inactive \<Rightarrow> (Not_Called, r)
           | Active \<Rightarrow>
               if aid_overruns payload then (Not_Called, r)
               else apfst exchange_answer (exchange_apdu rd r (normalize_apdu_for_exchange payload)))
      | _ \<Rightarrow> (Not_Called, r))"

inductive slot_step ::
  "bool \<Rightarrow> ccid_command \<Rightarrow> reader_answer \<Rightarrow> icc_status \<Rightarrow> slot_status option \<Rightarrow> icc_status \<Rightarrow> bool"
  for auto where
  power_up: "slot_step auto (IccPowerOn slot seq p) Card_Found s (Some (status_ok Active)) Active"
| power_up_empty:
    "slot_step auto (IccPowerOn slot seq p) No_Card s (Some (status_failed NotPresent)) NotPresent"
| power_up_error:
    "slot_step auto (IccPowerOn slot seq p) Poll_Error s (Some (status_failed Inactive)) NotPresent"
| power_down: "slot_step auto (IccPowerOff slot seq) Switched_Off Active (Some (status_ok Inactive)) Inactive"
| power_stays_down:
    "s \<noteq> Active \<Longrightarrow> slot_step auto (IccPowerOff slot seq) Switched_Off s (Some (status_ok s)) s"
| power_down_error:
    "slot_step auto (IccPowerOff slot seq) Off_Error s (Some (status_failed Inactive)) s"
| status_active: "slot_step auto (GetSlotStatus slot seq) Not_Called Active (Some (status_ok Active)) Active"
| status_finds:
    "s \<noteq> Active \<Longrightarrow> s' = (if auto then Active else Inactive) \<Longrightarrow>
       slot_step auto (GetSlotStatus slot seq) Card_Found s (Some (status_ok s')) s'"
| status_empty:
    "s \<noteq> Active \<Longrightarrow> slot_step auto (GetSlotStatus slot seq) No_Card s (Some (status_ok NotPresent)) NotPresent"
| status_error:
    "s \<noteq> Active \<Longrightarrow> slot_step auto (GetSlotStatus slot seq) Poll_Error s (Some (status_failed Inactive)) s"
| xfr_finds:
    "slot_step auto (XfrBlock slot seq bwi level payload) Card_Found NotPresent
       (Some (status_failed Inactive)) Inactive"
| xfr_empty:
    "slot_step auto (XfrBlock slot seq bwi level payload) No_Card NotPresent
       (Some (status_failed NotPresent)) NotPresent"
| xfr_poll_error:
    "slot_step auto (XfrBlock slot seq bwi level payload) Poll_Error NotPresent
       (Some (status_failed Inactive)) NotPresent"
| xfr_unpowered:
    "slot_step auto (XfrBlock slot seq bwi level payload) Not_Called Inactive
       (Some (status_failed Inactive)) Inactive"
| xfr_panics: "slot_step auto (XfrBlock slot seq bwi level payload) Not_Called Active None Active"
| xfr_answered:
    "slot_step auto (XfrBlock slot seq bwi level payload) Apdu_Answered Active
       (Some (status_ok Active)) Active"
| xfr_loses:
    "slot_step auto (XfrBlock slot seq bwi level payload) Target_Gone Active
       (Some (status_failed NotPresent)) NotPresent"
| xfr_fails:
    "slot_step auto (XfrBlock slot seq bwi level payload) Apdu_Error Active
       (Some (status_failed Active)) Active"
| get_parameters: "slot_step auto (GetParameters slot seq) Not_Called s (Some (status_ok s)) s"
| reset_parameters: "slot_step auto (ResetParameters slot seq) Not_Called s (Some (status_ok s)) s"
| set_parameters:
    "p = 1 \<Longrightarrow> length payload = 7 \<Longrightarrow>
       slot_step auto (SetParameters slot seq p payload) Not_Called s (Some (status_ok s)) s"
| set_parameters_refused:
    "p \<noteq> 1 \<or> length payload \<noteq> 7 \<Longrightarrow>
       slot_step auto (SetParameters slot seq p payload) Not_Called s (Some (status_failed s)) s"
| abort: "slot_step auto (Abort slot seq) Not_Called s (Some (status_ok s)) s"
| unknown: "slot_step auto (Unknown t slot seq ps payload) Not_Called s (Some (status_failed s)) s"

inductive_cases slot_step_to_ActiveE: "slot_step auto c out s report Active"
inductive_simps slot_step_power_on: "slot_step auto (IccPowerOn slot seq p) out s report s'"
inductive_simps slot_step_power_off: "slot_step auto (IccPowerOff slot seq) out s report s'"
inductive_simps slot_step_get_slot_status: "slot_step auto (GetSlotStatus slot seq) out s report s'"
inductive_simps slot_step_xfr: "slot_step auto (XfrBlock slot seq bwi level payload) out s report s'"
inductive_simps slot_step_get_parameters: "slot_step auto (GetParameters slot seq) out s report s'"
inductive_simps slot_step_reset: "slot_step auto (ResetParameters slot seq) out s report s'"
inductive_simps slot_step_set: "slot_step auto (SetParameters slot seq p payload) out s report s'"
inductive_simps slot_step_abort: "slot_step auto (Abort slot seq) out s report s'"
inductive_simps slot_step_unknown: "slot_step auto (Unknown t slot seq ps payload) out s report s'"

lemmas slot_step_inversion =
  slot_step_power_on slot_step_power_off slot_step_get_slot_status slot_step_xfr
  slot_step_get_parameters slot_step_reset slot_step_set slot_step_abort slot_step_unknown

text \<open>The answer of the reader leaves the slot no choice.\<close>

lemma slot_step_deterministic:
  "slot_step auto c out s rep1 s1 \<Longrightarrow> slot_step auto c out s rep2 s2 \<Longrightarrow> rep1 = rep2 \<and> s1 = s2"
  by (induction rule: slot_step.induct) (auto simp: slot_step_inversion)

definition is_dummy :: "'r bridge \<Rightarrow> bool" where
  "is_dummy b \<longleftrightarrow> cap_name (reader_caps b) = ''dummy''"

lemma reader_caps_handle_command:
  "handle_command rd c b = (resp, b') \<Longrightarrow> reader_caps b' = reader_caps b"
  by (cases c) (auto simp: handler_defs Let_def split: result_splits)

lemma xfr_active_exchanges:
  assumes "bridge_inv b" "current_icc_status b = Active"
  shows "handle_xfr_block rd slot seq payload b = exchange_powered rd slot seq payload b"
  using assms
  by (auto simp: handle_xfr_block_def exchange_guarded_def current_icc_status_def split: if_splits)

lemma handle_command_refines_slot:
  assumes "bridge_inv b" "handle_command rd c b = (res, b')"
    and "slot_call rd (current_icc_status b) c (reader b) = (out, r)"
  shows "reader b' = r \<and> slot_step (is_dummy b) c out (current_icc_status b)
    (map_option response_status res) (current_icc_status b')"
proof (cases c)
  case (IccPowerOn slot seq p)
  then show ?thesis
    using assms(2,3)
    by (auto simp: slot_call_def slot_step_power_on handle_power_on_def current_icc_status_def
        split: result_splits)
next
  case (IccPowerOff slot seq)
  then show ?thesis
    using assms
    by (auto simp: slot_call_def slot_step_power_off handle_power_off_def current_icc_status_def
        bridge_inv_def Let_def split: result_splits)
next
  case (GetSlotStatus slot seq)
  then show ?thesis
    using assms
    by (auto simp: slot_call_def slot_step_get_slot_status handle_get_slot_status_def is_dummy_def
        refresh_card_presence_def current_icc_status_def bridge_inv_def Let_def split: result_splits)
next
  case (XfrBlock slot seq bwi level payload)
  show ?thesis
  proof (cases "current_icc_status b = Active")
    case True
    show ?thesis
    proof (cases "aid_overruns payload")
      case overrun: True
      then have "select_aid payload = None" by (simp only: select_aid_panics_iff)
      then show ?thesis
        using overrun XfrBlock True assms(2,3) xfr_active_exchanges [OF assms(1) True]
        by (auto simp: slot_call_def slot_step_xfr exchange_powered_def)
    next
      case False
      then obtain aid where "select_aid payload = Some aid"
        using select_aid_returns by blast
      then show ?thesis
        using False XfrBlock True assms(2,3) xfr_active_exchanges [OF assms(1) True]
        by (auto simp: slot_call_def slot_step_xfr exchange_powered_def current_icc_status_def
            split: result_splits)
    qed
  next
    case False
    then show ?thesis
      using XfrBlock assms
      by (auto simp: slot_call_def slot_step_xfr handle_xfr_block_def exchange_guarded_def
          refresh_card_presence_def current_icc_status_def bridge_inv_def Let_def
          split: result_splits)
  qed
qed (use assms(2,3) in \<open>auto simp: slot_call_def slot_step_inversion handle_reset_parameters_def
      handle_set_parameters_def parameters_response_def bridge_consts current_icc_status_def
      status_failed_def Let_def split: if_splits\<close>)

subsection \<open>APDU exchange\<close>

text \<open>A slot that is not active never sees an exchange: at most one poll reaches the reader.\<close>

lemma xfr_blocked_unless_active:
  assumes "bridge_inv b" "current_icc_status b \<noteq> Active"
    and "handle_xfr_block rd slot seq payload b = (res, b')"
  shows "\<exists>resp. res = Some resp \<and> command (response_status resp) = Failed \<and> response_payload resp = []
    \<and> reader b' \<in> {reader b, snd (poll_card rd (reader b))}"
  using assms
  by (auto simp: handle_xfr_block_def exchange_guarded_def refresh_card_presence_def
      current_icc_status_def bridge_inv_def status_failed_def Let_def split: result_splits)

lemma normalize_length [simp]: "length (normalize_apdu_for_exchange a) = length a"
  by (simp add: normalize_apdu_for_exchange_def)

lemma normalize_idem:
  "normalize_apdu_for_exchange (normalize_apdu_for_exchange a) = normalize_apdu_for_exchange a"
  by (simp add: normalize_apdu_for_exchange_def)

lemma normalize_only_cla:
  "0 < i \<Longrightarrow> normalize_apdu_for_exchange a ! i = a ! i"
  by (simp add: normalize_apdu_for_exchange_def)

subsection \<open>Hexadecimal text\<close>

lemma drop_bit_nibble: "unat (drop_bit 4 (b :: byte)) = unat b div 16"
  by (simp only: unat_drop_div) simp

lemma and_nibble: "unat ((b :: byte) AND 0x0f) = unat b mod 16"
proof -
  have "b AND 0x0f = take_bit 4 b"
    by (simp add: take_bit_eq_mask mask_eq_exp_minus_1)
  moreover have "unat (take_bit 4 b) = unat b mod 2 ^ 4"
    by (subst unsigned_take_bit_eq) (rule take_bit_eq_mod)
  ultimately show ?thesis by simp
qed

lemma format_hex_digits:
  "format_hex bs = concat (map (\<lambda>b. [hex_digit (unat b div 16), hex_digit (unat b mod 16)]) bs)"
  by (simp only: format_hex_def hex_digit_def drop_bit_nibble and_nibble)

lemma length_format_hex: "length (format_hex bs) = 2 * length bs"
  by (induction bs) (simp_all add: format_hex_digits)

lemma format_hex_inj: "format_hex xs = format_hex ys \<Longrightarrow> xs = ys"
proof (induction xs arbitrary: ys)
  case Nil
  then show ?case by (cases ys) (simp_all add: format_hex_digits)
next
  case (Cons x xs)
  then obtain y zs where ys: "ys = y # zs"
    by (cases ys) (auto simp: format_hex_digits)
  have nib: "unat (b :: byte) div 16 < 16" for b
    using unat_byte_bound [of b] by (simp add: less_mult_imp_div_less)
  from Cons.prems have "unat x div 16 = unat y div 16" "unat x mod 16 = unat y mod 16"
    and rest: "format_hex xs = format_hex zs"
    by (simp_all add: ys format_hex_digits hex_digit_inj [OF nib nib]
        hex_digit_inj [OF mod_less_divisor mod_less_divisor])
  then have "unat x = unat y"
    by (metis div_mult_mod_eq)
  then show ?case
    using Cons.IH [OF rest] by (simp add: ys word_unat_eq_iff)
qed

subsection \<open>The pseudo ATR\<close>

text \<open>
  \<open>atr_historical\<close> reads an answer-to-reset of the shape T0 TD1 TD2 historical TCK as a host does:
  the count in the low nibble of T0, the bytes after the two interface bytes, and the check byte
  that makes the exclusive-or of everything after TS zero.
\<close>

definition xor_all :: "byte list \<Rightarrow> byte" where
  "xor_all = foldl (XOR) 0"

definition atr_historical :: "byte list \<Rightarrow> byte list option" where
  "atr_historical atr =
     (if length atr < 5 \<or> atr ! 0 \<noteq> 0x3b \<or> xor_all (drop 1 atr) \<noteq> 0
         \<or> atr ! 1 AND 0xf0 \<noteq> 0x80 \<or> atr ! 2 \<noteq> 0x80 \<or> atr ! 3 \<noteq> 0x01 then None
      else
        let n = unat (atr ! 1 AND 0x0f)
        in if length atr = 5 + n then Some (take n (drop 4 atr)) else None)"

lemma xor_all_snoc: "xor_all (xs @ [x]) = xor_all xs XOR x"
  by (simp add: xor_all_def)

lemma xor_all_check: "xor_all (xs @ [xor_all xs]) = 0"
  by (simp add: xor_all_snoc)

definition passes_atr_through :: "card_presence \<Rightarrow> bool" where
  "passes_atr_through c \<longleftrightarrow>
     historical_bytes c \<noteq> [] \<and> hd (historical_bytes c) \<in> {0x3b, 0x3f}"

lemma nibble_count:
  assumes "n \<le> 15"
  shows "unat ((0x80 OR of_nat n :: byte) AND 0x0f) = n" "(0x80 OR of_nat n :: byte) AND 0xf0 = 0x80"
proof -
  have "n \<in> set [0..<16]"
    using assms by simp
  moreover have "list_all (\<lambda>n. unat ((0x80 OR of_nat n :: byte) AND 0x0f) = n
      \<and> (0x80 OR of_nat n :: byte) AND 0xf0 = 0x80) [0..<16]"
    by (simp add: upt_rec)
  ultimately show "unat ((0x80 OR of_nat n :: byte) AND 0x0f) = n"
    "(0x80 OR of_nat n :: byte) AND 0xf0 = 0x80"
    by (auto simp: list_all_iff)
qed

lemma build_pseudo_atr_shape:
  assumes "\<not> passes_atr_through c"
  shows "build_pseudo_atr c =
    (let hist = take 15 (historical_bytes c);
         atr = [0x3b, 0x80 OR of_nat (length hist), 0x80, 0x01] @ hist
     in atr @ [xor_all (drop 1 atr)])"
  using assms
  by (auto simp: passes_atr_through_def build_pseudo_atr_def xor_all_def bridge_consts Let_def)

lemma atr_historical_build:
  assumes "\<not> passes_atr_through c"
  shows "atr_historical (build_pseudo_atr c) = Some (take 15 (historical_bytes c))"
proof -
  define hist where "hist = take 15 (historical_bytes c)"
  define atr where "atr = [0x3b, 0x80 OR of_nat (length hist), 0x80, 0x01] @ hist"
  have build: "build_pseudo_atr c = atr @ [xor_all (drop 1 atr)]"
    using build_pseudo_atr_shape [OF assms] by (simp add: Let_def hist_def atr_def)
  have "length hist \<le> 15" by (simp add: hist_def)
  note nib = nibble_count [OF this]
  have "drop 1 (build_pseudo_atr c) = drop 1 atr @ [xor_all (drop 1 atr)]"
    by (simp add: build atr_def)
  then have "xor_all (drop 1 (build_pseudo_atr c)) = 0"
    by (simp only: xor_all_check)
  then show ?thesis
    by (simp add: atr_historical_def build atr_def nib Let_def flip: hist_def)
qed

subsection \<open>AID selection\<close>

lemma select_aid_iff:
  "select_aid apdu = Some (Some aid) \<longleftrightarrow>
     (\<exists>cla p2 rest. apdu = [cla, 0xa4, 0x04, p2, of_nat (length aid)] @ aid @ rest
        \<and> 0 < length aid \<and> length aid < 256)"
proof
  assume sel: "select_aid apdu = Some (Some aid)"
  then have "5 \<le> length apdu" by (simp add: select_aid_def split: if_splits)
  then obtain cla ins p1 p2 l ys where apdu: "apdu = cla # ins # p1 # p2 # l # ys"
    by (auto simp: numeral_eq_Suc Suc_le_length_iff)
  from sel have "ins = 0xa4" "p1 = 0x04" "0 < unat l" "unat l \<le> length ys" "aid = take (unat l) ys"
    by (auto simp: select_aid_def apdu bridge_consts checked_slice_def Let_def split: if_splits)
  then have "apdu = [cla, 0xa4, 0x04, p2, of_nat (length aid)] @ aid @ drop (unat l) ys
      \<and> 0 < length aid \<and> length aid < 256"
    by (simp add: apdu)
  then show "\<exists>cla p2 rest. apdu = [cla, 0xa4, 0x04, p2, of_nat (length aid)] @ aid @ rest
        \<and> 0 < length aid \<and> length aid < 256"
    by blast
next
  assume "\<exists>cla p2 rest. apdu = [cla, 0xa4, 0x04, p2, of_nat (length aid)] @ aid @ rest
        \<and> 0 < length aid \<and> length aid < 256"
  then obtain cla p2 rest
    where apdu: "apdu = [cla, 0xa4, 0x04, p2, of_nat (length aid)] @ aid @ rest"
      and len: "0 < length aid" "length aid < 256"
    by blast
  have "unat (of_nat (length aid) :: byte) = length aid"
    using len(2) by (subst unat_of_nat) simp
  then show "select_aid apdu = Some (Some aid)"
    using len by (simp add: select_aid_def apdu bridge_consts Let_def)
qed

subsection \<open>The bridge on any reader that keeps its contract\<close>

text \<open>
  \<open>bridge_ok\<close> adds the reader's own invariant; \<open>powered_attached\<close> says that the bridge believes the
  slot powered only while the reader holds an activated target.
\<close>

definition bridge_ok :: "'r nfc_reader \<Rightarrow> ('r \<Rightarrow> bool) \<Rightarrow> 'r bridge \<Rightarrow> bool" where
  "bridge_ok rd ok b \<longleftrightarrow>
     bridge_inv b \<and> ok (reader b) \<and> reader_caps b = capabilities rd (reader b)"

definition powered_attached :: "('r \<Rightarrow> bool) \<Rightarrow> 'r bridge \<Rightarrow> bool" where
  "powered_attached attached b \<longleftrightarrow> (slot_powered b \<longrightarrow> attached (reader b))"

definition power_off_failed :: "ccid_command \<Rightarrow> ccid_response option \<Rightarrow> bool" where
  "power_off_failed c res \<longleftrightarrow>
     (\<exists>slot seq. c = IccPowerOff slot seq)
   \<and> (\<exists>resp. res = Some resp \<and> command (response_status resp) = Failed)"

lemma refresh_calls:
  "refresh_card_presence rd b = (res, b') \<Longrightarrow>
     reader_call rd (reader b) (reader b') \<and> reader_caps b' = reader_caps b"
  by (auto simp: refresh_card_presence_def Let_def intro: reader_call_intros
      split: result_splits)

lemma exchange_guarded_calls:
  "exchange_guarded rd slot seq payload b = (resp, b') \<Longrightarrow>
     reader_call rd (reader b) (reader b')"
  by (auto simp: exchange_guarded_def exchange_powered_def intro: reader_call_intros
      split: result_splits)

lemma handle_xfr_block_calls:
  "handle_xfr_block rd slot seq payload b = (resp, b') \<Longrightarrow>
     \<exists>r. reader_call rd (reader b) r \<and> reader_call rd r (reader b')"
  by (auto simp: handle_xfr_block_def split: result_splits
      dest!: refresh_calls exchange_guarded_calls intro: reader_call_refl)

lemma handle_command_calls:
  assumes "handle_command rd c b = (resp, b')"
  shows "\<exists>r. reader_call rd (reader b) r \<and> reader_call rd r (reader b')"
proof (cases c)
  case (XfrBlock slot seq bwi level payload)
  with assms show ?thesis by (simp add: handle_xfr_block_calls)
next
  case (GetSlotStatus slot seq)
  with assms have "reader_call rd (reader b) (reader b')"
    by (auto simp: handle_get_slot_status_def Let_def split: result_splits dest!: refresh_calls)
  then show ?thesis by (blast intro: reader_call_refl)
qed (use assms in \<open>auto simp: handle_power_on_def handle_power_off_def handle_reset_parameters_def
      handle_set_parameters_def Let_def split: result_splits
      intro: reader_call_intros reader_call_refl exI\<close>)

lemma bridge_ok_inv: "bridge_ok rd ok b \<Longrightarrow> bridge_inv b"
  by (simp add: bridge_ok_def)

context reader_contract
begin

lemma bridge_ok_new: "ok r \<Longrightarrow> bridge_ok rd ok (new_bridge rd r)"
  by (simp add: bridge_ok_def bridge_inv_new) (simp add: new_bridge_def)

lemma bridge_ok_refresh:
  assumes "bridge_ok rd ok b" "refresh_card_presence rd b = (res, b')"
  shows "bridge_ok rd ok b'"
  using assms refresh_calls [OF assms(2)]
  by (auto simp: bridge_ok_def bridge_inv_refresh call_keeps_caps intro: call_keeps_ok)

lemma handle_command_reader_ok:
  assumes "ok (reader b)" "handle_command rd c b = (resp, b')"
  shows "ok (reader b') \<and> capabilities rd (reader b') = capabilities rd (reader b)"
  using handle_command_calls [OF assms(2)] assms(1) call_keeps_ok call_keeps_caps by metis

lemma bridge_ok_handle_command:
  assumes "bridge_ok rd ok b" "handle_command rd c b = (resp, b')"
  shows "bridge_ok rd ok b'"
  using assms handle_command_reader_ok [of b c resp b']
  by (auto simp: bridge_ok_def bridge_inv_handle_command reader_caps_handle_command)

lemma powered_attached_handle_command:
  assumes "bridge_ok rd ok b" "powered_attached attached b"
    and "handle_command rd c b = (resp, b')" "\<not> power_off_failed c resp"
  shows "powered_attached attached b'"
  using assms
  by (cases c)
    (auto simp: bridge_ok_def bridge_inv_def powered_attached_def power_off_failed_def handler_defs
      status_failed_def Let_def
      dest: poll_card_attached exchange_keeps_attached split: result_splits)

end

context present_reader
begin

lemma exchange_never_lost: "ok r \<Longrightarrow> exchange_apdu rd r a = (Err (TargetLost m), r') \<Longrightarrow> False"
  by (metis exchange_not_lost fst_conv)

lemma present_power_on:
  assumes "bridge_ok rd ok b"
  shows "\<exists>b'. handle_command rd (IccPowerOn slot seq p) b
    = (Some (DataBlock slot seq (status_ok Active) 0 0 (build_pseudo_atr the_card)), b')
    \<and> current_icc_status b' = Active \<and> bridge_ok rd ok b'"
proof -
  obtain r where poll: "poll_card rd (reader b) = (Ok (Some the_card), r)"
    using poll_present [of "reader b"] assms
    by (metis bridge_ok_def prod.collapse)
  define b' where "b' = b\<lparr>reader := r, current_card := Some the_card, slot_powered := True\<rparr>"
  have handle: "handle_command rd (IccPowerOn slot seq p) b
    = (Some (DataBlock slot seq (status_ok Active) 0 0 (build_pseudo_atr the_card)), b')"
    by (simp add: handle_power_on_def poll b'_def)
  then have "bridge_ok rd ok b'"
    using assms bridge_ok_handle_command by blast
  with handle show ?thesis
    by (auto simp: b'_def current_icc_status_def)
qed

lemma present_card_stays:
  assumes "bridge_ok rd ok b" "current_card b \<noteq> None" "handle_command rd c b = (resp, b')"
  shows "current_card b' \<noteq> None"
  using assms poll_present [of "reader b"]
  by (cases c)
    (auto simp: bridge_ok_def handler_defs Let_def split: result_splits
      dest: exchange_never_lost)

end

subsection \<open>Properties\<close>

text \<open>\<open>bridge_run\<close> is a session: any list of commands, from the bridge as it is created.\<close>

definition bridge_run :: "'r nfc_reader \<Rightarrow> ccid_command list \<Rightarrow> 'r bridge \<Rightarrow> 'r bridge" where
  "bridge_run rd cs b = foldl (\<lambda>u c. snd (handle_command rd c u)) b cs"

lemma bridge_run_simps [simp]:
  "bridge_run rd [] b = b"
  "bridge_run rd (c # cs) b = bridge_run rd cs (snd (handle_command rd c b))"
  by (simp_all add: bridge_run_def)

lemma bridge_run_inv: "bridge_inv b \<Longrightarrow> bridge_inv (bridge_run rd cs b)"
proof (induction cs arbitrary: b)
  case (Cons c cs)
  have "bridge_inv (snd (handle_command rd c b))"
    using bridge_inv_handle_command [OF Cons.prems] by (metis prod.collapse)
  then show ?case by (simp add: Cons.IH)
qed simp

text \<open>C30: Every response is addressed to its command (same slot, same sequence number), and its
  error byte and its status byte agree: success with error 0, or failure with error 0xff. A command
  without a response is a SELECT whose length byte overruns its data.\<close>

theorem response_matches_command:
  "case fst (handle_command rd c b) of
     None \<Rightarrow> overruns_select c
   | Some resp \<Rightarrow>
       response_slot resp = command_slot c \<and> response_seq resp = command_seq c
     \<and> response_consistent resp"
proof (cases "handle_command rd c b")
  case (Pair res b')
  then show ?thesis
    by (cases res) (auto dest: handle_command_panics handle_command_echo handle_command_consistent)
qed

text \<open>C17: A response that reports success reports the truth: its card status is the slot's status
  after the command.\<close>

theorem success_reports_slot_state:
  assumes "bridge_inv b" "handle_command rd c b = (Some resp, b')"
    and "command (response_status resp) = NoError"
  shows "icc (response_status resp) = current_icc_status b'"
  by (rule handle_command_reports_state [OF assms])

text \<open>A reader for the witnesses: it answers from a script of poll results, as the fake readers of
  the source's tests do, and exchanges and powers off as told.\<close>

type_synonym script = "(card_presence option, reader_error) result list"

definition scripted ::
  "(unit, reader_error) result \<Rightarrow> (byte list, reader_error) result \<Rightarrow> script nfc_reader" where
  "scripted off exch =
     \<lparr>capabilities = (\<lambda>_. \<lparr>cap_name = ''fake'', supports_iso_dep = True,
                            supports_apdu_exchange = True\<rparr>),
      poll_card = (\<lambda>s. case s of [] \<Rightarrow> (Ok None, []) | x # xs \<Rightarrow> (x, xs)),
      power_off = (\<lambda>s. (off, s)),
      exchange_apdu = (\<lambda>s a. (exch, s))\<rparr>"

definition sample_card :: card_presence where
  "sample_card = \<lparr>uid = [1, 2, 3, 4], card_protocol = IsoDep, historical_bytes = [0x80, 0x73]\<rparr>"

definition powered_bridge ::
  "(unit, reader_error) result \<Rightarrow> (byte list, reader_error) result \<Rightarrow> script bridge" where
  "powered_bridge off exch =
     bridge_run (scripted off exch) [IccPowerOn 0 1 0]
       (new_bridge (scripted off exch) [Ok (Some sample_card)])"

lemma powered_bridge_inv: "bridge_inv (powered_bridge off exch)"
  unfolding powered_bridge_def by (rule bridge_run_inv [OF bridge_inv_new])

lemma powered_bridge_fields:
  "reader (powered_bridge off exch) = []"
  "current_card (powered_bridge off exch) = Some sample_card"
  "slot_powered (powered_bridge off exch)"
  "cap_name (reader_caps (powered_bridge off exch)) = ''fake''"
  by (simp_all add: powered_bridge_def handle_power_on_def scripted_def new_bridge_def)

theorem success_reports_slot_state_witness:
  "icc (response_status (the (fst (handle_command (scripted (Ok ()) (Ok [])) (IccPowerOff 0 2)
      (powered_bridge (Ok ()) (Ok [])))))) = Inactive"
proof -
  let ?rd = "scripted (Ok ()) (Ok [])" and ?b = "powered_bridge (Ok ()) (Ok [])"
  have "\<not> overruns_select (IccPowerOff 0 2)"
    by (simp add: overruns_select_def)
  from handle_command_returns [OF this] obtain resp b'
    where handle: "handle_command ?rd (IccPowerOff 0 2) ?b = (Some resp, b')" .
  then have "command (response_status resp) = NoError" "current_icc_status b' = Inactive"
    using powered_bridge_fields [of "Ok ()" "Ok []"]
    by (auto simp: handle_power_off_def scripted_def Let_def status_ok_def current_icc_status_def)
  then show ?thesis
    using success_reports_slot_state [OF powered_bridge_inv handle] handle by simp
qed

text \<open>C7: The detailed handler implements the abstract slot machine. For every command, every state of
  the slot and every answer of the reader, the handler makes exactly the one call of the reader
  that the machine makes, or none, and the new slot status and the status reported to the host are
  those of the machine's step, which is the only step it has for this answer.\<close>

theorem bridge_refines_slot_machine:
  assumes "bridge_inv b" "handle_command rd c b = (res, b')"
    and "slot_call rd (current_icc_status b) c (reader b) = (out, r)"
  shows "reader b' = r
    \<and> slot_step (is_dummy b) c out (current_icc_status b)
        (map_option response_status res) (current_icc_status b')
    \<and> (\<forall>report s'. slot_step (is_dummy b) c out (current_icc_status b) report s' \<longrightarrow>
         report = map_option response_status res \<and> s' = current_icc_status b')"
  using handle_command_refines_slot [OF assms] slot_step_deterministic by blast

theorem bridge_refines_slot_machine_witness:
  "map_option response_status (fst (handle_command (scripted (Ok ()) (Ok [])) (IccPowerOff 0 2)
      (powered_bridge (Ok ()) (Ok [])))) = Some (status_ok Inactive)
   \<and> current_icc_status (snd (handle_command (scripted (Ok ()) (Ok [])) (IccPowerOff 0 2)
      (powered_bridge (Ok ()) (Ok [])))) = Inactive"
proof -
  let ?rd = "scripted (Ok ()) (Ok [])" and ?b = "powered_bridge (Ok ()) (Ok [])"
  have call: "slot_call ?rd (current_icc_status ?b) (IccPowerOff 0 2) (reader ?b) = (Switched_Off, [])"
    by (simp add: slot_call_def scripted_def powered_bridge_fields)
  have "current_icc_status ?b = Active"
    by (simp add: powered_bridge_fields current_icc_status_def)
  then have "slot_step (is_dummy ?b) (IccPowerOff 0 2) Switched_Off (current_icc_status ?b)
      (Some (status_ok Inactive)) Inactive"
    by (simp add: power_down)
  then show ?thesis
    using bridge_refines_slot_machine [OF powered_bridge_inv prod.collapse [symmetric] call] by metis
qed

text \<open>Only a power-on activates the slot, or a status query on the dummy backend.\<close>

lemma only_power_on_activates:
  assumes "bridge_inv b" "handle_command rd c b = (res, b')"
    and "current_icc_status b \<noteq> Active" "current_icc_status b' = Active"
  shows "(\<exists>slot seq p. c = IccPowerOn slot seq p)
    \<or> (is_dummy b \<and> (\<exists>slot seq. c = GetSlotStatus slot seq))"
proof -
  obtain out report where "slot_step (is_dummy b) c out (current_icc_status b) report Active"
    using handle_command_refines_slot [OF assms(1,2) prod.collapse [symmetric]] assms(4) by metis
  then show ?thesis
    using assms(3) by (auto elim: slot_step_to_ActiveE split: if_splits)
qed

text \<open>C9: An APDU reaches the reader only through an active slot. If the slot is not active, an
  \<open>XfrBlock\<close> answers with a failure without payload and the reader sees at most one poll.\<close>

theorem xfr_needs_active_slot:
  assumes "bridge_inv b" "current_icc_status b \<noteq> Active"
    and "handle_command rd (XfrBlock slot seq bwi level payload) b = (res, b')"
  shows "\<exists>resp. res = Some resp \<and> command (response_status resp) = Failed \<and> response_payload resp = []
    \<and> reader b' \<in> {reader b, snd (poll_card rd (reader b))}"
  using xfr_blocked_unless_active [OF assms(1,2)] assms(3) by simp

theorem xfr_needs_active_slot_witness:
  "\<exists>resp. fst (handle_command (scripted (Ok ()) (Ok [0x90, 0x00]))
     (XfrBlock 0 1 0 0 [0x00, 0xa4]) (new_bridge (scripted (Ok ()) (Ok [0x90, 0x00]))
       [Ok (Some sample_card)])) = Some resp \<and> command (response_status resp) = Failed"
proof -
  let ?rd = "scripted (Ok ()) (Ok [0x90, 0x00])"
  let ?b = "new_bridge ?rd [Ok (Some sample_card)]"
  have "current_icc_status ?b \<noteq> Active" by (simp add: new_bridge_def current_icc_status_def)
  from xfr_needs_active_slot [OF bridge_inv_new this prod.collapse [symmetric]] show ?thesis
    by blast
qed

text \<open>C10: On an active slot an \<open>XfrBlock\<close> is one exchange of the normalised APDU, and every outcome
  of the reader has its own answer: a response is a successful data block; a lost target empties the
  slot and is reported as not present; any other error keeps the slot active and is reported so.
  The exception is a SELECT whose length byte overruns its data: it panics and reaches no reader.\<close>

theorem xfr_on_active_slot:
  assumes "bridge_inv b" "current_icc_status b = Active"
    and "exchange_apdu rd (reader b) (normalize_apdu_for_exchange payload) = (res, r)"
  shows "\<exists>b'. handle_command rd (XfrBlock slot seq bwi level payload) b =
      (if aid_overruns payload then None
       else Some (case res of
           Ok data \<Rightarrow> DataBlock slot seq (status_ok Active) 0 0 data
         | Err (TargetLost m) \<Rightarrow> SlotStatus slot seq (status_failed NotPresent) 0xff 0
         | Err _ \<Rightarrow> SlotStatus slot seq (status_failed Active) 0xff 0), b')
    \<and> (if aid_overruns payload then b' = b
       else reader b' = r
         \<and> current_icc_status b' = (case res of Err (TargetLost m) \<Rightarrow> NotPresent | _ \<Rightarrow> Active))"
proof (cases "aid_overruns payload")
  case True
  then have "select_aid payload = None"
    by (simp only: select_aid_panics_iff)
  then show ?thesis
    using True xfr_active_exchanges [OF assms(1,2)] by (simp add: exchange_powered_def)
next
  case False
  then obtain aid where "select_aid payload = Some aid"
    using select_aid_returns by blast
  then show ?thesis
    using False assms(2,3) xfr_active_exchanges [OF assms(1,2), of rd slot seq payload]
    by (cases res; cases "projl res")
      (auto simp: exchange_powered_def current_icc_status_def GENERIC_FAILURE_ERROR_def
        split: if_splits)
qed

theorem xfr_on_active_slot_witness:
  "fst (handle_command (scripted (Ok ()) (Err (TargetLost ''gone''))) (XfrBlock 0 2 0 0 [0x00, 0xa4])
      (powered_bridge (Ok ()) (Err (TargetLost ''gone''))))
   = Some (SlotStatus 0 2 (status_failed NotPresent) 0xff 0)"
proof -
  let ?rd = "scripted (Ok ()) (Err (TargetLost ''gone''))"
  let ?b = "powered_bridge (Ok ()) (Err (TargetLost ''gone''))"
  have active: "current_icc_status ?b = Active"
    by (simp add: current_icc_status_def powered_bridge_fields)
  have exch: "exchange_apdu ?rd (reader ?b) (normalize_apdu_for_exchange [0x00, 0xa4])
      = (Err (TargetLost ''gone''), [])"
    by (simp add: scripted_def powered_bridge_fields)
  show ?thesis
    using xfr_on_active_slot [OF powered_bridge_inv active exch, of 0 2 0 0]
    by (auto simp del: handle_command.simps)
qed

text \<open>A parameter block that is set is the one read back; a block of another protocol or length is
  refused, leaves the bridge as it was and answers with the old block.\<close>

lemma set_parameters_then_get:
  "(if pnum = 1 \<and> length payload = 7
    then fst (handle_command rd (GetParameters slot' seq')
           (snd (handle_command rd (SetParameters slot seq pnum payload) b)))
         = Some (Parameters slot' seq' (status_ok (current_icc_status b)) 0 1 payload)
    else handle_command rd (SetParameters slot seq pnum payload) b
         = (Some (Parameters slot seq (status_failed (current_icc_status b)) 0xff (protocol_num b)
              (parameters b)), b))"
  by (auto simp: handle_set_parameters_def parameters_response_def bridge_consts Let_def
      current_icc_status_def)

text \<open>C36: The pseudo ATR, for any card. Historical bytes that start with 0x3b or 0x3f are taken for a
  whole ATR and returned as they are, unchecked; this is the way of the dummy card. From all others
  an ATR is built: a host that checks TS, the format and interface bytes and the check byte accepts
  it and reads the first fifteen historical bytes back, and nothing else is in it.\<close>

theorem pseudo_atr_well_formed:
  "if passes_atr_through c then build_pseudo_atr c = historical_bytes c
   else atr_historical (build_pseudo_atr c) = Some (take 15 (historical_bytes c))
     \<and> length (build_pseudo_atr c) = 5 + min 15 (length (historical_bytes c))"
  using atr_historical_build [of c] build_pseudo_atr_shape [of c]
  by (auto simp: Let_def passes_atr_through_def build_pseudo_atr_def)

lemma pseudo_atr_examples:
  "atr_historical (build_pseudo_atr sample_card) = Some [0x80, 0x73]"
  using atr_historical_build [of sample_card] by (simp add: passes_atr_through_def sample_card_def)

text \<open>C38: A failed power-off leaves the two sides in disagreement: the host is told that the card is
  inactive, while the bridge keeps the slot powered, so the next APDU is exchanged.\<close>

theorem failed_power_off_keeps_power:
  assumes "power_off rd (reader b) = (Err e, r)" "current_icc_status b = Active"
  shows "fst (handle_command rd (IccPowerOff slot seq) b)
      = Some (SlotStatus slot seq (status_failed Inactive) 0xff 0)
    \<and> current_icc_status (snd (handle_command rd (IccPowerOff slot seq) b)) = Active"
  using assms
  by (auto simp: handle_power_off_def GENERIC_FAILURE_ERROR_def current_icc_status_def
      split: if_splits)

theorem failed_power_off_keeps_power_witness:
  "current_icc_status (snd (handle_command (scripted (Err (Io ''x'')) (Ok [])) (IccPowerOff 0 2)
      (powered_bridge (Err (Io ''x'')) (Ok [])))) = Active"
proof -
  let ?rd = "scripted (Err (Io ''x'')) (Ok [])" and ?b = "powered_bridge (Err (Io ''x'')) (Ok [])"
  have "power_off ?rd (reader ?b) = (Err (Io ''x''), [])" "current_icc_status ?b = Active"
    by (simp_all add: scripted_def powered_bridge_fields current_icc_status_def)
  then show ?thesis
    using failed_power_off_keeps_power [of ?rd ?b] by simp
qed

end
