(* ===== verification/Ccid_Transport.thy ===== *)
theory Ccid_Transport
  imports Ccid_Bridge
begin

text \<open>
  The USB transport of CCID messages, \<open>src/ccid/transport.rs\<close>: reassembly of bulk OUT packets
  into frames, the queue of bulk IN responses and its packetisation, slot-change notifications on
  the interrupt pipe, and the two-sided abort protocol (control request and bulk message).

  The bridge is behind an \<open>Arc<Mutex<_>>\<close> that only this transport locks; the field \<open>bridge\<close> is
  its contents and \<open>poisoned\<close> whether a panic unwound while the lock was held, in which case \<open>lock\<close>
  fails from then on. A panic of the command handler under the lock ends the call with \<open>Panicked\<close>. A \<open>VecDeque\<close> is a list with its front at the head. The loop of \<open>handle_bulk_out\<close>
  is \<open>process_frames\<close>, whose termination is proved for every state.
\<close>

subsection \<open>State\<close>

definition CCID_MAX_MESSAGE_LENGTH :: nat where "CCID_MAX_MESSAGE_LENGTH = 3072"
definition CCID_GET_CLOCK_FREQUENCIES :: byte where "CCID_GET_CLOCK_FREQUENCIES = 0x02"
definition CCID_GET_DATA_RATES :: byte where "CCID_GET_DATA_RATES = 0x03"
definition CCID_ABORT :: byte where "CCID_ABORT = 0x01"
definition CCID_CLOCK_FREQUENCY_KHZ :: "byte list" where
  "CCID_CLOCK_FREQUENCY_KHZ = [0xfc, 0x0d, 0x00, 0x00]"
definition CCID_DATA_RATE_BPS :: "byte list" where
  "CCID_DATA_RATE_BPS = [0x80, 0x25, 0x00, 0x00]"
definition CCID_NOTIFY_SLOT_CHANGE :: byte where "CCID_NOTIFY_SLOT_CHANGE = 0x50"
definition CMD_ABORTED_ERROR :: byte where "CMD_ABORTED_ERROR = 0xff"
definition MAX_PENDING_IN_FRAMES :: nat where "MAX_PENDING_IN_FRAMES = 32"

lemmas transport_consts =
  CCID_MAX_MESSAGE_LENGTH_def CCID_GET_CLOCK_FREQUENCIES_def CCID_GET_DATA_RATES_def
  CCID_ABORT_def CCID_CLOCK_FREQUENCY_KHZ_def CCID_DATA_RATE_BPS_def CCID_NOTIFY_SLOT_CHANGE_def
  CMD_ABORTED_ERROR_def MAX_PENDING_IN_FRAMES_def

datatype transport_state = Idle | Receiving | ReadyToSend

record 'r transport =
  bridge :: "'r bridge"
  poisoned :: bool
  tstate :: transport_state
  pending_in_frames :: "byte list list"
  pending_interrupt_frames :: "byte list list"
  pending_out_buffer :: "byte list"
  next_frame_len :: "nat option"
  slot_present :: bool
  bulk_abort :: "byte option"
  control_abort :: "(byte \<times> byte) option"

definition new_transport :: "'r bridge \<Rightarrow> 'r transport" where
  "new_transport b =
     \<lparr>bridge = b, poisoned = False, tstate = Idle, pending_in_frames = [],
      pending_interrupt_frames = [], pending_out_buffer = [], next_frame_len = None,
      slot_present = False, bulk_abort = None, control_abort = None\<rparr>"

text \<open>The text that \<open>{:?}\<close> writes of a transport: of its queues and its buffer only the lengths.\<close>

primrec transport_state_debug :: "transport_state \<Rightarrow> string" where
  "transport_state_debug Idle = ''Idle''"
| "transport_state_debug Receiving = ''Receiving''"
| "transport_state_debug ReadyToSend = ''ReadyToSend''"

definition transport_debug :: "'r transport \<Rightarrow> string" where
  "transport_debug t = debug_struct ''CcidTransport''
     [(''state'', transport_state_debug (tstate t)),
      (''pending_in_frames'', fmt_nat (length (pending_in_frames t))),
      (''pending_interrupt_frames'', fmt_nat (length (pending_interrupt_frames t))),
      (''pending_out_buffer'', fmt_nat (length (pending_out_buffer t))),
      (''next_frame_len'', debug_option fmt_nat (next_frame_len t)),
      (''slot_present'', debug_bool (slot_present t))]"

lemma new_transport_debug:
  "transport_debug (new_transport b) =
     ''CcidTransport { state: Idle, pending_in_frames: 0, pending_interrupt_frames: 0, '' @
     ''pending_out_buffer: 0, next_frame_len: None, slot_present: false }''"
  by (simp add: transport_debug_def new_transport_def debug_struct_def debug_option_def debug_bool_def
      fmt_nat.simps hex_digit_def)

definition lock_poisoned_error :: io_error where
  "lock_poisoned_error = IoError Other_Kind ''CCID bridge lock poisoned''"

subsection \<open>Queues\<close>

definition update_state :: "'r transport \<Rightarrow> 'r transport" where
  "update_state t =
     (if pending_in_frames t \<noteq> [] then t\<lparr>tstate := ReadyToSend\<rparr>
      else if pending_out_buffer t = [] then t\<lparr>next_frame_len := None, tstate := Idle\<rparr>
      else t\<lparr>tstate := Receiving\<rparr>)"

definition push_interrupt :: "byte list \<Rightarrow> 'r transport \<Rightarrow> 'r transport" where
  "push_interrupt f t = t\<lparr>pending_interrupt_frames := pending_interrupt_frames t @ [f]\<rparr>"

definition update_slot_presence :: "bool \<Rightarrow> 'r transport \<Rightarrow> 'r transport" where
  "update_slot_presence present t =
     (if slot_present t = present
      then push_interrupt [CCID_NOTIFY_SLOT_CHANGE, if present then 1 else 0] t
      else push_interrupt [CCID_NOTIFY_SLOT_CHANGE, if present then 3 else 2]
             (t\<lparr>slot_present := present\<rparr>))"

definition push_in_frame :: "byte list \<Rightarrow> 'r transport \<Rightarrow> 'r transport" where
  "push_in_frame frame t =
     (if pending_in_frames t \<noteq> [] \<and> last (pending_in_frames t) = frame then t
      else
        let t1 = (if length (pending_in_frames t) \<ge> MAX_PENDING_IN_FRAMES
                  then t\<lparr>pending_in_frames := []\<rparr> else t)
        in t1\<lparr>pending_in_frames := pending_in_frames t1 @ [frame]\<rparr>)"

definition enqueue_response :: "ccid_response \<Rightarrow> bool \<Rightarrow> 'r transport \<Rightarrow> 'r transport" where
  "enqueue_response response present t =
     update_state (update_slot_presence present (push_in_frame (encode response) t))"

subsection \<open>Abort\<close>

definition finish_abort ::
  "'r nfc_reader \<Rightarrow> byte \<Rightarrow> byte \<Rightarrow> 'r transport \<Rightarrow> (unit, io_error) result \<times> 'r transport" where
  "finish_abort rd slot seq t =
     (let t1 = t\<lparr>bulk_abort := None, control_abort := None, pending_out_buffer := [],
                 next_frame_len := None, pending_in_frames := []\<rparr>
      in if poisoned t1 then (Err lock_poisoned_error, t1)
         else
           case handle_command rd (Abort slot seq) (bridge t1) of
             (None, b) \<Rightarrow> (Err Panicked, t1\<lparr>bridge := b, poisoned := True\<rparr>)
           | (Some response, b) \<Rightarrow>
               (Ok (), enqueue_response response (card_present b) (t1\<lparr>bridge := b\<rparr>)))"

definition queue_aborted_response ::
  "ccid_command \<Rightarrow> 'r transport \<Rightarrow> (unit, io_error) result \<times> 'r transport" where
  "queue_aborted_response cmd t =
     (if poisoned t then (Err lock_poisoned_error, t)
      else
        let status = \<lparr>icc = current_icc_status (bridge t), command = Failed\<rparr>;
            response = SlotStatus (command_slot cmd) (command_seq cmd) status
                         CMD_ABORTED_ERROR 0;
            t1 = push_in_frame (encode response) t;
            t2 = update_slot_presence (card_present (bridge t)) t1
        in (Ok (), update_state t2))"

definition expect_abort :: "'r nfc_reader \<Rightarrow> byte \<Rightarrow> byte \<Rightarrow> 'r transport \<Rightarrow> 'r transport" where
  "expect_abort rd slot seq t =
     (if slot \<noteq> 0 then t
      else if bulk_abort t = Some seq then snd (finish_abort rd slot seq t)
      else t\<lparr>control_abort := Some (slot, seq)\<rparr>)"

subsection \<open>Bulk OUT\<close>

definition try_take_complete_frame ::
  "'r transport \<Rightarrow> (byte list option, io_error) result \<times> 'r transport" where
  "try_take_complete_frame t =
     (if length (pending_out_buffer t) < 10
      then (Ok None, update_state (t\<lparr>next_frame_len := None\<rparr>))
      else
        let buf = pending_out_buffer t;
            (frame_len, cached) =
              (case next_frame_len t of
                 Some n \<Rightarrow> (n, True)
               | None \<Rightarrow> (10 + unat (u32_from_le (buf ! 1) (buf ! 2) (buf ! 3) (buf ! 4)), False))
        in if \<not> cached \<and> frame_len > CCID_MAX_MESSAGE_LENGTH + 10
           then (Err (IoError InvalidData_Kind
                   (''CCID frame length '' @ fmt_nat frame_len @ '' exceeds configured maximum'')),
                 update_state (t\<lparr>pending_out_buffer := [], next_frame_len := None\<rparr>))
           else
             let t1 = t\<lparr>next_frame_len := Some frame_len\<rparr>
             in if length buf < frame_len then (Ok None, update_state t1)
                else (Ok (Some (take frame_len buf)),
                      update_state (t1\<lparr>next_frame_len := None,
                                      pending_out_buffer := drop frame_len buf\<rparr>)))"

text \<open>The body of the loop after a frame is decoded.\<close>

definition process_command ::
  "'r nfc_reader \<Rightarrow> ccid_command \<Rightarrow> 'r transport \<Rightarrow> (unit, io_error) result \<times> 'r transport" where
  "process_command rd cmd t =
     (case control_abort t of
        Some (slot, seq) \<Rightarrow>
          if cmd = Abort slot seq then finish_abort rd slot seq t
          else queue_aborted_response cmd t
      | None \<Rightarrow>
          let t1 = t\<lparr>bulk_abort := None\<rparr>
          in case cmd of
               Abort slot seq \<Rightarrow> (Ok (), t1\<lparr>bulk_abort := Some seq\<rparr>)
             | _ \<Rightarrow>
                 if poisoned t1 then (Err lock_poisoned_error, t1)
                 else
                   case handle_command rd cmd (bridge t1) of
                     (None, b) \<Rightarrow> (Err Panicked, t1\<lparr>bridge := b, poisoned := True\<rparr>)
                   | (Some response, b) \<Rightarrow>
                       (Ok (), enqueue_response response (card_present b) (t1\<lparr>bridge := b\<rparr>)))"

definition process_frame ::
  "'r nfc_reader \<Rightarrow> byte list \<Rightarrow> 'r transport \<Rightarrow> (unit, io_error) result \<times> 'r transport" where
  "process_frame rd frame t =
     (case decode frame of
        Err error \<Rightarrow> (Err (IoError InvalidData_Kind (protocol_error_display error)), t)
      | Ok cmd \<Rightarrow> process_command rd cmd t)"

subsection \<open>Termination of the frame loop\<close>

lemma update_state_fields [simp]:
  "bridge (update_state t) = bridge t"
  "poisoned (update_state t) = poisoned t"
  "pending_in_frames (update_state t) = pending_in_frames t"
  "pending_interrupt_frames (update_state t) = pending_interrupt_frames t"
  "pending_out_buffer (update_state t) = pending_out_buffer t"
  "slot_present (update_state t) = slot_present t"
  "bulk_abort (update_state t) = bulk_abort t"
  "control_abort (update_state t) = control_abort t"
  by (simp_all add: update_state_def)

lemma update_slot_presence_fields [simp]:
  "bridge (update_slot_presence p t) = bridge t"
  "poisoned (update_slot_presence p t) = poisoned t"
  "pending_in_frames (update_slot_presence p t) = pending_in_frames t"
  "pending_out_buffer (update_slot_presence p t) = pending_out_buffer t"
  "next_frame_len (update_slot_presence p t) = next_frame_len t"
  "slot_present (update_slot_presence p t) = p"
  "bulk_abort (update_slot_presence p t) = bulk_abort t"
  "control_abort (update_slot_presence p t) = control_abort t"
  by (simp_all add: update_slot_presence_def push_interrupt_def)

lemma push_in_frame_fields [simp]:
  "bridge (push_in_frame f t) = bridge t"
  "poisoned (push_in_frame f t) = poisoned t"
  "pending_interrupt_frames (push_in_frame f t) = pending_interrupt_frames t"
  "pending_out_buffer (push_in_frame f t) = pending_out_buffer t"
  "next_frame_len (push_in_frame f t) = next_frame_len t"
  "slot_present (push_in_frame f t) = slot_present t"
  "bulk_abort (push_in_frame f t) = bulk_abort t"
  "control_abort (push_in_frame f t) = control_abort t"
  by (simp_all add: push_in_frame_def Let_def)

lemma enqueue_response_fields [simp]:
  "bridge (enqueue_response r p t) = bridge t"
  "poisoned (enqueue_response r p t) = poisoned t"
  "pending_out_buffer (enqueue_response r p t) = pending_out_buffer t"
  "slot_present (enqueue_response r p t) = p"
  "bulk_abort (enqueue_response r p t) = bulk_abort t"
  "control_abort (enqueue_response r p t) = control_abort t"
  by (simp_all add: enqueue_response_def)

lemma process_command_buffer:
  "process_command rd cmd t = (res, t') \<Longrightarrow>
     pending_out_buffer t' = pending_out_buffer t \<or> pending_out_buffer t' = []"
  by (auto simp: process_command_def finish_abort_def queue_aborted_response_def Let_def
      split: option.splits if_splits prod.splits ccid_command.splits)

lemma process_frame_buffer:
  "process_frame rd frame t = (Ok u, t') \<Longrightarrow>
     10 \<le> length frame \<and> length (pending_out_buffer t') \<le> length (pending_out_buffer t)"
  by (auto simp: process_frame_def split: sum.splits dest: decode_Ok_length process_command_buffer)

lemma try_take_buffer:
  "try_take_complete_frame t = (Ok (Some frame), t') \<Longrightarrow>
     length (pending_out_buffer t) = length frame + length (pending_out_buffer t')"
  by (auto simp: try_take_complete_frame_def Let_def split: if_splits option.splits)

function process_frames ::
  "'r nfc_reader \<Rightarrow> 'r transport \<Rightarrow> (unit, io_error) result \<times> 'r transport" where
  "process_frames rd t =
     (case try_take_complete_frame t of
        (Err e, t1) \<Rightarrow> (Err e, t1)
      | (Ok None, t1) \<Rightarrow> (Ok (), t1)
      | (Ok (Some frame), t1) \<Rightarrow>
          (case process_frame rd frame t1 of
             (Err e, t2) \<Rightarrow> (Err e, t2)
           | (Ok _, t2) \<Rightarrow> process_frames rd t2))"
  by pat_completeness auto
termination
  by (relation "measure (\<lambda>(rd, t). length (pending_out_buffer t))")
    (auto dest!: try_take_buffer [OF sym] process_frame_buffer [OF sym])

declare process_frames.simps [simp del]

definition handle_bulk_out ::
  "'r nfc_reader \<Rightarrow> byte list \<Rightarrow> 'r transport \<Rightarrow> (unit, io_error) result \<times> 'r transport" where
  "handle_bulk_out rd payload t =
     process_frames rd
       (update_state (t\<lparr>pending_out_buffer := pending_out_buffer t @ payload\<rparr>))"

subsection \<open>Bulk IN, interrupt IN and control requests\<close>

definition handle_bulk_in :: "nat \<Rightarrow> 'r transport \<Rightarrow> byte list \<times> 'r transport" where
  "handle_bulk_in max_len t =
     (case pending_in_frames t of
        [] \<Rightarrow> ([], update_state t)
      | frame # rest \<Rightarrow>
          if length frame \<le> max_len then
            let q = (if max_len \<noteq> 0 \<and> frame \<noteq> [] \<and> length frame mod max_len = 0
                     then [] # rest else rest)
            in (frame, update_state (t\<lparr>pending_in_frames := q\<rparr>))
          else
            (take max_len frame,
             update_state (t\<lparr>pending_in_frames := drop max_len frame # rest\<rparr>)))"

definition pop_interrupt :: "'r transport \<Rightarrow> byte list \<times> 'r transport" where
  "pop_interrupt t =
     (case pending_interrupt_frames t of
        [] \<Rightarrow> ([], t)
      | f # fs \<Rightarrow> (f, t\<lparr>pending_interrupt_frames := fs\<rparr>))"

definition handle_interrupt_in :: "'r nfc_reader \<Rightarrow> 'r transport \<Rightarrow> byte list \<times> 'r transport" where
  "handle_interrupt_in rd t =
     (if poisoned t then pop_interrupt t
      else
        let (presence, b) = refresh_card_presence rd (bridge t);
            t1 = t\<lparr>bridge := b\<rparr>;
            t2 = (case presence of Ok present \<Rightarrow> update_slot_presence present t1
                  | Err error \<Rightarrow> t1)
        in pop_interrupt t2)"

definition handle_control_request ::
  "'r nfc_reader \<Rightarrow> byte \<Rightarrow> byte \<Rightarrow> u16 \<Rightarrow> 'r transport \<Rightarrow>
     (byte list, io_error) result \<times> 'r transport" where
  "handle_control_request rd request_type request val t =
     (if request_type = 0xa1 \<and> request = CCID_GET_CLOCK_FREQUENCIES
        then (Ok CCID_CLOCK_FREQUENCY_KHZ, t)
      else if request_type = 0xa1 \<and> request = CCID_GET_DATA_RATES then (Ok CCID_DATA_RATE_BPS, t)
      else if request_type = 0x21 \<and> request = CCID_ABORT then
        let bytes = u16_to_le val; slot = bytes ! 0; seq = bytes ! 1
        in (Ok [], expect_abort rd slot seq t)
      else (Err (IoError Unsupported_Kind
              (''unsupported CCID control request type=0x'' @ fmt_02x request_type @
               '' request=0x'' @ fmt_02x request)), t))"

subsection \<open>The transport's invariant\<close>

text \<open>
  \<open>queues_inv\<close>: the response queue is bounded, and every notification is a two-byte slot-change
  message. \<open>framing_inv\<close>: a cached frame length is the one the buffered header announces, and it is
  within the maximum. \<open>tstate_inv\<close>: the recorded state is the one the two buffers call for.
\<close>

definition queues_inv :: "'r transport \<Rightarrow> bool" where
  "queues_inv t \<longleftrightarrow> length (pending_in_frames t) \<le> MAX_PENDING_IN_FRAMES
     \<and> set (pending_interrupt_frames t) \<subseteq> {[0x50, 0], [0x50, 1], [0x50, 2], [0x50, 3]}"

definition framing_inv :: "'r transport \<Rightarrow> bool" where
  "framing_inv t \<longleftrightarrow>
     (\<forall>n. next_frame_len t = Some n \<longrightarrow>
        10 \<le> length (pending_out_buffer t) \<and> n = 10 + frame_payload_len (pending_out_buffer t)
        \<and> n \<le> CCID_MAX_MESSAGE_LENGTH + 10)"

definition tstate_inv :: "'r transport \<Rightarrow> bool" where
  "tstate_inv t \<longleftrightarrow>
     tstate t = (if pending_in_frames t \<noteq> [] then ReadyToSend
                 else if pending_out_buffer t = [] then Idle else Receiving)"

definition abort_inv :: "'r transport \<Rightarrow> bool" where
  "abort_inv t \<longleftrightarrow> (\<forall>slot seq. control_abort t = Some (slot, seq) \<longrightarrow> slot = 0)"

definition frame_complete :: "byte list \<Rightarrow> bool" where
  "frame_complete buf \<longleftrightarrow> 10 \<le> length buf \<and> 10 + frame_payload_len buf \<le> length buf"

definition frame_oversize :: "byte list \<Rightarrow> bool" where
  "frame_oversize buf \<longleftrightarrow>
     10 \<le> length buf \<and> CCID_MAX_MESSAGE_LENGTH < frame_payload_len buf"

definition core_inv :: "'r transport \<Rightarrow> bool" where
  "core_inv t \<longleftrightarrow> queues_inv t \<and> framing_inv t \<and> abort_inv t \<and> bridge_inv (bridge t)"

definition transport_inv :: "'r transport \<Rightarrow> bool" where
  "transport_inv t \<longleftrightarrow> core_inv t \<and> (\<not> poisoned t \<longrightarrow> tstate_inv t)"

lemmas transport_inv_defs =
  transport_inv_def core_inv_def queues_inv_def framing_inv_def tstate_inv_def abort_inv_def

lemma transport_inv_new: "bridge_inv b \<Longrightarrow> transport_inv (new_transport b)"
  by (simp add: transport_inv_defs new_transport_def)

lemma tstate_inv_update_state [simp]: "tstate_inv (update_state t)"
  by (simp add: tstate_inv_def update_state_def)

lemma framing_inv_update_state: "framing_inv t \<Longrightarrow> framing_inv (update_state t)"
  by (auto simp: framing_inv_def update_state_def)

lemma frame_payload_len_append:
  "10 \<le> length buf \<Longrightarrow> frame_payload_len (buf @ xs) = frame_payload_len buf"
  by (auto simp: frame_payload_len_def nth_append)

lemma framing_inv_append:
  "framing_inv t \<Longrightarrow>
     framing_inv (t\<lparr>pending_out_buffer := pending_out_buffer t @ payload\<rparr>)"
  by (auto simp: framing_inv_def frame_payload_len_append)

lemma queues_inv_push_in_frame [inv_intros]:
  "queues_inv t \<Longrightarrow> queues_inv (push_in_frame f t)"
  by (auto simp: queues_inv_def push_in_frame_def Let_def MAX_PENDING_IN_FRAMES_def)

lemma queues_inv_update_slot_presence [inv_intros]:
  "queues_inv t \<Longrightarrow> queues_inv (update_slot_presence p t)"
  by (auto simp: queues_inv_def update_slot_presence_def push_interrupt_def
      CCID_NOTIFY_SLOT_CHANGE_def)

lemmas queue_steps = queues_inv_push_in_frame queues_inv_update_slot_presence

lemma queues_inv_update_state [simp]: "queues_inv (update_state t) = queues_inv t"
  by (simp add: queues_inv_def)

lemma abort_inv_simps [simp]:
  "abort_inv (update_state t) = abort_inv t"
  "abort_inv (update_slot_presence p t) = abort_inv t"
  "abort_inv (push_in_frame f t) = abort_inv t"
  by (simp_all add: abort_inv_def)

lemma framing_inv_simps [simp]:
  "framing_inv (update_slot_presence p t) = framing_inv t"
  "framing_inv (push_in_frame f t) = framing_inv t"
  by (simp_all add: framing_inv_def)

lemma core_inv_update_state: "core_inv t \<Longrightarrow> core_inv (update_state t)"
  by (simp add: core_inv_def framing_inv_update_state)

lemma transport_inv_update_state: "core_inv t \<Longrightarrow> transport_inv (update_state t)"
  by (simp add: transport_inv_def core_inv_update_state)

lemma transport_inv_enqueue_response [inv_intros]:
  "core_inv t \<Longrightarrow> transport_inv (enqueue_response r p t)"
  unfolding enqueue_response_def
  by (rule transport_inv_update_state) (simp add: core_inv_def queue_steps)

lemma core_inv_cleared:
  "core_inv t \<Longrightarrow> core_inv (t\<lparr>bulk_abort := None, control_abort := None,
     pending_out_buffer := [], next_frame_len := None, pending_in_frames := []\<rparr>)"
  by (simp add: core_inv_def queues_inv_def framing_inv_def abort_inv_def)

lemma core_inv_bridge:
  "core_inv t \<Longrightarrow> bridge_inv b \<Longrightarrow> core_inv (t\<lparr>bridge := b\<rparr>)"
  by (simp add: core_inv_def queues_inv_def framing_inv_def abort_inv_def)

lemma core_inv_poisoned: "core_inv (t\<lparr>poisoned := x\<rparr>) = core_inv t"
  by (simp add: core_inv_def queues_inv_def framing_inv_def abort_inv_def)

lemma core_inv_bulk_abort: "core_inv (t\<lparr>bulk_abort := x\<rparr>) = core_inv t"
  by (simp add: core_inv_def queues_inv_def framing_inv_def abort_inv_def)

lemma tstate_inv_bulk_abort: "tstate_inv (t\<lparr>bulk_abort := x\<rparr>) = tstate_inv t"
  by (simp add: tstate_inv_def)

lemma transport_inv_finish_abort [inv_intros]:
  assumes "core_inv t" "finish_abort rd slot seq t = (res, t')"
  shows "transport_inv t'"
proof -
  note core = core_inv_cleared [OF assms(1)]
  have "bridge_inv (bridge t)"
    using assms(1) by (simp add: core_inv_def)
  show ?thesis
  proof (cases "poisoned t")
    case True
    with assms core show ?thesis
      by (auto simp: finish_abort_def transport_inv_def Let_def)
  next
    case False
    with assms core show ?thesis
      by (auto simp: finish_abort_def Let_def intro!: transport_inv_enqueue_response)
  qed
qed

lemma transport_inv_queue_aborted [inv_intros]:
  assumes "transport_inv t" "queue_aborted_response cmd t = (res, t')"
  shows "transport_inv t'"
  using assms
  by (auto simp: queue_aborted_response_def Let_def transport_inv_def core_inv_def queue_steps
      intro!: framing_inv_update_state split: if_splits)

lemma transport_inv_expect_abort [inv_intros]:
  assumes "transport_inv t"
  shows "transport_inv (expect_abort rd slot seq t)"
proof -
  have "transport_inv (snd (finish_abort rd slot seq t))"
    using assms transport_inv_finish_abort [of t rd slot seq]
    by (metis prod.collapse transport_inv_def)
  with assms show ?thesis
    by (auto simp: expect_abort_def transport_inv_defs)
qed

definition is_abort :: "ccid_command \<Rightarrow> bool" where
  "is_abort c = (case c of Abort _ _ \<Rightarrow> True | _ \<Rightarrow> False)"

lemma process_command_plain:
  assumes "control_abort t = None" "\<not> poisoned t" "\<not> is_abort c"
  shows "process_command rd c t = (case handle_command rd c (bridge t) of
      (None, b) \<Rightarrow> (Err Panicked, t\<lparr>bulk_abort := None, bridge := b, poisoned := True\<rparr>)
    | (Some resp, b) \<Rightarrow>
        (Ok (), enqueue_response resp (card_present b) (t\<lparr>bulk_abort := None, bridge := b\<rparr>)))"
  using assms
  by (cases c) (simp_all add: process_command_def is_abort_def Let_def del: handle_command.simps)

lemma transport_inv_process_command [inv_intros]:
  assumes inv: "transport_inv t" and step: "process_command rd cmd t = (res, t')"
  shows "transport_inv t'"
proof (cases "control_abort t")
  case (Some a)
  then show ?thesis
    using step inv transport_inv_finish_abort [of t rd] transport_inv_queue_aborted [of t cmd]
    by (cases a) (auto simp: process_command_def transport_inv_def split: if_splits)
next
  case None
  obtain resp b where handle: "handle_command rd cmd (bridge t) = (resp, b)"
    by (cases "handle_command rd cmd (bridge t)")
  have core: "core_inv (t\<lparr>bulk_abort := None, bridge := b\<rparr>)"
    using inv bridge_inv_handle_command [OF _ handle]
    by (simp add: transport_inv_def core_inv_bridge core_inv_bulk_abort core_inv_def [of t])
  have same: "transport_inv (t\<lparr>bulk_abort := x\<rparr>)" for x
    using inv by (simp add: transport_inv_def core_inv_bulk_abort tstate_inv_bulk_abort)
  show ?thesis
  proof (cases "poisoned t \<or> is_abort cmd")
    case True
    then show ?thesis
      using step None same
      by (cases cmd) (auto simp: process_command_def is_abort_def Let_def)
  next
    case False
    then show ?thesis
      using step core process_command_plain [OF None, of cmd rd] handle
      by (cases resp)
        (auto simp: transport_inv_def [of "t\<lparr>bulk_abort := _, bridge := _, poisoned := _\<rparr>"]
          core_inv_poisoned intro: transport_inv_enqueue_response)
  qed
qed

subsection \<open>Taking one frame\<close>

text \<open>
  Under the framing invariant the cached length agrees with the header, so \<open>try_take_complete_frame\<close>
  depends on the buffer alone: \<open>take_result\<close> is its result as a function of the buffer.
\<close>

lemmas try_take_folded =
  try_take_complete_frame_def [folded frame_payload_len_def, unfolded Let_def]

definition oversize_error :: "byte list \<Rightarrow> io_error" where
  "oversize_error buf = IoError InvalidData_Kind
     (''CCID frame length '' @ fmt_nat (10 + frame_payload_len buf) @
      '' exceeds configured maximum'')"

lemma try_take_short:
  "length (pending_out_buffer t) < 10 \<Longrightarrow>
     try_take_complete_frame t = (Ok None, update_state (t\<lparr>next_frame_len := None\<rparr>))"
  by (simp add: try_take_complete_frame_def)

lemma clear_swap:
  "t\<lparr>pending_out_buffer := x, next_frame_len := n\<rparr>
     = t\<lparr>next_frame_len := n, pending_out_buffer := x\<rparr>"
  by (cases t) simp

lemma try_take_oversize:
  "framing_inv t \<Longrightarrow> frame_oversize (pending_out_buffer t) \<Longrightarrow>
     try_take_complete_frame t = (Err (oversize_error (pending_out_buffer t)),
       update_state (t\<lparr>next_frame_len := None, pending_out_buffer := []\<rparr>))"
  unfolding try_take_complete_frame_def Let_def clear_swap
  by (cases "next_frame_len t")
    (auto simp: frame_oversize_def framing_inv_def oversize_error_def frame_payload_len_def)

lemma try_take_complete:
  "framing_inv t \<Longrightarrow> frame_complete (pending_out_buffer t) \<Longrightarrow>
   \<not> frame_oversize (pending_out_buffer t) \<Longrightarrow>
     try_take_complete_frame t =
       (Ok (Some (take (10 + frame_payload_len (pending_out_buffer t)) (pending_out_buffer t))),
        update_state (t\<lparr>next_frame_len := None, pending_out_buffer :=
          drop (10 + frame_payload_len (pending_out_buffer t)) (pending_out_buffer t)\<rparr>))"
  unfolding try_take_complete_frame_def Let_def
  by (cases "next_frame_len t")
    (auto simp: frame_complete_def frame_oversize_def framing_inv_def frame_payload_len_def)

lemma try_take_incomplete:
  "framing_inv t \<Longrightarrow> 10 \<le> length (pending_out_buffer t) \<Longrightarrow>
   \<not> frame_complete (pending_out_buffer t) \<Longrightarrow> \<not> frame_oversize (pending_out_buffer t) \<Longrightarrow>
     try_take_complete_frame t =
       (Ok None, update_state (t\<lparr>next_frame_len :=
          Some (10 + frame_payload_len (pending_out_buffer t))\<rparr>))"
  unfolding try_take_complete_frame_def Let_def
  by (cases "next_frame_len t")
    (auto simp: frame_complete_def frame_oversize_def framing_inv_def frame_payload_len_def)

lemma take_cases [case_names short oversize complete incomplete]:
  assumes "length buf < 10 \<Longrightarrow> P"
    and "frame_oversize buf \<Longrightarrow> P"
    and "frame_complete buf \<Longrightarrow> \<not> frame_oversize buf \<Longrightarrow> P"
    and "10 \<le> length buf \<Longrightarrow> \<not> frame_complete buf \<Longrightarrow> \<not> frame_oversize buf \<Longrightarrow> P"
  shows P
  using assms by (cases "length buf < 10") (auto simp: not_less)

lemma try_take_inv:
  assumes inv: "transport_inv t" and take: "try_take_complete_frame t = (res, t')"
  shows "transport_inv t'"
proof -
  have framing: "framing_inv t" using inv by (simp add: transport_inv_def core_inv_def)
  have step: "transport_inv (update_state (t\<lparr>next_frame_len := n, pending_out_buffer := buf\<rparr>))"
    if "framing_inv (t\<lparr>next_frame_len := n, pending_out_buffer := buf\<rparr>)" for n buf
    using inv that
    by (intro transport_inv_update_state) (simp add: transport_inv_defs)
  show ?thesis
  proof (cases rule: take_cases [of "pending_out_buffer t"])
    case short
    with take step [where n = None and buf = "pending_out_buffer t"] show ?thesis
      by (simp add: try_take_short framing_inv_def)
  next
    case oversize
    with take step [where n = None and buf = "[]"] show ?thesis
      by (auto simp: try_take_oversize [OF framing] framing_inv_def)
  next
    case complete
    with take step [where n = None
        and buf = "drop (10 + frame_payload_len (pending_out_buffer t)) (pending_out_buffer t)"]
    show ?thesis
      by (simp add: try_take_complete [OF framing] framing_inv_def)
  next
    case incomplete
    with take step [where n = "Some (10 + frame_payload_len (pending_out_buffer t))"
        and buf = "pending_out_buffer t"]
    show ?thesis
      by (simp add: try_take_incomplete [OF framing] framing_inv_def frame_oversize_def)
  qed
qed

lemma complete_frame_decodes:
  assumes "frame_complete buf"
  shows "\<exists>cmd. decode (take (10 + frame_payload_len buf) buf) = Ok cmd"
proof -
  have "frame_payload_len (take (10 + frame_payload_len buf) buf) = frame_payload_len buf"
    by (simp add: frame_payload_len_def)
  then show ?thesis
    using assms by (simp add: decode_Ok_iff frame_complete_def)
qed

lemma transport_inv_process_frame [inv_intros]:
  "transport_inv t \<Longrightarrow> process_frame rd frame t = (res, t') \<Longrightarrow> transport_inv t'"
  by (auto simp: process_frame_def split: sum.splits dest: transport_inv_process_command)

subsection \<open>The frame loop\<close>

lemma transport_inv_process_frames [inv_intros]:
  "transport_inv t \<Longrightarrow> process_frames rd t = (res, t') \<Longrightarrow> transport_inv t'"
proof (induction rd t rule: process_frames.induct)
  case (1 rd t)
  obtain r t1 where take: "try_take_complete_frame t = (r, t1)" by fastforce
  have inv1: "transport_inv t1" using try_take_inv [OF "1.prems"(1) take] .
  show ?case
  proof (cases r)
    case (Inr fo)
    show ?thesis
    proof (cases fo)
      case (Some frame)
      obtain r2 t2 where step: "process_frame rd frame t1 = (r2, t2)" by fastforce
      have "transport_inv t2" using transport_inv_process_frame [OF inv1 step] .
      then show ?thesis
        using "1.prems"(2) "1.IH" [OF take [symmetric] Inr Some step [symmetric]]
        by (cases r2) (auto simp: process_frames.simps [of rd t] take Inr Some step)
    qed (use "1.prems"(2) inv1 in \<open>auto simp: process_frames.simps [of rd t] take Inr\<close>)
  qed (use "1.prems"(2) inv1 in \<open>auto simp: process_frames.simps [of rd t] take\<close>)
qed

lemma transport_inv_handle_bulk_out [inv_intros]:
  assumes "transport_inv t" "handle_bulk_out rd payload t = (res, t')"
  shows "transport_inv t'"
proof -
  have "core_inv (t\<lparr>pending_out_buffer := pending_out_buffer t @ payload\<rparr>)"
    using assms(1) framing_inv_append [of t payload]
    by (simp add: transport_inv_def core_inv_def queues_inv_def abort_inv_def)
  then show ?thesis
    using assms(2) transport_inv_process_frames transport_inv_update_state
    unfolding handle_bulk_out_def by blast
qed

lemma transport_inv_handle_bulk_in [inv_intros]:
  assumes "transport_inv t" "handle_bulk_in n t = (chunk, t')"
  shows "transport_inv t'"
proof -
  have "core_inv (t\<lparr>pending_in_frames := q\<rparr>)"
    if "length q \<le> MAX_PENDING_IN_FRAMES" for q
    using assms(1) that by (simp add: transport_inv_defs)
  moreover have "length (pending_in_frames t) \<le> MAX_PENDING_IN_FRAMES"
    using assms(1) by (simp add: transport_inv_defs)
  ultimately show ?thesis
    using assms
    by (cases "pending_in_frames t")
      (auto simp: handle_bulk_in_def Let_def transport_inv_def [of t]
        intro!: transport_inv_update_state split: if_splits)
qed

lemma transport_inv_pop_interrupt:
  "transport_inv t \<Longrightarrow> pop_interrupt t = (f, t') \<Longrightarrow> transport_inv t'"
  by (cases "pending_interrupt_frames t")
    (auto simp: pop_interrupt_def transport_inv_defs)

lemma transport_inv_update_slot_presence:
  "transport_inv t \<Longrightarrow> transport_inv (update_slot_presence p t)"
  by (auto simp: transport_inv_def core_inv_def queue_steps tstate_inv_def)
    (simp_all add: update_slot_presence_def push_interrupt_def)

lemma transport_inv_handle_interrupt_in [inv_intros]:
  assumes "transport_inv t" "handle_interrupt_in rd t = (f, t')"
  shows "transport_inv t'"
proof -
  obtain presence b where refresh: "refresh_card_presence rd (bridge t) = (presence, b)"
    by fastforce
  have "transport_inv (t\<lparr>bridge := b\<rparr>)"
    using assms(1) bridge_inv_refresh [OF _ refresh]
    by (simp add: transport_inv_def core_inv_bridge core_inv_def [of t] tstate_inv_def)
  then show ?thesis
    using assms refresh transport_inv_pop_interrupt transport_inv_update_slot_presence
    by (fastforce simp: handle_interrupt_in_def Let_def split: if_splits sum.splits)
qed

lemma transport_inv_handle_control_request [inv_intros]:
  "transport_inv t \<Longrightarrow> handle_control_request rd rt rq v t = (res, t') \<Longrightarrow> transport_inv t'"
  by (auto simp: handle_control_request_def Let_def transport_inv_expect_abort split: if_splits)

subsection \<open>What a bulk OUT transfer can end in\<close>

text \<open>With a sound lock a command is done, or it panics and poisons the lock.\<close>

lemma process_command_outcome:
  assumes "\<not> poisoned t" "process_command rd cmd t = (res, t')"
  obtains (finished) "res = Ok ()" "\<not> poisoned t'"
  | (panics) "res = Err Panicked" "poisoned t'" "overruns_select cmd"
      "pending_out_buffer t' = pending_out_buffer t"
proof (cases "control_abort t = None \<and> \<not> is_abort cmd")
  case True
  obtain resp b where handle: "handle_command rd cmd (bridge t) = (resp, b)"
    by (cases "handle_command rd cmd (bridge t)")
  show ?thesis
    using that assms True handle process_command_plain [of t cmd rd]
    by (cases resp) (auto dest: handle_command_panics)
next
  case False
  then show ?thesis
    using that(1) assms
    by (auto simp: process_command_def is_abort_def finish_abort_def queue_aborted_response_def Let_def
        split: option.splits if_splits prod.splits ccid_command.splits)
qed

lemma process_command_Ok:
  assumes "\<not> poisoned t" "\<not> overruns_select cmd"
  shows "\<exists>t'. process_command rd cmd t = (Ok (), t') \<and> \<not> poisoned t'"
proof (cases "process_command rd cmd t")
  case (Pair res t')
  from assms(1) this show ?thesis
    by (cases rule: process_command_outcome) (use Pair assms(2) in auto)
qed

lemma process_frames_step:
  assumes "transport_inv t" "\<not> poisoned t" "frame_complete (pending_out_buffer t)"
    and "\<not> frame_oversize (pending_out_buffer t)"
  obtains (finished) frame t1 t2 where "try_take_complete_frame t = (Ok (Some frame), t1)"
    and "process_frame rd frame t1 = (Ok (), t2)"
    and "process_frames rd t = process_frames rd t2"
    and "transport_inv t2" "\<not> poisoned t2"
    and "frame = take (10 + frame_payload_len (pending_out_buffer t)) (pending_out_buffer t)"
    and "t1 = update_state (t\<lparr>next_frame_len := None, pending_out_buffer :=
          drop (10 + frame_payload_len (pending_out_buffer t)) (pending_out_buffer t)\<rparr>)"
  | (panics) frame cmd t2 where "process_frames rd t = (Err Panicked, t2)" "poisoned t2"
    and "decode frame = Ok cmd" "overruns_select cmd"
    and "pending_out_buffer t = frame @ pending_out_buffer t2"
proof -
  have framing: "framing_inv t" using assms(1) by (simp add: transport_inv_def core_inv_def)
  define frame where
    "frame = take (10 + frame_payload_len (pending_out_buffer t)) (pending_out_buffer t)"
  define t1 where "t1 = update_state (t\<lparr>next_frame_len := None, pending_out_buffer :=
          drop (10 + frame_payload_len (pending_out_buffer t)) (pending_out_buffer t)\<rparr>)"
  have take: "try_take_complete_frame t = (Ok (Some frame), t1)"
    using try_take_complete [OF framing assms(3,4)] by (simp add: frame_def t1_def)
  have sound: "\<not> poisoned t1" using assms(2) by (simp add: t1_def)
  obtain cmd where cmd: "decode frame = Ok cmd"
    unfolding frame_def using complete_frame_decodes [OF assms(3)] by blast
  obtain res t2 where step: "process_command rd cmd t1 = (res, t2)"
    by (cases "process_command rd cmd t1")
  then have frame: "process_frame rd frame t1 = (res, t2)"
    by (simp add: process_frame_def cmd)
  from sound step show ?thesis
  proof (cases rule: process_command_outcome)
    case finished
    have "process_frames rd t = process_frames rd t2"
      by (simp add: process_frames.simps [of rd t] take frame finished)
    moreover have "transport_inv t2"
      using transport_inv_process_frame [OF try_take_inv [OF assms(1) take] frame] .
    ultimately show ?thesis
      using that(1) take frame finished frame_def t1_def by blast
  next
    case panics
    have "process_frames rd t = (Err Panicked, t2)"
      by (simp add: process_frames.simps [of rd t] take frame panics)
    moreover have "pending_out_buffer t = frame @ pending_out_buffer t2"
      by (simp add: panics(4) t1_def frame_def)
    ultimately show ?thesis
      using that(2) panics(2,3) cmd by blast
  qed
qed

definition bulk_out_outcome :: "(unit, io_error) result \<Rightarrow> byte list \<Rightarrow> bool" where
  "bulk_out_outcome res buf \<longleftrightarrow>
     (res = Ok () \<and> \<not> frame_complete buf \<and> \<not> frame_oversize buf)
   \<or> (\<exists>over. frame_oversize over \<and> res = Err (oversize_error over) \<and> buf = [])"

text \<open>The bytes \<open>bs\<close> contain a frame that panics, and \<open>rest\<close> is what follows it.\<close>

definition panicking_frame :: "byte list \<Rightarrow> byte list \<Rightarrow> bool" where
  "panicking_frame bs rest \<longleftrightarrow>
     (\<exists>before frame cmd. bs = before @ frame @ rest \<and> decode frame = Ok cmd \<and> overruns_select cmd)"

definition process_outcome ::
  "(unit, io_error) result \<Rightarrow> byte list \<Rightarrow> 'r transport \<Rightarrow> bool" where
  "process_outcome res bs t' \<longleftrightarrow>
     (\<not> poisoned t' \<and> bulk_out_outcome res (pending_out_buffer t'))
   \<or> (poisoned t' \<and> res = Err Panicked \<and> panicking_frame bs (pending_out_buffer t'))"

lemma panicking_frame_append: "panicking_frame bs rest \<Longrightarrow> panicking_frame (frame @ bs) rest"
  unfolding panicking_frame_def by (metis append.assoc)

lemma panicking_frame_not_empty: "\<not> panicking_frame [] rest"
  by (auto simp: panicking_frame_def dest: decode_Ok_length)

lemma process_frame_buffer_eq:
  "process_frame rd frame t = (res, t') \<Longrightarrow>
     pending_out_buffer t' = pending_out_buffer t \<or> pending_out_buffer t' = []"
  by (auto simp: process_frame_def split: sum.splits dest: process_command_buffer)

lemma process_frames_outcome:
  "transport_inv t \<Longrightarrow> \<not> poisoned t \<Longrightarrow> process_frames rd t = (res, t') \<Longrightarrow>
     process_outcome res (pending_out_buffer t) t'"
proof (induction "length (pending_out_buffer t)" arbitrary: t rule: less_induct)
  case less
  have framing: "framing_inv t" using less.prems(1) by (simp add: transport_inv_def core_inv_def)
  show ?case
  proof (cases rule: take_cases [of "pending_out_buffer t"])
    case short
    with less.prems(2,3) show ?thesis
      by (auto simp: process_frames.simps [of rd t] try_take_short bulk_out_outcome_def
          process_outcome_def frame_complete_def frame_oversize_def)
  next
    case oversize
    with less.prems(2,3) show ?thesis
      by (auto simp: process_frames.simps [of rd t] try_take_oversize [OF framing]
          process_outcome_def bulk_out_outcome_def)
  next
    case complete
    from less.prems(1,2) complete show ?thesis
    proof (cases rule: process_frames_step [where rd = rd])
      case (finished frame t1 t2)
      have "length (pending_out_buffer t2) < length (pending_out_buffer t)"
        using try_take_buffer [OF finished(1)] process_frame_buffer [OF finished(2)] by simp
      then have out: "process_outcome res (pending_out_buffer t2) t'"
        using less.hyps finished(3-5) less.prems(3) by simp
      have "pending_out_buffer t = frame @ pending_out_buffer t1"
        by (simp add: finished(6,7))
      then have "panicking_frame (pending_out_buffer t2) rest \<Longrightarrow>
          panicking_frame (pending_out_buffer t) rest" for rest
        using process_frame_buffer_eq [OF finished(2)] panicking_frame_append panicking_frame_not_empty
        by auto
      then show ?thesis
        using out by (auto simp: process_outcome_def)
    next
      case (panics frame cmd t2)
      then have "panicking_frame (pending_out_buffer t) (pending_out_buffer t2)"
        unfolding panicking_frame_def by (metis append_Nil)
      then show ?thesis
        using panics(1,2) less.prems(3) by (simp add: process_outcome_def)
    qed
  next
    case incomplete
    with less.prems(2,3) show ?thesis
      by (auto simp: process_frames.simps [of rd t] try_take_incomplete [OF framing]
          process_outcome_def bulk_out_outcome_def)
  qed
qed

subsection \<open>Packet boundaries do not matter\<close>

text \<open>
  \<open>same_content\<close>: equal up to the cached frame length and the recorded state, which the next step
  recomputes.
\<close>

definition same_content :: "'r transport \<Rightarrow> 'r transport \<Rightarrow> bool" where
  "same_content t t' \<longleftrightarrow>
     t\<lparr>next_frame_len := None, tstate := Idle\<rparr> = t'\<lparr>next_frame_len := None, tstate := Idle\<rparr>"

lemma same_content_fields:
  assumes "same_content t t'"
  shows "bridge t' = bridge t" "poisoned t' = poisoned t"
    "pending_in_frames t' = pending_in_frames t"
    "pending_interrupt_frames t' = pending_interrupt_frames t"
    "pending_out_buffer t' = pending_out_buffer t" "slot_present t' = slot_present t"
    "bulk_abort t' = bulk_abort t" "control_abort t' = control_abort t"
  using assms by (cases t; cases t'; simp add: same_content_def)+

lemma same_content_refl [simp]: "same_content t t"
  by (simp add: same_content_def)

lemma same_content_trans: "same_content t u \<Longrightarrow> same_content u v \<Longrightarrow> same_content t v"
  by (simp add: same_content_def)

lemma same_content_sym: "same_content t u \<Longrightarrow> same_content u t"
  by (simp add: same_content_def)

lemma same_content_update_state [simp]: "same_content (update_state t) t"
  by (cases t) (simp add: same_content_def update_state_def)

lemma same_content_next: "same_content (t\<lparr>next_frame_len := n\<rparr>) t"
  by (cases t) (simp add: same_content_def)

lemma same_content_buffer:
  "same_content t t' \<Longrightarrow>
     same_content (t\<lparr>pending_out_buffer := x\<rparr>) (t'\<lparr>pending_out_buffer := x\<rparr>)"
  by (cases t; cases t') (simp add: same_content_def)

lemma update_state_same:
  assumes "same_content t t'"
  shows "update_state (t\<lparr>next_frame_len := n, pending_out_buffer := x\<rparr>)
       = update_state (t'\<lparr>next_frame_len := n, pending_out_buffer := x\<rparr>)"
  using assms by (cases t; cases t') (simp add: same_content_def update_state_def)

lemma update_state_same_next:
  assumes "same_content t t'"
  shows "update_state (t\<lparr>next_frame_len := n\<rparr>) = update_state (t'\<lparr>next_frame_len := n\<rparr>)"
  using assms by (cases t; cases t') (simp add: same_content_def update_state_def)

lemma try_take_same:
  assumes "framing_inv t" "framing_inv t'" "same_content t t'"
  shows "try_take_complete_frame t = try_take_complete_frame t'"
proof -
  note buf = same_content_fields(5) [OF assms(3)]
  show ?thesis
  proof (cases rule: take_cases [of "pending_out_buffer t"])
    case short
    then show ?thesis
      using buf update_state_same_next [OF assms(3)] by (simp add: try_take_short)
  next
    case oversize
    then show ?thesis
      using buf update_state_same [OF assms(3)]
      by (simp add: try_take_oversize [OF assms(1)] try_take_oversize [OF assms(2)])
  next
    case complete
    then show ?thesis
      using buf update_state_same [OF assms(3)]
      by (simp add: try_take_complete [OF assms(1)] try_take_complete [OF assms(2)])
  next
    case incomplete
    then show ?thesis
      using buf update_state_same_next [OF assms(3)]
      by (simp add: try_take_incomplete [OF assms(1)] try_take_incomplete [OF assms(2)])
  qed
qed

lemma process_frames_same:
  assumes "framing_inv t" "framing_inv t'" "same_content t t'"
  shows "process_frames rd t = process_frames rd t'"
  by (simp add: process_frames.simps [of rd t] process_frames.simps [of rd t']
      try_take_same [OF assms])

lemma enqueue_response_same:
  assumes "same_content t' (t\<lparr>pending_out_buffer := x\<rparr>)"
  shows "same_content (enqueue_response r p t')
           ((enqueue_response r p t)\<lparr>pending_out_buffer := x\<rparr>)"
  using assms
  by (cases t; cases t')
    (simp add: same_content_def enqueue_response_def update_state_def update_slot_presence_def
      push_interrupt_def push_in_frame_def Let_def)

lemma process_command_same:
  assumes same: "same_content t' (t\<lparr>pending_out_buffer := x\<rparr>)"
    and idle: "control_abort t = None" and step: "process_command rd cmd t = (Ok u, t2)"
  shows "\<exists>t2'. process_command rd cmd t' = (Ok u, t2')
      \<and> same_content t2' (t2\<lparr>pending_out_buffer := x\<rparr>)
      \<and> control_abort t2 = None \<and> pending_out_buffer t2 = pending_out_buffer t"
proof -
  note fields = same_content_fields [OF same]
  obtain resp b where handle: "handle_command rd cmd (bridge t) = (resp, b)"
    by fastforce
  have abort: "same_content (t'\<lparr>bulk_abort := a\<rparr>) (t\<lparr>bulk_abort := a, pending_out_buffer := x\<rparr>)"
    for a using same by (cases t; cases t') (simp add: same_content_def)
  have "same_content (t'\<lparr>bulk_abort := None, bridge := b\<rparr>)
      (t\<lparr>bulk_abort := None, bridge := b, pending_out_buffer := x\<rparr>)"
    using same by (cases t; cases t') (simp add: same_content_def)
  note enqueue = enqueue_response_same [OF this]
  show ?thesis
  proof (cases "is_abort cmd")
    case True
    then show ?thesis
      using step idle fields abort
      by (cases cmd) (auto simp: process_command_def is_abort_def Let_def)
  next
    case False
    have sound: "\<not> poisoned t"
      using step idle False by (cases cmd) (auto simp: process_command_def is_abort_def Let_def)
    note plain = process_command_plain [OF idle sound False, of rd]
    obtain r where "resp = Some r"
      using step plain handle by (cases resp) auto
    then show ?thesis
      using step idle fields handle enqueue [of r "card_present b"] plain sound
        process_command_plain [of t' cmd rd] False by auto
  qed
qed

lemma process_frame_same:
  assumes "same_content t' (t\<lparr>pending_out_buffer := x\<rparr>)"
    and "control_abort t = None" and "process_frame rd frame t = (Ok u, t2)"
  shows "\<exists>t2'. process_frame rd frame t' = (Ok u, t2')
      \<and> same_content t2' (t2\<lparr>pending_out_buffer := x\<rparr>)
      \<and> control_abort t2 = None \<and> pending_out_buffer t2 = pending_out_buffer t"
  using assms process_command_same [OF assms(1,2)]
  by (auto simp: process_frame_def split: sum.splits)

lemma framing_invD: "transport_inv t \<Longrightarrow> framing_inv t"
  by (simp add: transport_inv_def core_inv_def)

text \<open>Bytes that come after a stream, when the stream itself is accepted or refused.\<close>

lemma process_frames_append:
  "transport_inv t \<Longrightarrow> \<not> poisoned t \<Longrightarrow> control_abort t = None \<Longrightarrow>
   process_frames rd t = (res, t1) \<Longrightarrow> res \<noteq> Err Panicked \<Longrightarrow>
     process_frames rd (update_state (t\<lparr>pending_out_buffer := pending_out_buffer t @ xs\<rparr>))
       = (case res of
            Ok u \<Rightarrow> process_frames rd (update_state (t1\<lparr>pending_out_buffer := pending_out_buffer t1 @ xs\<rparr>))
          | Err e \<Rightarrow> (res, t1))"
proof (induction "length (pending_out_buffer t)" arbitrary: t rule: less_induct)
  case less
  let ?ext = "\<lambda>u :: 'a transport.
    update_state (u\<lparr>pending_out_buffer := pending_out_buffer u @ xs\<rparr>)"
  note framing = framing_invD [OF less.prems(1)]
  have ext_inv: "transport_inv (?ext u)" if "transport_inv u" for u
    using that framing_inv_append [OF framing_invD [OF that], of xs]
    by (intro transport_inv_update_state)
      (simp add: transport_inv_def core_inv_def queues_inv_def abort_inv_def)
  have waiting: ?case
    if t1: "t1 = update_state (t\<lparr>next_frame_len := n\<rparr>)" and res: "res = Ok ()" for n
  proof -
    have "process_frames rd (?ext t) = process_frames rd (?ext t1)"
    proof (rule process_frames_same)
      have "transport_inv t1"
        using transport_inv_process_frames [OF less.prems(1,4)] .
      then show "framing_inv (?ext t)" "framing_inv (?ext t1)"
        using less.prems(1) ext_inv framing_invD by blast+
      show "same_content (?ext t) (?ext t1)"
        unfolding t1 by (cases t) (simp add: same_content_def update_state_def)
    qed
    then show ?thesis by (simp add: res)
  qed
  show ?case
  proof (cases rule: take_cases [of "pending_out_buffer t"])
    case short
    with less.prems(4) show ?thesis
      by (intro waiting [of None]) (simp_all add: process_frames.simps [of rd t] try_take_short)
  next
    case oversize
    then have long: "frame_oversize (pending_out_buffer (?ext t))"
      and error: "oversize_error (pending_out_buffer (?ext t)) = oversize_error (pending_out_buffer t)"
      by (simp_all add: frame_oversize_def oversize_error_def frame_payload_len_append)
    have "update_state ((?ext t)\<lparr>next_frame_len := None, pending_out_buffer := []\<rparr>)
        = update_state (t\<lparr>next_frame_len := None, pending_out_buffer := []\<rparr>)"
      by (cases t) (simp add: update_state_def)
    then show ?thesis
      using less.prems(4) oversize error
        try_take_oversize [OF framing_invD [OF ext_inv [OF less.prems(1)]] long]
      by (auto simp: process_frames.simps [of rd t] process_frames.simps [of rd "?ext t"]
          try_take_oversize [OF framing])
  next
    case incomplete
    with less.prems(4) show ?thesis
      by (intro waiting [of "Some (10 + frame_payload_len (pending_out_buffer t))"])
        (simp_all add: process_frames.simps [of rd t] try_take_incomplete [OF framing])
  next
    case complete
    let ?n = "10 + frame_payload_len (pending_out_buffer t)"
    obtain frame ta t2 where step: "try_take_complete_frame t = (Ok (Some frame), ta)"
      "process_frame rd frame ta = (Ok (), t2)" "process_frames rd t = process_frames rd t2"
      "transport_inv t2" "\<not> poisoned t2" and frame: "frame = take ?n (pending_out_buffer t)"
      and ta: "ta = update_state (t\<lparr>next_frame_len := None,
                 pending_out_buffer := drop ?n (pending_out_buffer t)\<rparr>)"
      by (rule process_frames_step [OF less.prems(1,2) complete, where rd = rd])
        (use less.prems(4,5) in auto)
    have payload: "frame_payload_len (pending_out_buffer t @ xs)
        = frame_payload_len (pending_out_buffer t)" and n: "?n \<le> length (pending_out_buffer t)"
      using complete(1) by (simp_all add: frame_complete_def frame_payload_len_append)
    then have ext: "frame_complete (pending_out_buffer (?ext t))"
      "\<not> frame_oversize (pending_out_buffer (?ext t))"
      using complete by (simp_all add: frame_complete_def frame_oversize_def)
    let ?tb = "update_state ((?ext t)\<lparr>next_frame_len := None,
                 pending_out_buffer := drop ?n (pending_out_buffer t) @ xs\<rparr>)"
    have etake: "try_take_complete_frame (?ext t) = (Ok (Some frame), ?tb)"
      using try_take_complete [OF framing_invD [OF ext_inv [OF less.prems(1)]] ext] n
      by (simp add: payload frame)
    have same: "same_content ?tb (ta\<lparr>pending_out_buffer := pending_out_buffer ta @ xs\<rparr>)"
      unfolding ta by (cases t) (simp add: same_content_def update_state_def)
    have idle: "control_abort ta = None" using less.prems(3) by (simp add: ta)
    obtain t2' where t2': "process_frame rd frame ?tb = (Ok (), t2')"
      "same_content t2' (t2\<lparr>pending_out_buffer := pending_out_buffer ta @ xs\<rparr>)"
      "control_abort t2 = None" "pending_out_buffer t2 = pending_out_buffer ta"
      using process_frame_same [OF same idle step(2)] by blast
    have inv: "transport_inv t2'"
      using transport_inv_process_frame [OF try_take_inv [OF ext_inv [OF less.prems(1)] etake] t2'(1)] .
    have "same_content t2' (?ext t2)"
      using t2'(2,4) same_content_trans same_content_sym same_content_update_state by metis
    then have "process_frames rd t2' = process_frames rd (?ext t2)"
      using process_frames_same framing_invD inv ext_inv [OF step(4)] by blast
    moreover have "process_frames rd (?ext t) = process_frames rd t2'"
      by (simp add: process_frames.simps [of rd "?ext t"] etake t2'(1))
    moreover have "length (pending_out_buffer t2) < length (pending_out_buffer t)"
      using try_take_buffer [OF step(1)] process_frame_buffer [OF step(2)] by simp
    ultimately show ?thesis
      using less.hyps [OF _ step(4,5) t2'(3)] less.prems(4,5) step(3) by simp
  qed
qed

lemma handle_bulk_out_append:
  assumes "transport_inv t" "\<not> poisoned t" "control_abort t = None"
    and "handle_bulk_out rd xs t = (res, t1)" "res \<noteq> Err Panicked"
  shows "handle_bulk_out rd (xs @ ys) t =
    (case res of Ok u \<Rightarrow> handle_bulk_out rd ys t1 | Err e \<Rightarrow> (res, t1))"
proof -
  let ?u = "update_state (t\<lparr>pending_out_buffer := pending_out_buffer t @ xs\<rparr>)"
  have core: "core_inv (t\<lparr>pending_out_buffer := pending_out_buffer t @ zs\<rparr>)" for zs
    using assms(1) framing_inv_append [OF framing_invD [OF assms(1)], of zs]
    by (simp add: transport_inv_def core_inv_def queues_inv_def abort_inv_def)
  then have inv: "transport_inv ?u" by (rule transport_inv_update_state)
  have "process_frames rd (update_state (?u\<lparr>pending_out_buffer := pending_out_buffer ?u @ ys\<rparr>))
      = process_frames rd (update_state (t\<lparr>pending_out_buffer := pending_out_buffer t @ xs @ ys\<rparr>))"
  proof (rule process_frames_same)
    show "framing_inv (update_state (?u\<lparr>pending_out_buffer := pending_out_buffer ?u @ ys\<rparr>))"
      by (intro framing_inv_update_state framing_inv_append framing_invD inv)
    show "framing_inv (update_state (t\<lparr>pending_out_buffer := pending_out_buffer t @ xs @ ys\<rparr>))"
      using core [of "xs @ ys"] by (intro framing_inv_update_state) (simp add: core_inv_def)
    show "same_content (update_state (?u\<lparr>pending_out_buffer := pending_out_buffer ?u @ ys\<rparr>))
        (update_state (t\<lparr>pending_out_buffer := pending_out_buffer t @ xs @ ys\<rparr>))"
      by (cases t) (simp add: same_content_def update_state_def)
  qed
  then show ?thesis
    using process_frames_append [OF inv, of rd res t1 ys] assms(2-5)
    by (cases res) (simp_all add: handle_bulk_out_def)
qed

subsection \<open>Reading responses\<close>

text \<open>
  A USB host ends a bulk IN transfer at the first packet that is shorter than the maximum.
  \<open>read_transfer n\<close> is a whole transfer in packets of \<open>n\<close> bytes.
\<close>

definition in_bytes :: "'r transport \<Rightarrow> nat" where
  "in_bytes t = sum_list (map length (pending_in_frames t))"

lemma handle_bulk_in_bytes:
  "handle_bulk_in n t = (chunk, t') \<Longrightarrow> in_bytes t = length chunk + in_bytes t'"
  by (cases "pending_in_frames t")
    (auto simp: handle_bulk_in_def in_bytes_def Let_def split: if_splits)

function read_transfer :: "nat \<Rightarrow> 'r transport \<Rightarrow> byte list \<times> 'r transport" where
  "read_transfer n t =
     (let (chunk, t1) = handle_bulk_in n t
      in if n = 0 \<or> length chunk < n then (chunk, t1)
         else let (rest, t2) = read_transfer n t1 in (chunk @ rest, t2))"
  by pat_completeness auto
termination
  by (relation "measure (\<lambda>(n, t). in_bytes t)")
    (auto dest!: handle_bulk_in_bytes [OF sym])

declare read_transfer.simps [simp del]

lemma read_transfer_frame:
  "0 < n \<Longrightarrow> pending_in_frames t = f # fs \<Longrightarrow>
     read_transfer n t = (f, update_state (t\<lparr>pending_in_frames := fs\<rparr>))"
proof (induction "length f" arbitrary: f t rule: less_induct)
  case less
  have again: "update_state ((update_state (t\<lparr>pending_in_frames := q\<rparr>))\<lparr>pending_in_frames := fs\<rparr>)
      = update_state (t\<lparr>pending_in_frames := fs\<rparr>)" if "q \<noteq> []" for q
    using that by (cases t) (simp add: update_state_def)
  consider "length f < n" | "length f = n" | "n < length f" by linarith
  then show ?case
  proof cases
    case 1
    then have "handle_bulk_in n t = (f, update_state (t\<lparr>pending_in_frames := fs\<rparr>))"
      using less.prems by (auto simp: handle_bulk_in_def)
    then show ?thesis
      using 1 by (simp add: read_transfer.simps [of n t])
  next
    case 2
    let ?t1 = "update_state (t\<lparr>pending_in_frames := [] # fs\<rparr>)"
    have chunk: "handle_bulk_in n t = (f, ?t1)"
      using 2 less.prems by (auto simp: handle_bulk_in_def)
    have "read_transfer n ?t1 = ([], update_state (?t1\<lparr>pending_in_frames := fs\<rparr>))"
      using less.hyps [of "[]" ?t1] 2 less.prems(1) by simp
    then show ?thesis
      using 2 less.prems(1) again by (simp add: read_transfer.simps [of n t] chunk)
  next
    case 3
    let ?t1 = "update_state (t\<lparr>pending_in_frames := drop n f # fs\<rparr>)"
    have chunk: "handle_bulk_in n t = (take n f, ?t1)"
      using 3 less.prems by (auto simp: handle_bulk_in_def)
    have "read_transfer n ?t1 = (drop n f, update_state (?t1\<lparr>pending_in_frames := fs\<rparr>))"
      using less.hyps [of "drop n f" ?t1] 3 less.prems(1) by simp
    then show ?thesis
      using 3 less.prems(1) again by (simp add: read_transfer.simps [of n t] chunk)
  qed
qed

lemma handle_bulk_in_length: "handle_bulk_in n t = (chunk, t') \<Longrightarrow> length chunk \<le> n"
  by (auto simp: handle_bulk_in_def split: list.splits if_splits)

subsection \<open>Notifications\<close>

definition interrupts :: "'r transport \<Rightarrow> nat" where
  "interrupts t = length (pending_interrupt_frames t)"

text \<open>The notification of a slot whose presence was \<open>was\<close> and is \<open>now\<close>: the second bit tells of a change.\<close>

definition slot_note :: "bool \<Rightarrow> bool \<Rightarrow> byte list" where
  "slot_note was now = [0x50, (if now then 1 else 0) + (if was = now then 0 else 2)]"

lemma notes_update_slot_presence:
  "pending_interrupt_frames (update_slot_presence p t) =
     pending_interrupt_frames t @ [slot_note (slot_present t) p]"
  by (simp add: update_slot_presence_def push_interrupt_def slot_note_def CCID_NOTIFY_SLOT_CHANGE_def)

lemma notes_enqueue_response:
  "pending_interrupt_frames (enqueue_response r p t) =
     pending_interrupt_frames t @ [slot_note (slot_present t) p]"
  using notes_update_slot_presence [of p "push_in_frame (encode r) t"]
  by (simp add: enqueue_response_def)

lemma interrupts_update_slot_presence:
  "interrupts (update_slot_presence p t) = Suc (interrupts t)"
  by (simp add: interrupts_def notes_update_slot_presence)

lemma interrupts_enqueue_response:
  "interrupts (enqueue_response r p t) = Suc (interrupts t)"
  by (simp add: interrupts_def notes_enqueue_response)

lemma interrupt_in_not_shorter:
  assumes "\<not> poisoned t" "refresh_card_presence rd (bridge t) = (Ok present, b)"
  shows "interrupts (snd (handle_interrupt_in rd t)) = interrupts t"
proof -
  let ?t = "update_slot_presence present (t\<lparr>bridge := b\<rparr>)"
  have "interrupts ?t = Suc (interrupts t)"
    by (simp add: interrupts_update_slot_presence) (simp add: interrupts_def)
  then have "interrupts (snd (pop_interrupt ?t)) = interrupts t"
    by (cases "pending_interrupt_frames ?t") (auto simp: pop_interrupt_def interrupts_def)
  then show ?thesis
    using assms by (simp add: handle_interrupt_in_def)
qed

lemma interrupts_handle_interrupt_in:
  assumes "\<not> poisoned t"
  shows "interrupts (snd (handle_interrupt_in rd t)) =
    (case fst (refresh_card_presence rd (bridge t)) of
       Ok present \<Rightarrow> interrupts t
     | Err e \<Rightarrow> interrupts t - 1)"
proof (cases "refresh_card_presence rd (bridge t)")
  case (Pair res b)
  then show ?thesis
    using assms interrupt_in_not_shorter [OF assms, of rd _ b]
    by (cases res; cases "pending_interrupt_frames t")
      (auto simp: handle_interrupt_in_def pop_interrupt_def interrupts_def)
qed

subsection \<open>Frames and commands\<close>

text \<open>
  \<open>run_commands\<close> is the transport at the level of commands: no bytes, no framing. A stream of encoded
  commands, in any packets, has exactly this effect.
\<close>

definition run_commands :: "'r nfc_reader \<Rightarrow> ccid_command list \<Rightarrow> 'r transport \<Rightarrow> 'r transport" where
  "run_commands rd cs t = foldl (\<lambda>u c. snd (process_command rd c u)) t cs"

definition framed :: "ccid_command \<Rightarrow> bool" where
  "framed c \<longleftrightarrow> wf_command c \<and> length (command_payload c) \<le> CCID_MAX_MESSAGE_LENGTH"

text \<open>A sendable command has a frame, and does not carry the SELECT that makes the bridge panic.\<close>

definition sendable :: "ccid_command \<Rightarrow> bool" where
  "sendable c \<longleftrightarrow> framed c \<and> \<not> overruns_select c"

lemma sendable_iff:
  "sendable c \<longleftrightarrow> wf_command c \<and> length (command_payload c) \<le> CCID_MAX_MESSAGE_LENGTH
    \<and> \<not> overruns_select c"
  by (simp add: sendable_def framed_def)

lemma sendable_framed: "sendable c \<Longrightarrow> framed c"
  by (simp add: sendable_def)

lemma run_commands_simps [simp]:
  "run_commands rd [] t = t"
  "run_commands rd (c # cs) t = run_commands rd cs (snd (process_command rd c t))"
  by (simp_all add: run_commands_def)

lemma payload_len_encode_command:
  assumes "framed c"
  shows "frame_payload_len (encode_command c @ ys) = length (command_payload c)"
  using assms by (cases c) (simp_all add: framed_def CCID_MAX_MESSAGE_LENGTH_def)

lemma framed_frame:
  assumes "framed c"
  shows "frame_complete (encode_command c @ ys)" "\<not> frame_oversize (encode_command c @ ys)"
    "10 + frame_payload_len (encode_command c @ ys) = length (encode_command c)"
  using assms payload_len_encode_command [OF assms, of ys]
  by (simp_all add: frame_complete_def frame_oversize_def length_encode_command framed_def)

lemma process_encoded:
  "framed c \<Longrightarrow> process_frame rd (encode_command c) t = process_command rd c t"
  by (simp add: process_frame_def decode_encode_command framed_def)

lemma first_command_taken:
  assumes "transport_inv t" "framed c" "pending_out_buffer t = encode_command c @ ys"
  shows "process_frames rd t =
    (case process_command rd c (update_state (t\<lparr>next_frame_len := None, pending_out_buffer := ys\<rparr>)) of
       (Err e, t2) \<Rightarrow> (Err e, t2)
     | (Ok u, t2) \<Rightarrow> process_frames rd t2)"
proof -
  have "try_take_complete_frame t = (Ok (Some (encode_command c)),
      update_state (t\<lparr>next_frame_len := None, pending_out_buffer := ys\<rparr>))"
    using try_take_complete [OF framing_invD [OF assms(1)]] framed_frame [OF assms(2), of ys] assms(3)
    by simp
  then show ?thesis
    by (simp add: process_frames.simps [of rd t] process_encoded [OF assms(2)] del: encode_command.simps)
qed

lemma first_command_step:
  assumes "transport_inv t" "\<not> poisoned t" "sendable c"
    and buf: "pending_out_buffer t = encode_command c @ ys"
  obtains t1 t2 where
    "t1 = update_state (t\<lparr>next_frame_len := None, pending_out_buffer := ys\<rparr>)"
    "process_command rd c t1 = (Ok (), t2)"
    "process_frames rd t = process_frames rd t2" "transport_inv t2" "\<not> poisoned t2"
proof -
  let ?t1 = "update_state (t\<lparr>next_frame_len := None, pending_out_buffer := ys\<rparr>)"
  have "\<not> poisoned ?t1" using assms(2) by simp
  then obtain t2 where t2: "process_command rd c ?t1 = (Ok (), t2)" "\<not> poisoned t2"
    using process_command_Ok assms(3) by (metis sendable_def)
  have "transport_inv ?t1"
    using assms(1) by (intro transport_inv_update_state) (simp add: transport_inv_defs)
  then show ?thesis
    using that t2 first_command_taken [OF assms(1) sendable_framed [OF assms(3)] buf, of rd]
      transport_inv_process_command by fastforce
qed

lemma process_frames_empty:
  "pending_out_buffer t = [] \<Longrightarrow>
     process_frames rd t = (Ok (), update_state (t\<lparr>next_frame_len := None\<rparr>))"
  by (simp add: process_frames.simps [of rd t] try_take_short)

lemma run_commands_same:
  "same_content u t \<Longrightarrow> control_abort t = None \<Longrightarrow> \<not> poisoned t \<Longrightarrow> (\<forall>c \<in> set cs. sendable c) \<Longrightarrow>
     same_content (run_commands rd cs u) (run_commands rd cs t)"
proof (induction cs arbitrary: u t)
  case (Cons c cs)
  obtain t2 where t2: "process_command rd c t = (Ok (), t2)" "\<not> poisoned t2"
    using process_command_Ok [OF Cons.prems(3), of c rd] Cons.prems(4) by (auto simp: sendable_def)
  have "same_content u (t\<lparr>pending_out_buffer := pending_out_buffer t\<rparr>)"
    using Cons.prems(1) by simp
  from process_command_same [OF this Cons.prems(2) t2(1)] obtain u2
    where u2: "process_command rd c u = (Ok (), u2)"
      and same: "same_content u2 (t2\<lparr>pending_out_buffer := pending_out_buffer t\<rparr>)"
      and "control_abort t2 = None" "pending_out_buffer t2 = pending_out_buffer t"
    by blast
  moreover from this have "same_content u2 t2" by (metis transport.surjective transport.update_convs(6))
  ultimately show ?case
    using Cons.IH t2 Cons.prems(4) by simp
qed simp

lemma process_frames_commands:
  "transport_inv t \<Longrightarrow> \<not> poisoned t \<Longrightarrow> control_abort t = None \<Longrightarrow>
   (\<forall>c \<in> set cs. sendable c) \<Longrightarrow> pending_out_buffer t = concat (map encode_command cs) \<Longrightarrow>
     \<exists>t'. process_frames rd t = (Ok (), t')
       \<and> same_content t' (run_commands rd cs (t\<lparr>pending_out_buffer := []\<rparr>))"
proof (induction cs arbitrary: t)
  case Nil
  then have eq: "t\<lparr>pending_out_buffer := []\<rparr> = t" by (cases t) simp
  show ?case
    using Nil same_content_trans [OF same_content_update_state same_content_next, of None t]
    by (simp add: process_frames_empty eq)
next
  case (Cons c cs)
  let ?ys = "concat (map encode_command cs)"
  obtain t1 t2 where
    t1: "t1 = update_state (t\<lparr>next_frame_len := None, pending_out_buffer := ?ys\<rparr>)"
    and step: "process_command rd c t1 = (Ok (), t2)"
    and loop: "process_frames rd t = process_frames rd t2"
    and t2: "transport_inv t2" "\<not> poisoned t2"
    using first_command_step [of t c ?ys rd] Cons.prems by auto
  have same: "same_content (t\<lparr>pending_out_buffer := []\<rparr>) (t1\<lparr>pending_out_buffer := []\<rparr>)"
    unfolding t1 by (cases t) (simp add: same_content_def update_state_def)
  have "control_abort t1 = None" using Cons.prems(3) by (simp add: t1)
  from process_command_same [OF same this step] obtain u2
    where u2: "process_command rd c (t\<lparr>pending_out_buffer := []\<rparr>) = (Ok (), u2)"
      and same2: "same_content u2 (t2\<lparr>pending_out_buffer := []\<rparr>)"
      and idle: "control_abort t2 = None" and buf: "pending_out_buffer t2 = ?ys"
    using t1 by auto
  obtain t' where "process_frames rd t2 = (Ok (), t')"
    "same_content t' (run_commands rd cs (t2\<lparr>pending_out_buffer := []\<rparr>))"
    using Cons.IH [OF t2 idle _ buf] Cons.prems(4) by auto
  moreover have "same_content (run_commands rd cs u2) (run_commands rd cs (t2\<lparr>pending_out_buffer := []\<rparr>))"
    using run_commands_same [OF same2] idle t2(2) Cons.prems(4) by simp
  ultimately show ?case
    using loop u2 by (auto intro: same_content_trans same_content_sym)
qed

lemma handle_bulk_out_commands:
  assumes "transport_inv t" "\<not> poisoned t" "control_abort t = None" "pending_out_buffer t = []"
    and "\<forall>c \<in> set cs. sendable c"
  shows "\<exists>t'. handle_bulk_out rd (concat (map encode_command cs)) t = (Ok (), t')
    \<and> same_content t' (run_commands rd cs t)"
proof -
  let ?bytes = "concat (map encode_command cs)"
  let ?u = "update_state (t\<lparr>pending_out_buffer := ?bytes\<rparr>)"
  have "core_inv (t\<lparr>pending_out_buffer := ?bytes\<rparr>)"
    using assms(1) framing_inv_append [OF framing_invD [OF assms(1)], of ?bytes] assms(4)
    by (simp add: transport_inv_def core_inv_def queues_inv_def abort_inv_def)
  then have "transport_inv ?u" by (rule transport_inv_update_state)
  then obtain t' where t': "process_frames rd ?u = (Ok (), t')"
    "same_content t' (run_commands rd cs (?u\<lparr>pending_out_buffer := []\<rparr>))"
    using process_frames_commands [of ?u cs rd] assms by auto
  have "same_content (?u\<lparr>pending_out_buffer := []\<rparr>) t"
    using assms(4) by (cases t) (simp add: same_content_def update_state_def)
  then have "same_content (run_commands rd cs (?u\<lparr>pending_out_buffer := []\<rparr>)) (run_commands rd cs t)"
    using run_commands_same assms(2,3,5) by blast
  with t' show ?thesis
    using assms(4) by (auto simp: handle_bulk_out_def intro: same_content_trans)
qed

lemma handle_bulk_out_one:
  assumes "transport_inv t" "\<not> poisoned t" "pending_out_buffer t = []" "sendable c"
  obtains t0 t2 t' where "same_content t0 t" "process_command rd c t0 = (Ok (), t2)"
    "handle_bulk_out rd (encode_command c) t = (Ok (), t')" "same_content t' t2"
    "pending_out_buffer t' = []" "transport_inv t'"
proof -
  let ?u = "update_state (t\<lparr>pending_out_buffer := encode_command c\<rparr>)"
  have "core_inv (t\<lparr>pending_out_buffer := encode_command c\<rparr>)"
    using assms(1) framing_inv_append [OF framing_invD [OF assms(1)], of "encode_command c"]
      assms(3)
    by (simp add: transport_inv_def core_inv_def queues_inv_def abort_inv_def)
  then have inv: "transport_inv ?u" by (rule transport_inv_update_state)
  obtain t0 t2 where
    t0: "t0 = update_state (?u\<lparr>next_frame_len := None, pending_out_buffer := []\<rparr>)"
    and step: "process_command rd c t0 = (Ok (), t2)"
    and loop: "process_frames rd ?u = process_frames rd t2"
    by (rule first_command_step [OF inv _ assms(4), of "[]" rd]) (use assms(2) in auto)
  have "pending_out_buffer t2 = []"
    using process_command_buffer [OF step] by (auto simp: t0)
  note empty = process_frames_empty [OF this, of rd]
  let ?t' = "update_state (t2\<lparr>next_frame_len := None\<rparr>)"
  have bulk: "handle_bulk_out rd (encode_command c) t = (Ok (), ?t')"
    using assms(3) loop empty by (simp add: handle_bulk_out_def)
  show ?thesis
  proof
    show "same_content t0 t"
      unfolding t0 using assms(3) by (cases t) (simp add: same_content_def update_state_def)
    show "same_content ?t' t2"
      using same_content_trans [OF same_content_update_state same_content_next] .
    show "transport_inv ?t'"
      using transport_inv_handle_bulk_out [OF assms(1) bulk] .
    show "pending_out_buffer ?t' = []" by (simp add: \<open>pending_out_buffer t2 = []\<close>)
  qed (use step bulk in simp_all)
qed

lemma same_content_eq:
  assumes "same_content t u" "transport_inv t" "transport_inv u" "\<not> poisoned t"
    and "pending_out_buffer t = []"
  shows "t = u"
proof -
  note fields = same_content_fields [OF assms(1)]
  have "next_frame_len t = None"
    using assms(2,5) by (cases "next_frame_len t") (auto simp: transport_inv_defs)
  moreover have "next_frame_len u = None"
    using assms(3,5) fields by (cases "next_frame_len u") (auto simp: transport_inv_defs)
  moreover have "tstate t = tstate u"
    using assms fields by (simp add: transport_inv_def tstate_inv_def)
  ultimately show ?thesis
    using fields by (intro transport.equality) simp_all
qed

subsection \<open>The abort protocol\<close>

definition aborted_response :: "'r transport \<Rightarrow> ccid_command \<Rightarrow> ccid_response" where
  "aborted_response t c = SlotStatus (command_slot c) (command_seq c)
     \<lparr>icc = current_icc_status (bridge t), command = Failed\<rparr> CMD_ABORTED_ERROR 0"

definition abort_done_response :: "'r transport \<Rightarrow> byte \<Rightarrow> byte \<Rightarrow> ccid_response" where
  "abort_done_response t slot seq =
     SlotStatus slot seq (status_ok (current_icc_status (bridge t))) 0 0"

lemma aborting_rejects:
  assumes "control_abort t = Some (slot, seq)" "c \<noteq> Abort slot seq" "\<not> poisoned t"
  shows "process_command rd c t =
    (Ok (), enqueue_response (aborted_response t c) (card_present (bridge t)) t)"
  using assms
  by (simp add: process_command_def queue_aborted_response_def aborted_response_def
      enqueue_response_def)

lemma finish_abort_result:
  assumes "\<not> poisoned t"
  shows "finish_abort rd slot seq t =
    (Ok (), enqueue_response (abort_done_response t slot seq) (card_present (bridge t))
      (t\<lparr>bulk_abort := None, control_abort := None, pending_out_buffer := [],
         next_frame_len := None, pending_in_frames := []\<rparr>))"
  using assms by (cases t) (simp add: finish_abort_def abort_done_response_def)

lemma finish_abort_frames:
  assumes "\<not> poisoned t" "finish_abort rd slot seq t = (res, t')"
  shows "res = Ok () \<and> pending_in_frames t' = [encode (abort_done_response t slot seq)]
    \<and> pending_out_buffer t' = [] \<and> bulk_abort t' = None \<and> control_abort t' = None
    \<and> bridge t' = bridge t"
  using assms
  by (auto simp: finish_abort_result enqueue_response_def push_in_frame_def Let_def
      MAX_PENDING_IN_FRAMES_def)

lemma finish_abort_same:
  assumes "same_content t u"
  shows "same_content (snd (finish_abort rd slot seq t)) (snd (finish_abort rd slot seq u))"
  using assms
  by (cases t; cases u)
    (simp add: same_content_def finish_abort_def enqueue_response_def push_in_frame_def
      update_slot_presence_def push_interrupt_def update_state_def Let_def)

lemma finish_abort_forgets:
  "finish_abort rd slot seq (t\<lparr>bulk_abort := x\<rparr>) = finish_abort rd slot seq t"
  "finish_abort rd slot seq (t\<lparr>control_abort := y\<rparr>) = finish_abort rd slot seq t"
  by (cases t; simp add: finish_abort_def)+

lemma bulk_abort_recorded:
  assumes "transport_inv t" "\<not> poisoned t" "pending_out_buffer t = []" "control_abort t = None"
  shows "\<exists>t'. handle_bulk_out rd (encode_command (Abort slot seq)) t = (Ok (), t')
    \<and> same_content t' (t\<lparr>bulk_abort := Some seq\<rparr>) \<and> transport_inv t'"
proof -
  have "sendable (Abort slot seq)" by (simp add: sendable_iff overruns_select_def)
  from handle_bulk_out_one [OF assms(1-3) this] obtain t0 t2 t' where bulk: "same_content t0 t"
    "process_command rd (Abort slot seq) t0 = (Ok (), t2)"
    "handle_bulk_out rd (encode_command (Abort slot seq)) t = (Ok (), t')" "same_content t' t2"
    "transport_inv t'"
    by metis
  have "control_abort t0 = None"
    using same_content_fields [OF bulk(1)] assms(4) by simp
  then have "t2 = t0\<lparr>bulk_abort := Some seq\<rparr>"
    using bulk(2) by (cases t0) (auto simp: process_command_def)
  moreover have "same_content (t0\<lparr>bulk_abort := Some seq\<rparr>) (t\<lparr>bulk_abort := Some seq\<rparr>)"
    using bulk(1) by (cases t0; cases t) (simp add: same_content_def)
  ultimately show ?thesis
    using bulk(3-5) same_content_trans by blast
qed

lemma pending_abort_completed:
  assumes "transport_inv t" "\<not> poisoned t" "pending_out_buffer t = []"
    and "control_abort t = Some (0, seq)"
  shows "\<exists>t'. handle_bulk_out rd (encode_command (Abort 0 seq)) t = (Ok (), t')
    \<and> same_content t' (snd (finish_abort rd 0 seq t)) \<and> transport_inv t'"
proof -
  have "sendable (Abort 0 seq)" by (simp add: sendable_iff overruns_select_def)
  from handle_bulk_out_one [OF assms(1-3) this] obtain t0 t2 t' where bulk: "same_content t0 t"
    "process_command rd (Abort 0 seq) t0 = (Ok (), t2)"
    "handle_bulk_out rd (encode_command (Abort 0 seq)) t = (Ok (), t')" "same_content t' t2"
    "transport_inv t'"
    by metis
  have "control_abort t0 = Some (0, seq)"
    using same_content_fields(8) [OF bulk(1)] assms(4) by simp
  then have "t2 = snd (finish_abort rd 0 seq t0)"
    using bulk(2) by (simp add: process_command_def)
  then show ?thesis
    using bulk finish_abort_same [OF bulk(1)] same_content_trans by blast
qed

lemma abort_orders_agree:
  assumes "transport_inv t" "\<not> poisoned t" "pending_out_buffer t = []"
    and "control_abort t = None" "bulk_abort t = None"
  shows "expect_abort rd 0 seq (snd (handle_bulk_out rd (encode_command (Abort 0 seq)) t))
       = snd (handle_bulk_out rd (encode_command (Abort 0 seq)) (expect_abort rd 0 seq t))
    \<and> pending_in_frames (expect_abort rd 0 seq
         (snd (handle_bulk_out rd (encode_command (Abort 0 seq)) t)))
       = [encode (abort_done_response t 0 seq)]"
proof -
  obtain t' where bulk: "handle_bulk_out rd (encode_command (Abort 0 seq)) t = (Ok (), t')"
    "same_content t' (t\<lparr>bulk_abort := Some seq\<rparr>)" "transport_inv t'"
    using bulk_abort_recorded [OF assms(1-4)] by blast
  let ?u = "t\<lparr>control_abort := Some (0, seq)\<rparr>"
  have u: "expect_abort rd 0 seq t = ?u"
    using assms(5) by (simp add: expect_abort_def)
  then have "transport_inv ?u"
    using transport_inv_expect_abort [OF assms(1), of rd 0 seq] by simp
  then obtain u' where control: "handle_bulk_out rd (encode_command (Abort 0 seq)) ?u = (Ok (), u')"
    "same_content u' (snd (finish_abort rd 0 seq ?u))" "transport_inv u'"
    using pending_abort_completed [of ?u seq rd] assms(2,3) by auto
  let ?done = "snd (finish_abort rd 0 seq t')"
  note fields = same_content_fields [OF bulk(2)]
  have np: "\<not> poisoned t'" using fields assms(2) by simp
  note frames = finish_abort_frames [OF np prod.collapse [symmetric], of rd 0 seq]
  have left: "expect_abort rd 0 seq t' = ?done"
    using fields by (simp add: expect_abort_def)
  have "same_content ?done u'"
    using finish_abort_same [OF bulk(2), of rd 0 seq] control(2)
    by (simp add: finish_abort_forgets same_content_sym) (metis same_content_sym same_content_trans)
  moreover have "transport_inv ?done"
    using transport_inv_expect_abort [OF bulk(3), of rd 0 seq] left by simp
  moreover have "\<not> poisoned ?done"
    using np by (simp add: finish_abort_result)
  ultimately have "?done = u'"
    using same_content_eq control(3) frames by blast
  moreover have "abort_done_response t' 0 seq = abort_done_response t 0 seq"
    using fields by (simp add: abort_done_response_def)
  ultimately show ?thesis
    using left u bulk(1) control(1) frames by simp
qed

subsection \<open>Properties\<close>

text \<open>C14: Where a stream of bytes is cut into transfers does not matter, as long as no abort is pending
  by control request. Sending two pieces in one transfer has exactly the effect of sending the
  first and then, if that was accepted, the second; if the first is refused, the transfer of both is
  refused with the same error and the same state, and the second piece is lost. The case that a
  command of the first piece panics is left out.\<close>

theorem bulk_out_split:
  assumes "transport_inv t" "\<not> poisoned t" "control_abort t = None"
    and "handle_bulk_out rd xs t = (res, t1)" "res \<noteq> Err Panicked"
  shows "handle_bulk_out rd (xs @ ys) t =
    (case res of Ok u \<Rightarrow> handle_bulk_out rd ys t1 | Err e \<Rightarrow> (res, t1))"
  by (rule handle_bulk_out_append [OF assms])

definition idle_transport :: "script \<Rightarrow> script transport" where
  "idle_transport s = new_transport (new_bridge (scripted (Ok ()) (Ok [0x90, 0x00])) s)"

lemma idle_transport_inv [simp]:
  "transport_inv (idle_transport s)" "\<not> poisoned (idle_transport s)"
  "control_abort (idle_transport s) = None" "pending_out_buffer (idle_transport s) = []"
  "bulk_abort (idle_transport s) = None"
  by (simp_all add: idle_transport_def transport_inv_new bridge_inv_new)
    (simp_all add: new_transport_def)

theorem bulk_out_split_witness:
  "handle_bulk_out (scripted (Ok ()) (Ok [0x90, 0x00]))
     ([0x65, 0, 0, 0] @ [0, 0, 1, 0, 0, 0]) (idle_transport [])
   = handle_bulk_out (scripted (Ok ()) (Ok [0x90, 0x00])) [0, 0, 1, 0, 0, 0]
       ((idle_transport [])\<lparr>pending_out_buffer := [0x65, 0, 0, 0], tstate := Receiving\<rparr>)"
proof -
  have "handle_bulk_out (scripted (Ok ()) (Ok [0x90, 0x00])) [0x65, 0, 0, 0] (idle_transport [])
      = (Ok (), (idle_transport [])\<lparr>pending_out_buffer := [0x65, 0, 0, 0], tstate := Receiving\<rparr>)"
    unfolding handle_bulk_out_def
    by (subst process_frames.simps)
      (simp add: try_take_short update_state_def idle_transport_def new_transport_def)
  from bulk_out_split [OF idle_transport_inv(1,2,3) this] show ?thesis by simp
qed

text \<open>C27: A bulk OUT transfer always ends, and in one of three ways: it is accepted, and then no
  complete frame and no oversized header is left in the buffer; or the buffer started with a frame
  over the maximum, and then the error names its length and the buffer is empty; or a frame in the
  buffer carries a SELECT whose length byte overruns its data, which panics, poisons the lock and
  leaves what follows the frame. In particular a frame that the transport cuts out of the stream
  never fails to decode.\<close>

theorem bulk_out_outcomes:
  assumes "transport_inv t" "\<not> poisoned t" "handle_bulk_out rd payload t = (res, t')"
  shows "\<not> poisoned t' \<and> bulk_out_outcome res (pending_out_buffer t')
      \<and> length (pending_out_buffer t') < CCID_MAX_MESSAGE_LENGTH + 10
    \<or> poisoned t' \<and> res = Err Panicked
      \<and> panicking_frame (pending_out_buffer t @ payload) (pending_out_buffer t')"
proof -
  have "core_inv (t\<lparr>pending_out_buffer := pending_out_buffer t @ payload\<rparr>)"
    using assms(1) framing_inv_append [OF framing_invD [OF assms(1)], of payload]
    by (simp add: transport_inv_def core_inv_def queues_inv_def abort_inv_def)
  then have "transport_inv (update_state (t\<lparr>pending_out_buffer := pending_out_buffer t @ payload\<rparr>))"
    by (rule transport_inv_update_state)
  then have "process_outcome res (pending_out_buffer t @ payload) t'"
    using process_frames_outcome [of "update_state (t\<lparr>pending_out_buffer := pending_out_buffer t @ payload\<rparr>)"]
      assms(2,3) by (simp add: handle_bulk_out_def)
  then show ?thesis
    by (auto simp: process_outcome_def bulk_out_outcome_def frame_complete_def frame_oversize_def
        CCID_MAX_MESSAGE_LENGTH_def)
qed

theorem bulk_out_outcomes_witness:
  "bulk_out_outcome (fst (handle_bulk_out (scripted (Ok ()) (Ok [])) [0x65, 0, 0, 0] (idle_transport [])))
     (pending_out_buffer (snd (handle_bulk_out (scripted (Ok ()) (Ok [])) [0x65, 0, 0, 0]
        (idle_transport []))))"
proof -
  have "\<not> panicking_frame ([0x65, 0, 0, 0]) rest" for rest
    by (auto simp: panicking_frame_def dest!: decode_Ok_length arg_cong [where f = length])
  moreover have "pending_out_buffer (idle_transport []) @ [0x65, 0, 0, 0] = [0x65, 0, 0, 0]"
    by simp
  ultimately show ?thesis
    using bulk_out_outcomes [OF idle_transport_inv(1,2) prod.collapse [symmetric]] by metis
qed

text \<open>C6: The byte level implements the command level. A stream of encoded commands is accepted, and
  its effect on the bridge, the queues and the abort state is that of the commands, one by one.\<close>

theorem byte_stream_refines_commands:
  assumes "transport_inv t" "\<not> poisoned t" "control_abort t = None" "pending_out_buffer t = []"
    and "\<forall>c \<in> set cs. sendable c"
  shows "\<exists>t'. handle_bulk_out rd (concat (map encode_command cs)) t = (Ok (), t')
    \<and> same_content t' (run_commands rd cs t)"
  by (rule handle_bulk_out_commands [OF assms])

theorem byte_stream_refines_commands_witness:
  "\<exists>t'. handle_bulk_out (scripted (Ok ()) (Ok []))
       (concat (map encode_command [IccPowerOn 0 1 0, Abort 0 2])) (idle_transport []) = (Ok (), t')
    \<and> same_content t' (run_commands (scripted (Ok ()) (Ok [])) [IccPowerOn 0 1 0, Abort 0 2]
         (idle_transport []))"
  by (rule byte_stream_refines_commands [OF idle_transport_inv(1-4)])
    (simp add: sendable_iff overruns_select_def CCID_MAX_MESSAGE_LENGTH_def)

text \<open>A bulk IN transfer delivers exactly one queued response. Read in packets of any positive
  size until a short packet, the host gets the front frame unchanged, also when its length is a
  multiple of the packet size, and the rest of the queue is untouched.\<close>

lemma bulk_in_delivers_one_frame:
  assumes "0 < n" "pending_in_frames t = f # fs"
  shows "read_transfer n t = (f, update_state (t\<lparr>pending_in_frames := fs\<rparr>))"
  by (rule read_transfer_frame [OF assms])

lemma bulk_in_delivers_one_frame_witness:
  "fst (read_transfer 4 ((idle_transport [])\<lparr>pending_in_frames := [[1, 2, 3, 4, 5, 6, 7, 8]]\<rparr>))
     = [1, 2, 3, 4, 5, 6, 7, 8]"
  using bulk_in_delivers_one_frame [of 4
      "(idle_transport [])\<lparr>pending_in_frames := [[1, 2, 3, 4, 5, 6, 7, 8]]\<rparr>"] by simp

text \<open>C20: While the host has an abort pending by control request, every command other than the
  matching bulk abort is answered with \<open>CMD_ABORTED\<close> and reaches neither bridge nor reader, and the
  abort stays pending.\<close>

theorem pending_abort_blocks_commands:
  assumes "control_abort t = Some (slot, seq)" "c \<noteq> Abort slot seq" "\<not> poisoned t"
    and "process_command rd c t = (res, t')"
  shows "res = Ok () \<and> bridge t' = bridge t \<and> control_abort t' = Some (slot, seq)
    \<and> last (pending_in_frames t') = encode (aborted_response t c)"
  using assms aborting_rejects [OF assms(1-3), of rd]
  by (auto simp: enqueue_response_def push_in_frame_def Let_def)

theorem pending_abort_blocks_commands_witness:
  "bridge (snd (process_command (scripted (Ok ()) (Ok [])) (GetSlotStatus 0 9)
      ((idle_transport [])\<lparr>control_abort := Some (0, 7)\<rparr>))) = bridge (idle_transport [])"
  using pending_abort_blocks_commands [of "(idle_transport [])\<lparr>control_abort := Some (0, 7)\<rparr>" 0 7
      "GetSlotStatus 0 9" _ _ _, OF _ _ _ prod.collapse [symmetric]] by simp

text \<open>C22: The two halves of an abort may come in either order. From a transport with no abort pending
  and no partial frame, bulk abort then control request ends in exactly the state of control
  request then bulk abort: one success response to the abort, all older responses dropped.\<close>

theorem abort_order_irrelevant:
  assumes "transport_inv t" "\<not> poisoned t" "pending_out_buffer t = []"
    and "control_abort t = None" "bulk_abort t = None"
  shows "expect_abort rd 0 seq (snd (handle_bulk_out rd (encode_command (Abort 0 seq)) t))
       = snd (handle_bulk_out rd (encode_command (Abort 0 seq)) (expect_abort rd 0 seq t))
    \<and> pending_in_frames (expect_abort rd 0 seq
         (snd (handle_bulk_out rd (encode_command (Abort 0 seq)) t)))
       = [encode (abort_done_response t 0 seq)]"
  by (rule abort_orders_agree [OF assms])

theorem abort_order_irrelevant_witness:
  "pending_in_frames (expect_abort (scripted (Ok ()) (Ok [])) 0 7
     (snd (handle_bulk_out (scripted (Ok ()) (Ok [])) (encode_command (Abort 0 7)) (idle_transport []))))
   = [encode (abort_done_response (idle_transport []) 0 7)]"
  using abort_order_irrelevant [OF idle_transport_inv(1,2,4,3,5)] by blast

end
