(* ===== verification/Ccid_Host.thy ===== *)
theory Ccid_Host
  imports Ccid_Transport
begin

text \<open>
  The host's side of the CCID protocol, and the refinement that ties the layers below the USB
  interface together. A host transaction sends the frame of a command in a bulk OUT transfer and
  reads one response frame by bulk IN packets. A session of transactions has the effect and the
  answers of the bridge's command handler alone: framing, queueing, packets and the byte encoding
  of both directions disappear.
\<close>

definition transact ::
    "'r nfc_reader \<Rightarrow> nat \<Rightarrow> ccid_command \<Rightarrow> 'r transport \<Rightarrow> ccid_response option \<times> 'r transport" where
  "transact rd n c t =
     (let (res, t1) = handle_bulk_out rd (encode_command c) t;
          (frame, t2) = read_transfer n t1
      in (decode_response frame, t2))"

primrec host_session ::
    "'r nfc_reader \<Rightarrow> nat \<Rightarrow> ccid_command list \<Rightarrow> 'r transport
      \<Rightarrow> ccid_response option list \<times> 'r transport" where
  "host_session rd n [] t = ([], t)"
| "host_session rd n (c # cs) t =
     (let (r, t1) = transact rd n c t; (rs, t2) = host_session rd n cs t1 in (r # rs, t2))"

text \<open>
  The abstract session: the command handler of the bridge, command by command. A command whose
  call panics has no answer and ends the session.
\<close>

primrec bridge_session ::
    "'r nfc_reader \<Rightarrow> ccid_command list \<Rightarrow> 'r bridge \<Rightarrow> ccid_response list \<times> 'r bridge" where
  "bridge_session rd [] b = ([], b)"
| "bridge_session rd (c # cs) b =
     (case handle_command rd c b of
        (None, b1) \<Rightarrow> ([], b1)
      | (Some r, b1) \<Rightarrow> (let (rs, b2) = bridge_session rd cs b1 in (r # rs, b2)))"

text \<open>Between transactions nothing is buffered and no abort is pending.\<close>

definition host_ready :: "'r transport \<Rightarrow> bool" where
  "host_ready t \<longleftrightarrow>
     transport_inv t \<and> \<not> poisoned t \<and> control_abort t = None \<and> pending_out_buffer t = []
   \<and> pending_in_frames t = []"

text \<open>
  The response's length field has 32 bits, so the answers of the reader and the bytes of its cards
  have to stay below that. \<open>answers_fit rd P\<close> is this for the readers in \<open>P\<close>, which no method leaves.
\<close>

definition answers_fit :: "'r nfc_reader \<Rightarrow> ('r \<Rightarrow> bool) \<Rightarrow> bool" where
  "answers_fit rd P \<longleftrightarrow>
     (\<forall>r r'. P r \<and> reader_call rd r r' \<longrightarrow> P r')
   \<and> (\<forall>r a resp r'. P r \<and> exchange_apdu rd r a = (Ok resp, r') \<longrightarrow> length resp < 2 ^ 32)
   \<and> (\<forall>r c r'. P r \<and> poll_card rd r = (Ok (Some c), r') \<longrightarrow> length (historical_bytes c) < 2 ^ 31)"

lemma length_build_pseudo_atr: "length (build_pseudo_atr c) \<le> length (historical_bytes c) + 5"
  by (auto simp: build_pseudo_atr_def Let_def)

lemma guarded_fits:
  assumes "answers_fit rd P" "P (reader b)" "exchange_guarded rd slot seq payload b = (Some resp, b')"
  shows "length (response_payload resp) < 2 ^ 32"
proof -
  have "length a < 2 ^ 32" if "exchange_apdu rd (reader b) x = (Ok a, r')" for x a r'
    using assms(1,2) that unfolding answers_fit_def by blast
  then show ?thesis
    using assms(3)
    by (auto simp: exchange_guarded_def exchange_powered_def split: result_splits option.splits)
qed

lemma response_fits:
  assumes "answers_fit rd P" "P (reader b)" "bridge_inv b" "handle_command rd c b = (Some resp, b')"
  shows "length (response_payload resp) < 2 ^ 32"
proof -
  have atr: "length (build_pseudo_atr crd) < 2 ^ 32"
    if "poll_card rd (reader b) = (Ok (Some crd), r)" for crd r
  proof -
    have "length (historical_bytes crd) < 2 ^ 31"
      using assms(1,2) that unfolding answers_fit_def by blast
    then show ?thesis
      using length_build_pseudo_atr [of crd] by simp
  qed
  have later: "P (reader b1)" if "refresh_card_presence rd b = (res, b1)" for res b1
    using assms(1,2) refresh_calls [OF that] unfolding answers_fit_def by blast
  show ?thesis
  proof (cases c)
    case (XfrBlock slot seq bwi level payload)
    then show ?thesis
      using assms(4) guarded_fits [OF assms(1)] assms(2) later
      by (auto simp: handle_xfr_block_def split: result_splits)
  qed (use assms(3,4) in \<open>auto simp: handle_power_on_def handle_power_off_def
      handle_get_slot_status_def handle_reset_parameters_def handle_set_parameters_def
      parameters_response_def bridge_inv_def DEFAULT_T1_PARAMETERS_def Let_def
      split: result_splits dest: atr\<close>)
qed

lemma fits_stay:
  assumes "answers_fit rd P" "P (reader b)" "handle_command rd c b = (resp, b')"
  shows "P (reader b')"
  using handle_command_calls [OF assms(3)] assms(1,2) unfolding answers_fit_def by blast

lemma process_plain_command:
  assumes "control_abort t = None" "\<not> poisoned t" "\<not> is_abort c"
    and "handle_command rd c (bridge t) = (Some resp, b)"
  shows "process_command rd c t =
    (Ok (), enqueue_response resp (card_present b) (t\<lparr>bulk_abort := None, bridge := b\<rparr>))"
  using process_command_plain [OF assms(1-3)] assms(4) by simp

lemma transact_refines:
  assumes ready: "host_ready t" and c: "sendable c" "\<not> is_abort c" and n: "0 < n"
    and h: "handle_command rd c (bridge t) = (Some resp, b)" and fit: "length (response_payload resp) < 2 ^ 32"
  shows "\<exists>t'. transact rd n c t = (Some resp, t') \<and> bridge t' = b \<and> host_ready t'
    \<and> slot_present t' = card_present b
    \<and> pending_interrupt_frames t' =
        pending_interrupt_frames t @ [slot_note (slot_present t) (card_present b)]"
proof -
  obtain t0 t2 t1 where
    same: "same_content t0 t" and step: "process_command rd c t0 = (Ok (), t2)"
    and bulk: "handle_bulk_out rd (encode_command c) t = (Ok (), t1)" and same2: "same_content t1 t2"
    and buf: "pending_out_buffer t1 = []" and inv: "transport_inv t1"
    using handle_bulk_out_one [of t c rd] ready c(1) by (auto simp: host_ready_def)
  have t0: "bridge t0 = bridge t" "\<not> poisoned t0" "control_abort t0 = None" "pending_in_frames t0 = []"
    using same_content_fields [OF same] ready by (simp_all add: host_ready_def)
  have t2: "t2 = enqueue_response resp (card_present b) (t0\<lparr>bulk_abort := None, bridge := b\<rparr>)"
    using process_plain_command [OF t0(3,2) c(2)] h step t0(1) by simp
  then have "pending_in_frames t2 = [encode resp]" "bridge t2 = b" "\<not> poisoned t2"
      "control_abort t2 = None"
    using t0 by (simp_all add: enqueue_response_def push_in_frame_def MAX_PENDING_IN_FRAMES_def)
  then have t1: "pending_in_frames t1 = [encode resp]" "bridge t1 = b" "\<not> poisoned t1"
      "control_abort t1 = None"
    using same_content_fields [OF same2] by simp_all
  let ?t' = "update_state (t1\<lparr>pending_in_frames := []\<rparr>)"
  have "read_transfer n t1 = (encode resp, ?t')"
    by (rule read_transfer_frame [OF n t1(1)])
  then have "transact rd n c t = (Some resp, ?t')"
    using bulk decode_encode_response [OF fit] by (simp add: transact_def)
  moreover have "core_inv (t1\<lparr>pending_in_frames := []\<rparr>)"
    using inv by (simp add: transport_inv_defs)
  then have "host_ready ?t'"
    using t1 buf by (simp add: host_ready_def transport_inv_update_state)
  moreover have "pending_interrupt_frames t2 =
      pending_interrupt_frames t @ [slot_note (slot_present t) (card_present b)]"
    using same_content_fields(4,6) [OF same] by (simp add: t2 notes_enqueue_response)
  moreover have "slot_present t2 = card_present b"
    by (simp add: t2)
  ultimately show ?thesis
    using t1(2) same_content_fields(4,6) [OF same2] by auto
qed

lemma host_session_refines:
  assumes "answers_fit rd P" "0 < n"
  shows "host_ready t \<Longrightarrow> P (reader (bridge t)) \<Longrightarrow> list_all (\<lambda>c. sendable c \<and> \<not> is_abort c) cs \<Longrightarrow>
    \<exists>t'. host_session rd n cs t = (map Some (fst (bridge_session rd cs (bridge t))), t')
       \<and> bridge t' = snd (bridge_session rd cs (bridge t)) \<and> host_ready t'
       \<and> interrupts t' = interrupts t + length cs"
proof (induction cs arbitrary: t)
  case (Cons c cs)
  obtain resp b where h: "handle_command rd c (bridge t) = (Some resp, b)"
    using handle_command_returns [of c rd "bridge t"] Cons.prems(3) by (auto simp: sendable_def)
  have "bridge_inv (bridge t)"
    using Cons.prems(1) by (simp add: host_ready_def transport_inv_defs)
  then have "length (response_payload resp) < 2 ^ 32"
    using response_fits [OF assms(1) Cons.prems(2) _ h] by blast
  then obtain t1 where t1: "transact rd n c t = (Some resp, t1)" "bridge t1 = b" "host_ready t1"
      "interrupts t1 = Suc (interrupts t)"
    using transact_refines [OF Cons.prems(1) _ _ assms(2) h] Cons.prems(3)
    by (auto simp: interrupts_def)
  show ?case
    using Cons.IH [OF t1(3)] fits_stay [OF assms(1) Cons.prems(2) h] Cons.prems(3) t1 h
    by (auto split: prod.split)
qed simp

lemma host_ready_new: "bridge_inv b \<Longrightarrow> host_ready (new_transport b)"
  using transport_inv_new [of b] by (simp add: host_ready_def new_transport_def)

subsection \<open>Property\<close>

text \<open>The transport is transparent. In a session of host transactions, with packets of any
  positive size, the host receives for every command exactly the response that the bridge's
  command handler gives, in order, and the bridge ends in the state the handler alone would leave.\<close>

lemma transport_is_transparent:
  assumes "host_ready t" "answers_fit rd P" "P (reader (bridge t))" "0 < n"
    and "list_all (\<lambda>c. sendable c \<and> \<not> is_abort c) cs"
  shows "\<exists>t'. host_session rd n cs t = (map Some (fst (bridge_session rd cs (bridge t))), t')
    \<and> bridge t' = snd (bridge_session rd cs (bridge t)) \<and> host_ready t'"
  using host_session_refines assms by blast

lemma transport_is_transparent_witness:
  "\<exists>t'. host_session (scripted (Ok ()) (Ok [0x90, 0x00])) 64
        [IccPowerOn 0 1 0, XfrBlock 0 2 0 0 [0x00, 0xa4, 0x04, 0x00]] (idle_transport []) =
      (map Some (fst (bridge_session (scripted (Ok ()) (Ok [0x90, 0x00]))
        [IccPowerOn 0 1 0, XfrBlock 0 2 0 0 [0x00, 0xa4, 0x04, 0x00]] (bridge (idle_transport [])))), t')
    \<and> bridge t' = snd (bridge_session (scripted (Ok ()) (Ok [0x90, 0x00]))
        [IccPowerOn 0 1 0, XfrBlock 0 2 0 0 [0x00, 0xa4, 0x04, 0x00]] (bridge (idle_transport [])))
    \<and> host_ready t'"
proof (rule transport_is_transparent [where P = "\<lambda>s. s = []"])
  show "answers_fit (scripted (Ok ()) (Ok [0x90, 0x00])) (\<lambda>s. s = [])"
    by (auto simp: answers_fit_def reader_call_def scripted_def)
  show "host_ready (idle_transport [])" "reader (bridge (idle_transport [])) = []"
    by (simp_all add: idle_transport_def host_ready_new bridge_inv_new)
      (simp add: new_transport_def new_bridge_def)
qed (simp_all add: sendable_iff overruns_select_def is_abort_def CCID_MAX_MESSAGE_LENGTH_def)

text \<open>C40: Notifications pile up. Every transaction of a session adds a notification, whether or not
  the card's presence changed. An interrupt transfer whose presence check succeeds puts one in for
  the one it takes out, so it leaves the queue as long as it was; only a transfer whose presence
  check fails takes one out without putting one in.\<close>

theorem notifications_accumulate:
  assumes "host_ready t" "answers_fit rd P" "P (reader (bridge t))" "0 < n"
    and "list_all (\<lambda>c. sendable c \<and> \<not> is_abort c) cs"
  shows "interrupts (snd (host_session rd n cs t)) = interrupts t + length cs
    \<and> interrupts (snd (handle_interrupt_in rd (snd (host_session rd n cs t)))) =
        (case fst (refresh_card_presence rd (bridge (snd (host_session rd n cs t)))) of
           Ok present \<Rightarrow> interrupts t + length cs
         | Err e \<Rightarrow> interrupts t + length cs - 1)"
proof -
  obtain t' where t': "host_session rd n cs t = (map Some (fst (bridge_session rd cs (bridge t))), t')"
      "host_ready t'" "interrupts t' = interrupts t + length cs"
    using host_session_refines [OF assms(2,4,1,3,5)] by blast
  then show ?thesis
    using interrupts_handle_interrupt_in [of t' rd] by (simp add: host_ready_def split: sum.split)
qed

theorem notifications_accumulate_witness:
  "interrupts (snd (host_session (scripted (Ok ()) (Ok [])) 64
      [GetParameters 0 1, GetParameters 0 2] (idle_transport []))) = 2
   \<and> interrupts (snd (handle_interrupt_in (scripted (Ok ()) (Ok []))
        (snd (host_session (scripted (Ok ()) (Ok [])) 64
          [GetParameters 0 1, GetParameters 0 2] (idle_transport []))))) = 2"
proof -
  let ?rd = "scripted (Ok ()) (Ok []) :: script nfc_reader"
  let ?cs = "[GetParameters 0 1, GetParameters 0 2]"
  have ready: "host_ready (idle_transport [])" "reader (bridge (idle_transport [])) = []"
    "interrupts (idle_transport []) = 0"
    by (simp_all add: idle_transport_def host_ready_new bridge_inv_new)
      (simp_all add: new_transport_def new_bridge_def interrupts_def)
  have fit: "answers_fit ?rd (\<lambda>s. s = [])"
    by (auto simp: answers_fit_def reader_call_def scripted_def)
  have ok: "list_all (\<lambda>c. sendable c \<and> \<not> is_abort c) ?cs"
    by (simp add: sendable_iff overruns_select_def is_abort_def CCID_MAX_MESSAGE_LENGTH_def)
  obtain t' where t': "host_session ?rd 64 ?cs (idle_transport []) =
      (map Some (fst (bridge_session ?rd ?cs (bridge (idle_transport [])))), t')"
      "bridge t' = snd (bridge_session ?rd ?cs (bridge (idle_transport [])))"
    using host_session_refines [OF fit _ ready(1,2) ok, of 64] by auto
  have "refresh_card_presence ?rd (bridge t') = (Ok False, bridge t')"
    by (simp add: t'(2) refresh_card_presence_def scripted_def idle_transport_def new_transport_def
        new_bridge_def)
  then have "refresh_card_presence ?rd (bridge (snd (host_session ?rd 64 ?cs (idle_transport [])))) =
      (Ok False, bridge t')"
    by (simp only: t'(1) snd_conv)
  with notifications_accumulate [OF ready(1) fit ready(2) _ ok, of 64] show ?thesis
    by (simp add: ready(3) del: host_session.simps)
qed

end
