(* ===== verification/Usb_Device.thy ===== *)
theory Usb_Device
  imports Ccid_Transport
begin

text \<open>
  The simulated USB device, \<open>src/usbip/device.rs\<close>: the handler of device control requests, the
  handler of the CCID interface that dispatches URBs to the transport, the endpoints, the class
  descriptor and the device as it is built.

  The crate \<open>usbip\<close> is the record \<open>usb_crate\<close>, a parameter: the codes of its enumerations, the
  methods \<open>is_ep0\<close> and \<open>direction\<close> of an endpoint and the \<open>Debug\<close> text of a setup packet.
  \<open>usb_standard\<close> states what the USB 2.0 specification says of them, and of the methods only what
  they say of the three endpoints that the device declares. An \<open>Arc<Mutex<_>>\<close> of a
  handler is the handler: the crate calls a handler only through its lock.
\<close>

definition CCID_INTERFACE_CLASS :: byte where "CCID_INTERFACE_CLASS = 0x0b"
definition CCID_INTERFACE_SUBCLASS :: byte where "CCID_INTERFACE_SUBCLASS = 0x00"
definition CCID_INTERFACE_PROTOCOL :: byte where "CCID_INTERFACE_PROTOCOL = 0x00"
definition CCID_BULK_IN_ENDPOINT :: byte where "CCID_BULK_IN_ENDPOINT = 0x81"
definition CCID_BULK_OUT_ENDPOINT :: byte where "CCID_BULK_OUT_ENDPOINT = 0x01"
definition CCID_INTERRUPT_IN_ENDPOINT :: byte where "CCID_INTERRUPT_IN_ENDPOINT = 0x82"
definition CCID_FUNCTIONAL_DESCRIPTOR_TYPE :: byte where "CCID_FUNCTIONAL_DESCRIPTOR_TYPE = 0x21"
definition DEVICE_CLOCK_FREQUENCY_KHZ :: "byte list" where
  "DEVICE_CLOCK_FREQUENCY_KHZ = [0xfc, 0x0d, 0x00, 0x00]"
definition DEVICE_DATA_RATE_BPS :: "byte list" where
  "DEVICE_DATA_RATE_BPS = [0x80, 0x25, 0x00, 0x00]"
definition USB_FEATURE_REMOTE_WAKEUP :: u16 where "USB_FEATURE_REMOTE_WAKEUP = 0x0001"

lemmas endpoint_defs =
  CCID_BULK_IN_ENDPOINT_def CCID_BULK_OUT_ENDPOINT_def CCID_INTERRUPT_IN_ENDPOINT_def

subsection \<open>The crate usbip\<close>

record setup_packet =
  setup_request_type :: byte
  setup_request :: byte
  setup_value :: u16
  setup_index :: u16
  setup_length :: u16

record usb_endpoint =
  ep_address :: byte
  ep_attributes :: byte
  ep_max_packet_size :: u16
  ep_interval :: byte

datatype direction = Direction_In | Direction_Out

record usb_crate =
  std_get_status :: byte
  std_clear_feature :: byte
  std_set_feature :: byte
  std_get_configuration :: byte
  attr_bulk :: byte
  attr_interrupt :: byte
  speed_full :: u32
  is_ep0 :: "usb_endpoint \<Rightarrow> bool"
  ep_direction :: "usb_endpoint \<Rightarrow> direction"
  setup_debug :: "setup_packet \<Rightarrow> string"

subsection \<open>The device handler\<close>

record device_handler =
  remote_wakeup_enabled :: bool

definition default_device_handler :: device_handler where
  "default_device_handler = \<lparr>remote_wakeup_enabled = False\<rparr>"

definition limited_response :: "u32 \<Rightarrow> setup_packet \<Rightarrow> byte list \<Rightarrow> byte list" where
  "limited_response transfer_buffer_length packet payload =
     (let max_len = min (unat transfer_buffer_length) (unat (setup_length packet))
      in take max_len payload)"

definition device_handle_urb ::
    "usb_crate \<Rightarrow> u32 \<Rightarrow> setup_packet \<Rightarrow> byte list \<Rightarrow> device_handler
      \<Rightarrow> (byte list, io_error) result \<times> device_handler" where
  "device_handle_urb usb transfer_buffer_length packet req h =
     (if setup_request_type packet = 0x80 \<and> setup_request packet = std_get_status usb then
        let status = (if remote_wakeup_enabled h then 0x0002 else 0x0000 :: u16)
        in (Ok (limited_response transfer_buffer_length packet (u16_to_le status)), h)
      else if setup_request_type packet = 0x80 \<and> setup_request packet = std_get_configuration usb then
        (Ok (limited_response transfer_buffer_length packet [1]), h)
      else if setup_request_type packet = 0x00 \<and> setup_request packet = std_set_feature usb
              \<and> setup_value packet = USB_FEATURE_REMOTE_WAKEUP then
        (Ok [], h\<lparr>remote_wakeup_enabled := True\<rparr>)
      else if setup_request_type packet = 0x00 \<and> setup_request packet = std_clear_feature usb
              \<and> setup_value packet = USB_FEATURE_REMOTE_WAKEUP then
        (Ok [], h\<lparr>remote_wakeup_enabled := False\<rparr>)
      else
        (Err (IoError Unsupported_Kind (''unsupported device request: '' @ setup_debug usb packet)), h))"

subsection \<open>The interface handler\<close>

record 'r interface_handler =
  handler_transport :: "'r transport"

definition new_interface_handler :: "'r bridge \<Rightarrow> 'r interface_handler" where
  "new_interface_handler b = \<lparr>handler_transport = new_transport b\<rparr>"

definition interface_debug :: "'r interface_handler \<Rightarrow> string" where
  "interface_debug h = debug_struct ''CcidUsbIpInterfaceHandler''
     [(''transport'', transport_debug (handler_transport h))]"

definition endpoints :: "usb_crate \<Rightarrow> usb_endpoint list" where
  "endpoints usb =
     [\<lparr>ep_address = CCID_BULK_OUT_ENDPOINT, ep_attributes = attr_bulk usb,
       ep_max_packet_size = 64, ep_interval = 0\<rparr>,
      \<lparr>ep_address = CCID_BULK_IN_ENDPOINT, ep_attributes = attr_bulk usb,
       ep_max_packet_size = 64, ep_interval = 0\<rparr>,
      \<lparr>ep_address = CCID_INTERRUPT_IN_ENDPOINT, ep_attributes = attr_interrupt usb,
       ep_max_packet_size = 8, ep_interval = 255\<rparr>]"

text \<open>
  What the daemon relies on in the crate: the request codes of the USB 2.0 specification, and that
  the declared endpoints, none of which is endpoint zero, have the direction of bit 7 of their address.
\<close>

definition usb_standard :: "usb_crate \<Rightarrow> bool" where
  "usb_standard usb \<longleftrightarrow>
     std_get_status usb = 0 \<and> std_clear_feature usb = 1 \<and> std_set_feature usb = 3
   \<and> std_get_configuration usb = 8
   \<and> (\<forall>ep \<in> set (endpoints usb). \<not> is_ep0 usb ep
        \<and> ep_direction usb ep = (if ep_address ep AND 0x80 \<noteq> 0 then Direction_In else Direction_Out))"

definition class_specific_descriptor :: "byte list" where
  "class_specific_descriptor =
     [0x36,
      CCID_FUNCTIONAL_DESCRIPTOR_TYPE,
      0x10, 0x01,
      0x00,
      0x01,
      0x02, 0x00, 0x00, 0x00,
      DEVICE_CLOCK_FREQUENCY_KHZ ! 0, DEVICE_CLOCK_FREQUENCY_KHZ ! 1,
      DEVICE_CLOCK_FREQUENCY_KHZ ! 2, DEVICE_CLOCK_FREQUENCY_KHZ ! 3,
      DEVICE_CLOCK_FREQUENCY_KHZ ! 0, DEVICE_CLOCK_FREQUENCY_KHZ ! 1,
      DEVICE_CLOCK_FREQUENCY_KHZ ! 2, DEVICE_CLOCK_FREQUENCY_KHZ ! 3,
      0x00,
      DEVICE_DATA_RATE_BPS ! 0, DEVICE_DATA_RATE_BPS ! 1,
      DEVICE_DATA_RATE_BPS ! 2, DEVICE_DATA_RATE_BPS ! 3,
      DEVICE_DATA_RATE_BPS ! 0, DEVICE_DATA_RATE_BPS ! 1,
      DEVICE_DATA_RATE_BPS ! 2, DEVICE_DATA_RATE_BPS ! 3,
      0x00,
      0xfe, 0x00, 0x00, 0x00,
      0x00, 0x00, 0x00, 0x00,
      0x00, 0x00, 0x00, 0x00,
      0x40, 0x08, 0x04, 0x00,
      0x00, 0x0c, 0x00, 0x00,
      0xff,
      0xff,
      0x00, 0x00,
      0x00,
      0x01]"

definition get_class_specific_descriptor :: "'r interface_handler \<Rightarrow> byte list" where
  "get_class_specific_descriptor h = class_specific_descriptor"

definition interface_bulk_out ::
    "'r nfc_reader \<Rightarrow> byte list \<Rightarrow> 'r interface_handler
      \<Rightarrow> (byte list, io_error) result \<times> 'r interface_handler" where
  "interface_bulk_out rd payload h =
     (let (res, t) = handle_bulk_out rd payload (handler_transport h)
      in try_then (res, h\<lparr>handler_transport := t\<rparr>) (\<lambda>_ h. (Ok [], h)))"

definition interface_bulk_in ::
    "nat \<Rightarrow> 'r interface_handler \<Rightarrow> byte list \<times> 'r interface_handler" where
  "interface_bulk_in max_len h =
     (let (bs, t) = handle_bulk_in max_len (handler_transport h) in (bs, h\<lparr>handler_transport := t\<rparr>))"

definition interface_interrupt_in ::
    "'r nfc_reader \<Rightarrow> 'r interface_handler \<Rightarrow> byte list \<times> 'r interface_handler" where
  "interface_interrupt_in rd h =
     (let (bs, t) = handle_interrupt_in rd (handler_transport h)
      in (bs, h\<lparr>handler_transport := t\<rparr>))"

definition interface_handle_urb ::
    "usb_crate \<Rightarrow> 'r nfc_reader \<Rightarrow> usb_endpoint \<Rightarrow> u32 \<Rightarrow> setup_packet \<Rightarrow> byte list
      \<Rightarrow> 'r interface_handler \<Rightarrow> (byte list, io_error) result \<times> 'r interface_handler" where
  "interface_handle_urb usb rd ep transfer_buffer_length packet req h =
     (if is_ep0 usb ep then
        let (res, t) = handle_control_request rd (setup_request_type packet) (setup_request packet)
                         (setup_value packet) (handler_transport h)
        in (res, h\<lparr>handler_transport := t\<rparr>)
      else if ep_direction usb ep = Direction_Out \<and> ep_address ep = CCID_BULK_OUT_ENDPOINT then
        interface_bulk_out rd req h
      else if ep_direction usb ep = Direction_In \<and> ep_address ep = CCID_BULK_IN_ENDPOINT then
        let (bs, h') = interface_bulk_in (unat transfer_buffer_length) h in (Ok bs, h')
      else if ep_direction usb ep = Direction_In \<and> ep_address ep = CCID_INTERRUPT_IN_ENDPOINT then
        let (bs, h') = interface_interrupt_in rd h in (Ok bs, h')
      else (Ok [], h))"

subsection \<open>The device\<close>

text \<open>What \<open>build_virtual_ccid_device\<close> hands to the crate: the handlers and every field it sets.\<close>

record 'r virtual_device =
  dev_handler :: device_handler
  intf_handler :: "'r interface_handler"
  intf_class :: byte
  intf_subclass :: byte
  intf_protocol :: byte
  intf_name :: string
  intf_endpoints :: "usb_endpoint list"
  usb_version_major :: byte
  usb_version_minor :: byte
  dev_speed :: u32
  dev_bus_id :: string
  dev_bus_num :: u32
  dev_dev_num :: u32
  dev_path :: string
  dev_vendor_id :: u16
  dev_product_id :: u16
  dev_class :: byte
  dev_subclass :: byte
  dev_protocol :: byte
  manufacturer_name :: string
  product_name :: string
  serial_number :: string

definition build_virtual_ccid_device :: "usb_crate \<Rightarrow> 'r bridge \<Rightarrow> 'r virtual_device" where
  "build_virtual_ccid_device usb b =
     \<lparr>dev_handler = default_device_handler,
      intf_handler = new_interface_handler b,
      intf_class = CCID_INTERFACE_CLASS,
      intf_subclass = CCID_INTERFACE_SUBCLASS,
      intf_protocol = CCID_INTERFACE_PROTOCOL,
      intf_name = ''Virtual CCID Reader'',
      intf_endpoints = endpoints usb,
      usb_version_major = 2,
      usb_version_minor = 0,
      dev_speed = speed_full usb,
      dev_bus_id = ''1-1'',
      dev_bus_num = 1,
      dev_dev_num = 2,
      dev_path = ''/sys/bus/usb/0/0'',
      dev_vendor_id = 0xffff,
      dev_product_id = 0x0001,
      dev_class = 0x00,
      dev_subclass = 0x00,
      dev_protocol = 0x00,
      manufacturer_name = ''vusbipd-ccid'',
      product_name = ''Virtual CCID over USB/IP'',
      serial_number = ''0123456789abcdef''\<rparr>"

subsection \<open>What the bridge goes through\<close>

text \<open>
  Every operation of the transport changes the bridge only by commands and by presence refreshes:
  \<open>bridge_path\<close> is a sequence of them.
\<close>

inductive bridge_path :: "'r nfc_reader \<Rightarrow> 'r bridge \<Rightarrow> 'r bridge \<Rightarrow> bool" for rd b0 where
  path_start: "bridge_path rd b0 b0"
| path_command: "bridge_path rd b0 b \<Longrightarrow> handle_command rd c b = (resp, b') \<Longrightarrow> bridge_path rd b0 b'"
| path_refresh: "bridge_path rd b0 b \<Longrightarrow> refresh_card_presence rd b = (res, b') \<Longrightarrow> bridge_path rd b0 b'"

lemma bridge_path_trans: "bridge_path rd b1 b2 \<Longrightarrow> bridge_path rd b0 b1 \<Longrightarrow> bridge_path rd b0 b2"
  by (induction rule: bridge_path.induct) (auto intro: bridge_path.intros)

lemmas path_single = path_command [OF path_start] path_refresh [OF path_start]

lemma finish_abort_path: "bridge_path rd (bridge t) (bridge (snd (finish_abort rd slot seq t)))"
  by (auto simp: finish_abort_def Let_def intro: path_start path_single(1)
      split: prod.splits option.splits simp del: handle_command.simps)

lemma process_command_path: "bridge_path rd (bridge t) (bridge (snd (process_command rd c t)))"
proof (cases "control_abort t")
  case (Some p)
  then show ?thesis
    using finish_abort_path [of rd t "fst p" "snd p"]
    by (auto simp: process_command_def queue_aborted_response_def Let_def
        intro: path_start split: prod.splits)
next
  case None
  obtain resp b where h: "handle_command rd c (bridge t) = (resp, b)"
    by (cases "handle_command rd c (bridge t)")
  then show ?thesis
    using None path_single(1) [OF h]
    by (cases c) (auto simp: process_command_def Let_def intro: path_start split: option.split
        simp del: handle_command.simps)
qed

lemma process_frames_path: "bridge_path rd (bridge t) (bridge (snd (process_frames rd t)))"
proof (induction rd t rule: process_frames.induct)
  case (1 rd t)
  obtain res t1 where take: "try_take_complete_frame t = (res, t1)"
    by (cases "try_take_complete_frame t")
  then have t1: "bridge t1 = bridge t"
    by (auto simp: try_take_complete_frame_def Let_def split: if_splits option.splits)
  show ?case
  proof (cases "\<exists>frame. res = Ok (Some frame)")
    case False
    then show ?thesis
      using take t1 by (subst process_frames.simps) (auto intro: path_start split: sum.splits option.splits)
  next
    case True
    then obtain frame where res: "res = Ok (Some frame)" by blast
    obtain fres t2 where frame: "process_frame rd frame t1 = (fres, t2)"
      by (cases "process_frame rd frame t1")
    have path: "bridge_path rd (bridge t) (bridge t2)"
    proof (cases "decode frame")
      case (Inl e)
      then show ?thesis using frame t1 by (auto simp: process_frame_def intro: path_start)
    next
      case (Inr c)
      then show ?thesis
        using frame t1 process_command_path [of rd t1 c] by (simp add: process_frame_def)
    qed
    show ?thesis
    proof (cases fres)
      case (Inl e)
      then show ?thesis
        using take res frame path by (subst process_frames.simps) simp
    next
      case (Inr u)
      then have "bridge_path rd (bridge t2) (bridge (snd (process_frames rd t2)))"
        using 1 [OF take [symmetric] res refl frame [symmetric]] by blast
      then show ?thesis
        using take res frame Inr path
        by (subst process_frames.simps) (auto intro: bridge_path_trans)
    qed
  qed
qed

lemma handle_bulk_out_path: "bridge_path rd (bridge t) (bridge (snd (handle_bulk_out rd bs t)))"
  using process_frames_path [of rd "update_state (t\<lparr>pending_out_buffer := pending_out_buffer t @ bs\<rparr>)"]
  by (simp add: handle_bulk_out_def)

lemma handle_bulk_in_path: "bridge (snd (handle_bulk_in n t)) = bridge t"
  by (simp add: handle_bulk_in_def Let_def split: list.splits)

lemma pop_interrupt_bridge [simp]: "bridge (snd (pop_interrupt t)) = bridge t"
  by (simp add: pop_interrupt_def split: list.splits)

lemma handle_interrupt_in_path: "bridge_path rd (bridge t) (bridge (snd (handle_interrupt_in rd t)))"
  by (auto simp: handle_interrupt_in_def Let_def intro: path_start path_single(2)
      split: prod.splits sum.splits)

lemma handle_control_path:
  "bridge_path rd (bridge t) (bridge (snd (handle_control_request rd rt rq v t)))"
  using finish_abort_path [of rd t]
  by (auto simp: handle_control_request_def expect_abort_def Let_def intro: path_start)

lemma interface_path:
  "bridge_path rd (bridge (handler_transport h))
     (bridge (handler_transport (snd (interface_handle_urb usb rd ep len packet req h))))"
  using handle_bulk_out_path [of rd "handler_transport h" req]
    handle_interrupt_in_path [of rd "handler_transport h"]
    handle_control_path [of rd "handler_transport h" "setup_request_type packet" "setup_request packet"
      "setup_value packet"] handle_bulk_in_path [of "unat len" "handler_transport h"]
  by (auto simp: interface_handle_urb_def interface_bulk_out_def interface_bulk_in_def
      interface_interrupt_in_def Let_def try_then_def intro: path_start
      split: prod.splits sum.splits)

lemma interface_inv:
  assumes "transport_inv (handler_transport h)"
    and "interface_handle_urb usb rd ep len packet req h = (res, h')"
  shows "transport_inv (handler_transport h')"
  using assms
  by (auto simp: interface_handle_urb_def interface_bulk_out_def interface_bulk_in_def
      interface_interrupt_in_def Let_def try_then_def
      split: prod.splits sum.splits if_splits
      dest: transport_inv_handle_bulk_out transport_inv_handle_bulk_in
        transport_inv_handle_interrupt_in transport_inv_handle_control_request)

context reader_contract
begin

lemma bridge_path_ok: "bridge_path rd b0 b \<Longrightarrow> bridge_ok rd ok b0 \<Longrightarrow> bridge_ok rd ok b"
  by (induction rule: bridge_path.induct) (blast intro: bridge_ok_handle_command bridge_ok_refresh)+

end

subsection \<open>Sessions of the device\<close>

text \<open>
  What happens to the device: a control request to the device, a URB for the interface, or a panic
  elsewhere that poisons the lock of the bridge.
\<close>

inductive device_step :: "usb_crate \<Rightarrow> 'r nfc_reader \<Rightarrow> 'r virtual_device \<Rightarrow> 'r virtual_device \<Rightarrow> bool"
  for usb rd where
  device_request: "device_handle_urb usb len packet req (dev_handler d) = (res, h) \<Longrightarrow>
    device_step usb rd d (d\<lparr>dev_handler := h\<rparr>)"
| interface_urb: "interface_handle_urb usb rd ep len packet req (intf_handler d) = (res, h) \<Longrightarrow>
    device_step usb rd d (d\<lparr>intf_handler := h\<rparr>)"
| lock_poisoned: "handler_transport (intf_handler d) = t \<Longrightarrow>
    device_step usb rd d (d\<lparr>intf_handler := \<lparr>handler_transport = t\<lparr>poisoned := True\<rparr>\<rparr>\<rparr>)"

inductive device_reach :: "usb_crate \<Rightarrow> 'r nfc_reader \<Rightarrow> 'r virtual_device \<Rightarrow> 'r virtual_device \<Rightarrow> bool"
  for usb rd d0 where
  reach_start: "device_reach usb rd d0 d0"
| reach_step: "device_reach usb rd d0 d \<Longrightarrow> device_step usb rd d d' \<Longrightarrow> device_reach usb rd d0 d'"

inductive_cases device_stepE: "device_step usb rd d d'"

abbreviation dev_transport :: "'r virtual_device \<Rightarrow> 'r transport" where
  "dev_transport d \<equiv> handler_transport (intf_handler d)"

lemma transport_inv_poisoned: "transport_inv t \<Longrightarrow> transport_inv (t\<lparr>poisoned := True\<rparr>)"
  by (simp add: transport_inv_def core_inv_def queues_inv_def framing_inv_def abort_inv_def)

lemma device_step_inv:
  "device_step usb rd d d' \<Longrightarrow> transport_inv (dev_transport d) \<Longrightarrow> transport_inv (dev_transport d')"
  by (erule device_stepE) (auto intro: interface_inv transport_inv_poisoned)

lemma interface_path_eq:
  "interface_handle_urb usb rd ep len packet req h = (res, h') \<Longrightarrow>
     bridge_path rd (bridge (handler_transport h)) (bridge (handler_transport h'))"
  using interface_path [of rd h usb ep len packet req] by simp

lemma device_step_path: "device_step usb rd d d' \<Longrightarrow>
    bridge_path rd (bridge (dev_transport d)) (bridge (dev_transport d'))"
  by (erule device_stepE) (auto intro: path_start interface_path_eq)

lemma device_reach_inv:
  "device_reach usb rd d0 d \<Longrightarrow> transport_inv (dev_transport d0) \<Longrightarrow> transport_inv (dev_transport d)"
  by (induction rule: device_reach.induct) (auto intro: device_step_inv)

lemma device_reach_path:
  "device_reach usb rd d0 d \<Longrightarrow> bridge_path rd (bridge (dev_transport d0)) (bridge (dev_transport d))"
  by (induction rule: device_reach.induct) (auto intro: path_start bridge_path_trans device_step_path)

lemma build_transport [simp]: "dev_transport (build_virtual_ccid_device usb b) = new_transport b"
  by (simp add: build_virtual_ccid_device_def new_interface_handler_def)

lemma build_intf_handler:
  "intf_handler (build_virtual_ccid_device usb b) = \<lparr>handler_transport = new_transport b\<rparr>"
  by (simp add: build_virtual_ccid_device_def new_interface_handler_def)

lemma new_transport_bridge [simp]: "bridge (new_transport b) = b"
  by (simp add: new_transport_def)

context reader_contract
begin

lemma device_session:
  assumes "ok r" "device_reach usb rd (build_virtual_ccid_device usb (new_bridge rd r)) d"
  shows "transport_inv (dev_transport d) \<and> bridge_ok rd ok (bridge (dev_transport d))"
  using device_reach_inv [OF assms(2)] device_reach_path [OF assms(2)] bridge_ok_new [OF assms(1)]
  by (simp add: transport_inv_new bridge_inv_new bridge_path_ok)

end

subsection \<open>Remote wakeup\<close>

text \<open>The requests that set and clear the feature, and whether a history of requests leaves it set.\<close>

definition sets_wakeup :: "setup_packet \<Rightarrow> bool" where
  "sets_wakeup s \<longleftrightarrow> setup_request_type s = 0x00 \<and> setup_request s = 3 \<and> setup_value s = 1"

definition clears_wakeup :: "setup_packet \<Rightarrow> bool" where
  "clears_wakeup s \<longleftrightarrow> setup_request_type s = 0x00 \<and> setup_request s = 1 \<and> setup_value s = 1"

fun wakeup_requested :: "setup_packet list \<Rightarrow> bool" where
  "wakeup_requested [] = False"
| "wakeup_requested (s # ss) =
     (wakeup_requested ss \<or> sets_wakeup s \<and> list_all (\<lambda>s. \<not> clears_wakeup s) ss)"

definition device_run ::
    "usb_crate \<Rightarrow> (u32 \<times> setup_packet \<times> byte list) list \<Rightarrow> device_handler \<Rightarrow> device_handler" where
  "device_run usb rs h = foldl (\<lambda>h (len, packet, req). snd (device_handle_urb usb len packet req h)) h rs"

lemma wakeup_requested_snoc:
  "wakeup_requested (ss @ [s]) \<longleftrightarrow> sets_wakeup s \<or> wakeup_requested ss \<and> \<not> clears_wakeup s"
  by (induction ss) (auto simp: sets_wakeup_def clears_wakeup_def)

lemma device_handle_urb_wakeup:
  assumes "usb_standard usb"
  shows "remote_wakeup_enabled (snd (device_handle_urb usb len s req h)) \<longleftrightarrow>
    sets_wakeup s \<or> remote_wakeup_enabled h \<and> \<not> clears_wakeup s"
  using assms
  by (auto simp: usb_standard_def device_handle_urb_def sets_wakeup_def clears_wakeup_def
      USB_FEATURE_REMOTE_WAKEUP_def Let_def)

lemma device_run_wakeup:
  assumes "usb_standard usb"
  shows "remote_wakeup_enabled (device_run usb rs default_device_handler) \<longleftrightarrow>
    wakeup_requested (map (\<lambda>(len, packet, req). packet) rs)"
proof (induction rs rule: rev_induct)
  case Nil
  then show ?case by (simp add: device_run_def default_device_handler_def)
next
  case (snoc r rs)
  then show ?case
    using device_handle_urb_wakeup [OF assms]
    by (cases r) (simp add: device_run_def wakeup_requested_snoc)
qed

text \<open>A crate with the codes of the USB 2.0 specification, for the witnesses.\<close>

definition standard_usb :: usb_crate where
  "standard_usb =
     \<lparr>std_get_status = 0, std_clear_feature = 1, std_set_feature = 3, std_get_configuration = 8,
      attr_bulk = 2, attr_interrupt = 3, speed_full = 2,
      is_ep0 = \<lambda>ep. ep_address ep AND 0x0f = 0,
      ep_direction = \<lambda>ep. if ep_address ep AND 0x80 \<noteq> 0 then Direction_In else Direction_Out,
      setup_debug = \<lambda>s. ''SetupPacket''\<rparr>"

lemma standard_usb_standard: "usb_standard standard_usb"
  by (simp add: usb_standard_def standard_usb_def endpoints_def endpoint_defs)

subsection \<open>Properties\<close>

text \<open>C33: \<open>GET_STATUS\<close> tells whether remote wakeup was asked for: after any history of control
  requests it answers the two status bytes, cut to what the host asked for, with the wakeup bit
  set exactly when the feature was set and not cleared since.\<close>

theorem remote_wakeup_tracked:
  assumes "usb_standard usb" "setup_request_type s = 0x80" "setup_request s = 0"
  shows "fst (device_handle_urb usb len s req (device_run usb rs default_device_handler)) =
    Ok (take (min (unat len) (unat (setup_length s)))
      [if wakeup_requested (map (\<lambda>(len, packet, req). packet) rs) then 0x02 else 0x00, 0x00])"
  using assms device_run_wakeup [OF assms(1), of rs]
  by (simp add: usb_standard_def device_handle_urb_def limited_response_def u16_to_le_def)

theorem remote_wakeup_tracked_witness:
  "fst (device_handle_urb standard_usb 64 \<lparr>setup_request_type = 0x80, setup_request = 0,
        setup_value = 0, setup_index = 0, setup_length = 2\<rparr> []
      (device_run standard_usb [(0, \<lparr>setup_request_type = 0x00, setup_request = 3, setup_value = 1,
        setup_index = 0, setup_length = 0\<rparr>, [])] default_device_handler)) = Ok [0x02, 0x00]"
  using remote_wakeup_tracked [OF standard_usb_standard, of "\<lparr>setup_request_type = 0x80,
      setup_request = 0, setup_value = 0, setup_index = 0, setup_length = 2\<rparr>" 64 "[]"
      "[(0, \<lparr>setup_request_type = 0x00, setup_request = 3, setup_value = 1,
        setup_index = 0, setup_length = 0\<rparr>, [])]"]
  by (simp add: sets_wakeup_def)

text \<open>The class descriptor tells the host the truth about the transport: it is as long as it says
  and has the CCID type, the clock and data rates are those the control requests return, the
  protocol is the T=1 of the parameters with their IFSD, and no frame within the announced maximum
  message length is refused as oversized.\<close>

lemma descriptor_agrees_with_transport:
  "length class_specific_descriptor = unat (class_specific_descriptor ! 0)
   \<and> class_specific_descriptor ! 1 = 0x21
   \<and> take 4 (drop 10 class_specific_descriptor) = CCID_CLOCK_FREQUENCY_KHZ
   \<and> take 4 (drop 19 class_specific_descriptor) = CCID_DATA_RATE_BPS
   \<and> class_specific_descriptor ! 6 = push_bit (unat T1_PROTOCOL_NUM) 1
   \<and> class_specific_descriptor ! 28 = DEFAULT_T1_PARAMETERS ! 5
   \<and> take 4 (drop 44 class_specific_descriptor) = u32_to_le (of_nat CCID_MAX_MESSAGE_LENGTH)
   \<and> (length buf \<le> CCID_MAX_MESSAGE_LENGTH \<and> frame_payload_len buf \<le> length buf
        \<longrightarrow> \<not> frame_oversize buf)"
  by (simp add: class_specific_descriptor_def DEVICE_CLOCK_FREQUENCY_KHZ_def
      DEVICE_DATA_RATE_BPS_def CCID_CLOCK_FREQUENCY_KHZ_def CCID_DATA_RATE_BPS_def
      CCID_FUNCTIONAL_DESCRIPTOR_TYPE_def T1_PROTOCOL_NUM_def DEFAULT_T1_PARAMETERS_def
      CCID_MAX_MESSAGE_LENGTH_def u32_to_le_def frame_oversize_def)

end
