(* ===== verification/Usb_Host.thy ===== *)
theory Usb_Host
  imports Ccid_Host Usb_Device
begin

text \<open>
  The host's side at the USB interface: a session of transactions whose transfers are URBs for the
  endpoints that the device declares. A write is one bulk OUT URB with a command's frame; a read
  is a sequence of bulk IN URBs of a fixed buffer size that ends with the first short packet. The
  crate decides the direction and kind of an endpoint, so nothing but the hypothesis
  \<open>usb_standard\<close> makes a read end: it is a partial function, and its result is \<open>None\<close> when it does not.
\<close>

definition no_setup :: setup_packet where
  "no_setup = \<lparr>setup_request_type = 0, setup_request = 0, setup_value = 0, setup_index = 0,
     setup_length = 0\<rparr>"

definition urb_write ::
    "usb_crate \<Rightarrow> 'r nfc_reader \<Rightarrow> byte list \<Rightarrow> 'r interface_handler
      \<Rightarrow> (byte list, io_error) result \<times> 'r interface_handler" where
  "urb_write usb rd frame h =
     interface_handle_urb usb rd (endpoints usb ! 0) (of_nat (length frame)) no_setup frame h"

partial_function (option) urb_read ::
    "usb_crate \<Rightarrow> 'r nfc_reader \<Rightarrow> u32 \<Rightarrow> 'r interface_handler
      \<Rightarrow> (byte list \<times> 'r interface_handler) option" where
  "urb_read usb rd n h =
     (case interface_handle_urb usb rd (endpoints usb ! 1) n no_setup [] h of
        (Err e, h1) \<Rightarrow> None
      | (Ok chunk, h1) \<Rightarrow>
          if n = 0 \<or> length chunk < unat n then Some (chunk, h1)
          else Option.bind (urb_read usb rd n h1) (\<lambda>(rest, h2). Some (chunk @ rest, h2)))"

primrec urb_session ::
    "usb_crate \<Rightarrow> 'r nfc_reader \<Rightarrow> u32 \<Rightarrow> ccid_command list \<Rightarrow> 'r interface_handler
      \<Rightarrow> (ccid_response option list \<times> 'r interface_handler) option" where
  "urb_session usb rd n [] h = Some ([], h)"
| "urb_session usb rd n (c # cs) h =
     (case urb_write usb rd (encode_command c) h of
        (Err e, h1) \<Rightarrow> None
      | (Ok _, h1) \<Rightarrow>
          Option.bind (urb_read usb rd n h1) (\<lambda>(frame, h2).
            Option.bind (urb_session usb rd n cs h2) (\<lambda>(rs, h3).
              Some (decode_response frame # rs, h3))))"

subsection \<open>URBs of the declared endpoints\<close>

lemma urb_bulk_out:
  assumes "usb_standard usb" "handle_bulk_out rd frame (handler_transport h) = (Ok u, t)"
  shows "urb_write usb rd frame h = (Ok [], h\<lparr>handler_transport := t\<rparr>)"
  using assms
  by (simp add: usb_standard_def urb_write_def interface_handle_urb_def endpoints_def endpoint_defs
      interface_bulk_out_def)

lemma urb_bulk_in:
  assumes "usb_standard usb" "handle_bulk_in (unat n) (handler_transport h) = (chunk, t)"
  shows "interface_handle_urb usb rd (endpoints usb ! 1) n packet req h = (Ok chunk, h\<lparr>handler_transport := t\<rparr>)"
  using assms
  by (simp add: usb_standard_def interface_handle_urb_def endpoints_def endpoint_defs interface_bulk_in_def)

lemma urb_read_transfer:
  assumes "usb_standard usb" "read_transfer (unat n) t = (bs, t')"
  shows "urb_read usb rd n \<lparr>handler_transport = t\<rparr> = Some (bs, \<lparr>handler_transport = t'\<rparr>)"
  using assms(2)
proof (induction "unat n" t arbitrary: bs t' rule: read_transfer.induct)
  case (1 t)
  obtain chunk t1 where chunk: "handle_bulk_in (unat n) t = (chunk, t1)"
    by (cases "handle_bulk_in (unat n) t")
  have urb: "interface_handle_urb usb rd (endpoints usb ! 1) n no_setup [] \<lparr>handler_transport = t\<rparr>
      = (Ok chunk, \<lparr>handler_transport = t1\<rparr>)"
    using urb_bulk_in [OF assms(1), of n "\<lparr>handler_transport = t\<rparr>"] chunk by simp
  show ?case
  proof (cases "n = 0 \<or> length chunk < unat n")
    case True
    then show ?thesis
      using "1.prems" chunk urb
      by (subst urb_read.simps) (auto simp: read_transfer.simps [of "unat n" t] unat_eq_0)
  next
    case False
    obtain rest t2 where rest: "read_transfer (unat n) t1 = (rest, t2)"
      by (cases "read_transfer (unat n) t1")
    have "urb_read usb rd n \<lparr>handler_transport = t1\<rparr> = Some (rest, \<lparr>handler_transport = t2\<rparr>)"
      using "1.hyps" [OF chunk [symmetric] refl] False rest by (simp add: unat_eq_0)
    moreover have "bs = chunk @ rest" "t' = t2"
      using "1.prems" chunk rest False by (auto simp: read_transfer.simps [of "unat n" t] unat_eq_0)
    ultimately show ?thesis
      using False urb by (subst urb_read.simps) simp
  qed
qed

text \<open>One transaction: a write and a read that returns the frame of the bridge's response.\<close>

lemma urb_transaction:
  assumes "usb_standard usb" "0 < n" "host_ready t" "sendable c" "\<not> is_abort c"
    and "handle_command rd c (bridge t) = (Some resp, b)" "length (response_payload resp) < 2 ^ 32"
  obtains t1 frame t2 where
    "urb_write usb rd (encode_command c) \<lparr>handler_transport = t\<rparr> = (Ok [], \<lparr>handler_transport = t1\<rparr>)"
    "urb_read usb rd n \<lparr>handler_transport = t1\<rparr> = Some (frame, \<lparr>handler_transport = t2\<rparr>)"
    "decode_response frame = Some resp" "bridge t2 = b" "host_ready t2"
    "slot_present t2 = card_present b"
    "pending_interrupt_frames t2 = pending_interrupt_frames t @ [slot_note (slot_present t) (card_present b)]"
proof -
  have n: "0 < unat n"
    using assms(2) by (simp add: unat_gt_0 word_neq_0_conv)
  from transact_refines [OF assms(3-5) n assms(6,7)] obtain t2 where
    t2: "transact rd (unat n) c t = (Some resp, t2)" "bridge t2 = b" "host_ready t2"
      "slot_present t2 = card_present b"
      "pending_interrupt_frames t2 = pending_interrupt_frames t @ [slot_note (slot_present t) (card_present b)]"
    by blast
  obtain t1 where t1: "handle_bulk_out rd (encode_command c) t = (Ok (), t1)"
    using handle_bulk_out_one [of t c rd] assms(3,4) by (auto simp: host_ready_def)
  obtain frame where frame: "read_transfer (unat n) t1 = (frame, t2)" "decode_response frame = Some resp"
    using t2(1) t1 by (auto simp: transact_def split: prod.splits)
  have "urb_write usb rd (encode_command c) \<lparr>handler_transport = t\<rparr> = (Ok [], \<lparr>handler_transport = t1\<rparr>)"
    using urb_bulk_out [OF assms(1), of rd "encode_command c" "\<lparr>handler_transport = t\<rparr>"] t1 by simp
  then show ?thesis
    using that urb_read_transfer [OF assms(1) frame(1)] frame(2) t2(2-5) by blast
qed

lemma urb_session_refines:
  assumes "usb_standard usb" "answers_fit rd P" "0 < n"
  shows "host_ready t \<Longrightarrow> P (reader (bridge t)) \<Longrightarrow> list_all (\<lambda>c. sendable c \<and> \<not> is_abort c) cs \<Longrightarrow>
    \<exists>t'. urb_session usb rd n cs \<lparr>handler_transport = t\<rparr> =
        Some (map Some (fst (bridge_session rd cs (bridge t))), \<lparr>handler_transport = t'\<rparr>)
      \<and> bridge t' = snd (bridge_session rd cs (bridge t)) \<and> host_ready t'"
proof (induction cs arbitrary: t)
  case (Cons c cs)
  obtain resp b where h: "handle_command rd c (bridge t) = (Some resp, b)"
    using handle_command_returns [of c rd "bridge t"] Cons.prems(3) by (auto simp: sendable_def)
  have c: "sendable c" "\<not> is_abort c"
    using Cons.prems(3) by simp_all
  have "bridge_inv (bridge t)"
    using Cons.prems(1) by (simp add: host_ready_def transport_inv_defs)
  then have "length (response_payload resp) < 2 ^ 32"
    using response_fits [OF assms(2) Cons.prems(2) _ h] by blast
  from urb_transaction [OF assms(1,3) Cons.prems(1) c h this] obtain t1 frame t2 where
    step: "urb_write usb rd (encode_command c) \<lparr>handler_transport = t\<rparr> = (Ok [], \<lparr>handler_transport = t1\<rparr>)"
      "urb_read usb rd n \<lparr>handler_transport = t1\<rparr> = Some (frame, \<lparr>handler_transport = t2\<rparr>)"
    and frame: "decode_response frame = Some resp" and t2: "bridge t2 = b" "host_ready t2" .
  have "P (reader (bridge t2))"
    using fits_stay [OF assms(2) Cons.prems(2) h] t2(1) by simp
  from Cons.IH [OF t2(2) this] Cons.prems(3) obtain t' where
    "urb_session usb rd n cs \<lparr>handler_transport = t2\<rparr> =
       Some (map Some (fst (bridge_session rd cs b)), \<lparr>handler_transport = t'\<rparr>)"
    "bridge t' = snd (bridge_session rd cs b)" "host_ready t'"
    using t2(1) by auto
  then show ?case
    using step frame h by (auto split: prod.split)
qed simp

text \<open>The commands and the answers of a session of APDUs.\<close>

definition xfr_command :: "byte \<times> byte list \<Rightarrow> ccid_command" where
  "xfr_command qa = XfrBlock 0 (fst qa) 0 0 (snd qa)"

definition data_answer :: "byte \<Rightarrow> byte list \<Rightarrow> ccid_response" where
  "data_answer seq payload = DataBlock 0 seq (status_ok Active) 0 0 payload"

subsection \<open>Property\<close>

text \<open>The device is transparent at the USB interface. A session of URBs, for any buffer size,
  never stalls and always ends; the host receives for every command exactly the response of the
  bridge's command handler, in order, and the bridge ends in the state the handler alone would leave.\<close>

lemma usb_session_is_transparent:
  assumes "usb_standard usb" "answers_fit rd P" "0 < n"
    and "host_ready (handler_transport h)" "P (reader (bridge (handler_transport h)))"
    and "list_all (\<lambda>c. sendable c \<and> \<not> is_abort c) cs"
  shows "\<exists>h'. urb_session usb rd n cs h =
      Some (map Some (fst (bridge_session rd cs (bridge (handler_transport h)))), h')
    \<and> bridge (handler_transport h') = snd (bridge_session rd cs (bridge (handler_transport h)))
    \<and> host_ready (handler_transport h')"
  using urb_session_refines [OF assms(1-6)] by (cases h) auto

lemma usb_session_is_transparent_witness:
  "\<exists>h'. urb_session standard_usb (scripted (Ok ()) (Ok [0x90, 0x00])) 64
        [IccPowerOn 0 1 0, XfrBlock 0 2 0 0 [0x00, 0xa4, 0x04, 0x00]]
        \<lparr>handler_transport = idle_transport []\<rparr> =
      Some (map Some (fst (bridge_session (scripted (Ok ()) (Ok [0x90, 0x00]))
        [IccPowerOn 0 1 0, XfrBlock 0 2 0 0 [0x00, 0xa4, 0x04, 0x00]] (bridge (idle_transport [])))), h')"
proof -
  have fit: "answers_fit (scripted (Ok ()) (Ok [0x90, 0x00])) (\<lambda>s. s = [])"
    by (auto simp: answers_fit_def reader_call_def scripted_def)
  have ready: "host_ready (idle_transport [])" "reader (bridge (idle_transport [])) = []"
    by (simp_all add: idle_transport_def host_ready_new bridge_inv_new)
      (simp add: new_transport_def new_bridge_def)
  show ?thesis
    using usb_session_is_transparent [OF standard_usb_standard fit, of 64
        "\<lparr>handler_transport = idle_transport []\<rparr>"
        "[IccPowerOn 0 1 0, XfrBlock 0 2 0 0 [0x00, 0xa4, 0x04, 0x00]]"] ready
    by (auto simp: sendable_iff overruns_select_def is_abort_def CCID_MAX_MESSAGE_LENGTH_def)
qed

end
