(* ===== verification/Slot_Device.thy ===== *)
theory Slot_Device
  imports Usb_Host
begin

text \<open>
  The whole device as a host may understand it: a slot with the command handler of the bridge, the
  presence it last reported and a queue of notifications. Frames, packets, endpoints and the byte
  encodings are gone. The virtual device implements it for any interleaving of transactions and
  notification polls.
\<close>

subsection \<open>The abstract device\<close>

datatype host_event = Transaction ccid_command | Notification_Poll

datatype device_answer = Response "ccid_response option" | Notification "byte list"

record 'r slot_device =
  sd_bridge :: "'r bridge"
  sd_present :: bool
  sd_notes :: "byte list list"

definition sd_report :: "'r bridge \<Rightarrow> bool \<Rightarrow> 'r slot_device \<Rightarrow> 'r slot_device" where
  "sd_report b now s =
     \<lparr>sd_bridge = b, sd_present = now, sd_notes = sd_notes s @ [slot_note (sd_present s) now]\<rparr>"

fun slot_device_step :: "'r nfc_reader \<Rightarrow> host_event \<Rightarrow> 'r slot_device \<Rightarrow> device_answer \<times> 'r slot_device" where
  "slot_device_step rd (Transaction c) s =
     (let (resp, b) = handle_command rd c (sd_bridge s)
      in (Response resp, sd_report b (card_present b) s))"
| "slot_device_step rd Notification_Poll s =
     (let (res, b) = refresh_card_presence rd (sd_bridge s);
          s1 = (case res of Ok now \<Rightarrow> sd_report b now s | Err _ \<Rightarrow> s\<lparr>sd_bridge := b\<rparr>)
      in (Notification (if sd_notes s1 = [] then [] else hd (sd_notes s1)),
          s1\<lparr>sd_notes := tl (sd_notes s1)\<rparr>))"

primrec slot_device_run ::
    "'r nfc_reader \<Rightarrow> host_event list \<Rightarrow> 'r slot_device \<Rightarrow> device_answer list \<times> 'r slot_device" where
  "slot_device_run rd [] s = ([], s)"
| "slot_device_run rd (e # es) s =
     (let (a, s1) = slot_device_step rd e s; (as, s2) = slot_device_run rd es s1 in (a # as, s2))"

definition slot_device_of :: "'r transport \<Rightarrow> 'r slot_device" where
  "slot_device_of t =
     \<lparr>sd_bridge = bridge t, sd_present = slot_present t, sd_notes = pending_interrupt_frames t\<rparr>"

subsection \<open>The host's events as URBs\<close>

fun urb_event ::
    "usb_crate \<Rightarrow> 'r nfc_reader \<Rightarrow> u32 \<Rightarrow> host_event \<Rightarrow> 'r interface_handler
      \<Rightarrow> (device_answer \<times> 'r interface_handler) option" where
  "urb_event usb rd n (Transaction c) h =
     (case urb_write usb rd (encode_command c) h of
        (Err e, h1) \<Rightarrow> None
      | (Ok _, h1) \<Rightarrow>
          Option.bind (urb_read usb rd n h1) (\<lambda>(frame, h2). Some (Response (decode_response frame), h2)))"
| "urb_event usb rd n Notification_Poll h =
     (case interface_handle_urb usb rd (endpoints usb ! 2) 8 no_setup [] h of
        (Err e, h1) \<Rightarrow> None
      | (Ok frame, h1) \<Rightarrow> Some (Notification frame, h1))"

primrec urb_events ::
    "usb_crate \<Rightarrow> 'r nfc_reader \<Rightarrow> u32 \<Rightarrow> host_event list \<Rightarrow> 'r interface_handler
      \<Rightarrow> (device_answer list \<times> 'r interface_handler) option" where
  "urb_events usb rd n [] h = Some ([], h)"
| "urb_events usb rd n (e # es) h =
     Option.bind (urb_event usb rd n e h) (\<lambda>(a, h1).
       Option.bind (urb_events usb rd n es h1) (\<lambda>(as, h2). Some (a # as, h2)))"

fun event_sendable :: "host_event \<Rightarrow> bool" where
  "event_sendable (Transaction c) \<longleftrightarrow> sendable c \<and> \<not> is_abort c"
| "event_sendable Notification_Poll \<longleftrightarrow> True"

subsection \<open>The refinement\<close>

lemma urb_interrupt_in:
  assumes "usb_standard usb" "handle_interrupt_in rd t = (frame, t')"
  shows "interface_handle_urb usb rd (endpoints usb ! 2) n packet req \<lparr>handler_transport = t\<rparr> =
    (Ok frame, \<lparr>handler_transport = t'\<rparr>)"
  using assms
  by (simp add: usb_standard_def interface_handle_urb_def endpoints_def endpoint_defs
      interface_interrupt_in_def)

lemma interrupt_in_step:
  assumes "\<not> poisoned t"
  shows "\<exists>frame t'. handle_interrupt_in rd t = (frame, t')
    \<and> slot_device_step rd Notification_Poll (slot_device_of t) = (Notification frame, slot_device_of t')
    \<and> bridge t' = snd (refresh_card_presence rd (bridge t)) \<and> \<not> poisoned t'
    \<and> control_abort t' = control_abort t \<and> pending_out_buffer t' = pending_out_buffer t
    \<and> pending_in_frames t' = pending_in_frames t"
proof -
  obtain res b where r: "refresh_card_presence rd (bridge t) = (res, b)"
    by (cases "refresh_card_presence rd (bridge t)")
  show ?thesis
  proof (cases res)
    case (Inl e)
    then show ?thesis
      using assms r
      by (cases "pending_interrupt_frames t")
        (simp_all add: handle_interrupt_in_def pop_interrupt_def slot_device_of_def)
  next
    case (Inr now)
    obtain f fs where fs: "pending_interrupt_frames t @ [slot_note (slot_present t) now] = f # fs"
      by (cases "pending_interrupt_frames t") auto
    let ?t = "update_slot_presence now (t\<lparr>bridge := b\<rparr>)"
    have "pending_interrupt_frames ?t = f # fs"
      by (simp add: notes_update_slot_presence fs)
    then show ?thesis
      using assms r Inr fs
      by (simp add: handle_interrupt_in_def pop_interrupt_def slot_device_of_def sd_report_def)
  qed
qed

lemma transaction_step:
  assumes "usb_standard usb" "answers_fit rd P" "0 < n" "host_ready t" "P (reader (bridge t))"
    and "sendable c" "\<not> is_abort c"
  shows "\<exists>a t'. urb_event usb rd n (Transaction c) \<lparr>handler_transport = t\<rparr> = Some (a, \<lparr>handler_transport = t'\<rparr>)
    \<and> slot_device_step rd (Transaction c) (slot_device_of t) = (a, slot_device_of t')
    \<and> host_ready t' \<and> P (reader (bridge t'))"
proof -
  obtain resp b where h: "handle_command rd c (bridge t) = (Some resp, b)"
    using handle_command_returns [of c rd "bridge t"] assms(6) by (auto simp: sendable_def)
  have "bridge_inv (bridge t)"
    using assms(4) by (simp add: host_ready_def transport_inv_defs)
  then have "length (response_payload resp) < 2 ^ 32"
    using response_fits [OF assms(2,5) _ h] by blast
  from urb_transaction [OF assms(1,3,4,6,7) h this] obtain t1 frame t2 where
    "urb_write usb rd (encode_command c) \<lparr>handler_transport = t\<rparr> = (Ok [], \<lparr>handler_transport = t1\<rparr>)"
    "urb_read usb rd n \<lparr>handler_transport = t1\<rparr> = Some (frame, \<lparr>handler_transport = t2\<rparr>)"
    "decode_response frame = Some resp" "bridge t2 = b" "host_ready t2" "slot_present t2 = card_present b"
    "pending_interrupt_frames t2 = pending_interrupt_frames t @ [slot_note (slot_present t) (card_present b)]" .
  then show ?thesis
    using h fits_stay [OF assms(2,5) h]
    by (intro exI [of _ "Response (Some resp)"] exI [of _ t2])
      (simp add: slot_device_of_def sd_report_def del: encode_command.simps handle_command.simps)
qed

lemma poll_step:
  assumes "usb_standard usb" "answers_fit rd P" "host_ready t" "P (reader (bridge t))"
  shows "\<exists>a t'. urb_event usb rd n Notification_Poll \<lparr>handler_transport = t\<rparr> = Some (a, \<lparr>handler_transport = t'\<rparr>)
    \<and> slot_device_step rd Notification_Poll (slot_device_of t) = (a, slot_device_of t')
    \<and> host_ready t' \<and> P (reader (bridge t'))"
proof -
  obtain frame t' where t': "handle_interrupt_in rd t = (frame, t')"
    "slot_device_step rd Notification_Poll (slot_device_of t) = (Notification frame, slot_device_of t')"
    "bridge t' = snd (refresh_card_presence rd (bridge t))" "\<not> poisoned t'" "control_abort t' = control_abort t"
    "pending_out_buffer t' = pending_out_buffer t" "pending_in_frames t' = pending_in_frames t"
    using interrupt_in_step [of t rd] assms(3) by (auto simp: host_ready_def)
  have "transport_inv t'"
    using transport_inv_handle_interrupt_in [OF _ t'(1)] assms(3) by (simp add: host_ready_def)
  then have "host_ready t'"
    using t'(4-7) assms(3) by (simp add: host_ready_def)
  moreover have "P (reader (bridge t'))"
    using refresh_calls [OF prod.collapse [symmetric], of rd "bridge t"] assms(2,4) t'(3)
    unfolding answers_fit_def by metis
  ultimately show ?thesis
    using t'(2) urb_interrupt_in [OF assms(1) t'(1)] by auto
qed

lemma urb_events_refine:
  assumes "usb_standard usb" "answers_fit rd P" "0 < n"
  shows "host_ready t \<Longrightarrow> P (reader (bridge t)) \<Longrightarrow> list_all event_sendable es \<Longrightarrow>
    \<exists>t'. urb_events usb rd n es \<lparr>handler_transport = t\<rparr> =
        Some (fst (slot_device_run rd es (slot_device_of t)), \<lparr>handler_transport = t'\<rparr>)
      \<and> slot_device_of t' = snd (slot_device_run rd es (slot_device_of t)) \<and> host_ready t'"
proof (induction es arbitrary: t)
  case (Cons e es)
  obtain a t1 where step: "urb_event usb rd n e \<lparr>handler_transport = t\<rparr> = Some (a, \<lparr>handler_transport = t1\<rparr>)"
    "slot_device_step rd e (slot_device_of t) = (a, slot_device_of t1)" "host_ready t1" "P (reader (bridge t1))"
  proof (cases e)
    case (Transaction c)
    then have "sendable c" "\<not> is_abort c"
      using Cons.prems(3) by simp_all
    then show ?thesis
      using that transaction_step [OF assms Cons.prems(1,2)] Transaction by blast
  next
    case Notification_Poll
    then show ?thesis
      using that poll_step [OF assms(1,2) Cons.prems(1,2)] by blast
  qed
  then show ?case
    using Cons.IH [OF step(3,4)] Cons.prems(3) by (auto split: prod.split)
qed simp

definition new_slot_device :: "'r bridge \<Rightarrow> 'r slot_device" where
  "new_slot_device b = \<lparr>sd_bridge = b, sd_present = False, sd_notes = []\<rparr>"

lemma slot_device_of_new: "slot_device_of (new_transport b) = new_slot_device b"
  by (simp add: slot_device_of_def new_slot_device_def new_transport_def)

text \<open>
  Notifications are delivered in the order in which they arose, so a host learns of a change only
  after it has polled for every older notification.
\<close>

lemma notes_delivered_in_order:
  "k \<le> length (sd_notes s) \<Longrightarrow>
    fst (slot_device_run rd (replicate k Notification_Poll) s) = map Notification (take k (sd_notes s))"
proof (induction k arbitrary: s)
  case (Suc k)
  then obtain f fs where fs: "sd_notes s = f # fs"
    by (cases "sd_notes s") auto
  obtain a s1 where step: "slot_device_step rd Notification_Poll s = (a, s1)"
    by (cases "slot_device_step rd Notification_Poll s")
  then have a: "a = Notification f" and "\<exists>more. sd_notes s1 = fs @ more"
    by (auto simp: fs sd_report_def split: prod.splits sum.splits)
  then obtain more where more: "sd_notes s1 = fs @ more" by blast
  have "take k (sd_notes s1) = take k fs" "k \<le> length (sd_notes s1)"
    using Suc.prems by (simp_all add: more fs)
  then show ?case
    using Suc.IH [of s1] step a by (auto simp: fs split: prod.split)
qed simp

text \<open>Transactions alone are the sessions of \<open>Usb_Host\<close>.\<close>

lemma slot_device_transactions:
  "list_all sendable cs \<Longrightarrow> fst (slot_device_run rd (map Transaction cs) s) =
     map (Response \<circ> Some) (fst (bridge_session rd cs (sd_bridge s)))"
proof (induction cs arbitrary: s)
  case (Cons c cs)
  obtain resp b where "handle_command rd c (sd_bridge s) = (Some resp, b)"
    using handle_command_returns [of c rd "sd_bridge s"] Cons.prems by (auto simp: sendable_def)
  then show ?case
    using Cons.IH [of "sd_report b (card_present b) s"] Cons.prems by (auto simp: sd_report_def split: prod.split)
qed simp

end
