(* ===== verification/Ccid_Robustness.thy ===== *)
theory Ccid_Robustness
  imports Ccid_Host Usb_Device
begin

text \<open>
  The transport beside the one-command-at-a-time use of \<open>Ccid_Host\<close>: a host that sends several
  commands before it reads their responses, a frame that is too long between good ones, a session
  after an abort, and the time after a panic has poisoned the lock of the bridge.
\<close>

subsection \<open>Pipelined commands\<close>

text \<open>The host reads \<open>k\<close> responses, each by bulk IN packets of \<open>n\<close> bytes.\<close>

primrec read_responses ::
    "nat \<Rightarrow> nat \<Rightarrow> 'r transport \<Rightarrow> ccid_response option list \<times> 'r transport" where
  "read_responses n 0 t = ([], t)"
| "read_responses n (Suc k) t =
     (let (frame, t1) = read_transfer n t; (rs, t2) = read_responses n k t1
      in (decode_response frame # rs, t2))"

text \<open>The response queue alone: \<open>push_frame\<close> is what \<open>push_in_frame\<close> does to it.\<close>

definition push_frame :: "'a list \<Rightarrow> 'a \<Rightarrow> 'a list" where
  "push_frame q f =
     (if q \<noteq> [] \<and> last q = f then q else if MAX_PENDING_IN_FRAMES \<le> length q then [f] else q @ [f])"

lemma push_in_frame_queue: "pending_in_frames (push_in_frame f t) = push_frame (pending_in_frames t) f"
  by (simp add: push_in_frame_def push_frame_def Let_def)

text \<open>The number of responses that a full queue has discarded before the last of \<open>k\<close> is queued.\<close>

definition discarded :: "nat \<Rightarrow> nat" where
  "discarded k = 32 * ((k - 1) div 32)"

lemma discarded_le: "discarded k \<le> k"
  unfolding discarded_def using mult_div_mod_eq [of 32 "k - 1"] by linarith

lemma discarded_none: "k \<le> 32 \<Longrightarrow> discarded k = 0"
  by (simp add: discarded_def)

lemma discarded_Suc:
  assumes "0 < k"
  shows "discarded (Suc k) = (if k - discarded k = 32 then k else discarded k)" "k - discarded k \<le> 32"
    "discarded k < k"
proof -
  obtain m where k: "k = Suc m" using assms by (cases k) auto
  have "m div 32 * 32 + m mod 32 = m" "m mod 32 < 32" by simp_all
  then show "k - discarded k \<le> 32" "discarded k < k"
    unfolding discarded_def k by simp_all
  show "discarded (Suc k) = (if k - discarded k = 32 then k else discarded k)"
    unfolding discarded_def k by (simp add: div_Suc mod_Suc) presburger
qed

lemma remdups_adj_snoc:
  "xs \<noteq> [] \<Longrightarrow> remdups_adj (xs @ [x]) = remdups_adj xs @ (if last xs = x then [] else [x])"
  by (cases xs rule: rev_cases) (simp_all add: remdups_adj_append_two)

lemma remdups_adj_map_inj_on:
  "inj_on f (set xs) \<Longrightarrow> remdups_adj (map f xs) = map f (remdups_adj xs)"
proof (induction xs rule: remdups_adj.induct)
  case (3 x y xs)
  have "f x = f y \<longleftrightarrow> x = y"
    using 3(3) by (auto dest: inj_onD)
  moreover have "inj_on f (set (y # xs))"
    using 3(3) by (auto intro: inj_on_subset)
  ultimately show ?case
    using 3 by simp
qed simp_all

text \<open>
  What is left of a series of responses: of equal neighbours one, and of these the newest that no full
  queue has discarded.
\<close>

definition kept_responses :: "'a list \<Rightarrow> 'a list" where
  "kept_responses rs = drop (discarded (length (remdups_adj rs))) (remdups_adj rs)"

lemma push_frames_distinct:
  "distinct_adj fs \<Longrightarrow> foldl push_frame [] fs = drop (discarded (length fs)) fs"
proof (induction fs rule: rev_induct)
  case (snoc f fs)
  show ?case
  proof (cases "fs = []")
    case True
    then show ?thesis by (simp add: push_frame_def discarded_def MAX_PENDING_IN_FRAMES_def)
  next
    case False
    let ?k = "length fs"
    have pos: "0 < ?k" using False by simp
    have ne: "last fs \<noteq> f" "distinct_adj fs"
      using snoc.prems False by (simp_all add: distinct_adj_append_iff)
    let ?q = "drop (discarded ?k) fs"
    have q: "?q \<noteq> []" "last ?q = last fs" "length ?q = ?k - discarded ?k"
      using discarded_Suc(3) [OF pos] by simp_all
    have "foldl push_frame [] (fs @ [f]) = push_frame ?q f"
      using snoc.IH ne(2) by simp
    also have "\<dots> = drop (discarded (Suc ?k)) (fs @ [f])"
      using q ne(1) discarded_Suc [OF pos] by (auto simp: push_frame_def MAX_PENDING_IN_FRAMES_def)
    finally show ?thesis by simp
  qed
qed (simp add: discarded_def)

lemma push_frames_remdups:
  "foldl push_frame [] fs = foldl push_frame [] (remdups_adj fs)
    \<and> (fs \<noteq> [] \<longrightarrow> foldl push_frame [] fs \<noteq> [] \<and> last (foldl push_frame [] fs) = last fs)"
proof (induction fs rule: rev_induct)
  case (snoc f fs)
  show ?case
  proof (cases "fs = []")
    case True
    then show ?thesis by (simp add: push_frame_def)
  next
    case False
    then show ?thesis
      using snoc by (auto simp: remdups_adj_snoc push_frame_def)
  qed
qed simp

lemma push_frames: "foldl push_frame [] fs = kept_responses fs"
  using push_frames_remdups [of fs] push_frames_distinct [of "remdups_adj fs"]
  by (simp add: kept_responses_def)

lemma run_plain_commands:
  "\<not> poisoned t \<Longrightarrow> control_abort t = None \<Longrightarrow> list_all (\<lambda>c. sendable c \<and> \<not> is_abort c) cs \<Longrightarrow>
    pending_in_frames (run_commands rd cs t) =
      foldl push_frame (pending_in_frames t) (map encode (fst (bridge_session rd cs (bridge t))))
    \<and> bridge (run_commands rd cs t) = snd (bridge_session rd cs (bridge t))
    \<and> \<not> poisoned (run_commands rd cs t) \<and> control_abort (run_commands rd cs t) = None
    \<and> pending_out_buffer (run_commands rd cs t) = pending_out_buffer t"
proof (induction cs arbitrary: t)
  case (Cons c cs)
  obtain resp b where h: "handle_command rd c (bridge t) = (Some resp, b)"
    using handle_command_returns [of c rd "bridge t"] Cons.prems(3) by (auto simp: sendable_def)
  let ?t = "enqueue_response resp (card_present b) (t\<lparr>bulk_abort := None, bridge := b\<rparr>)"
  have "process_command rd c t = (Ok (), ?t)"
    using process_plain_command [OF Cons.prems(2,1) _ h] Cons.prems(3) by simp
  moreover have "pending_in_frames ?t = push_frame (pending_in_frames t) (encode resp)"
    by (simp add: enqueue_response_def push_in_frame_queue)
  ultimately show ?case
    using Cons.IH [of ?t] Cons.prems h by (simp split: prod.split)
qed simp

lemma read_responses_queue:
  assumes "0 < n"
  shows "pending_in_frames t = map encode rs \<Longrightarrow> list_all (\<lambda>r. length (response_payload r) < 2 ^ 32) rs \<Longrightarrow>
    transport_inv t \<Longrightarrow> \<not> poisoned t \<Longrightarrow> control_abort t = None \<Longrightarrow> pending_out_buffer t = [] \<Longrightarrow>
    \<exists>t'. read_responses n (length rs) t = (map Some rs, t') \<and> bridge t' = bridge t \<and> host_ready t'"
proof (induction rs arbitrary: t)
  case Nil
  then show ?case by (auto simp: host_ready_def)
next
  case (Cons r rs)
  let ?t = "update_state (t\<lparr>pending_in_frames := map encode rs\<rparr>)"
  have read: "read_transfer n t = (encode r, ?t)"
    using read_transfer_frame [OF assms] Cons.prems(1) by simp
  have "core_inv (t\<lparr>pending_in_frames := map encode rs\<rparr>)"
    using Cons.prems(1,3) by (simp add: transport_inv_defs)
  then have "transport_inv ?t" by (rule transport_inv_update_state)
  then obtain t' where "read_responses n (length rs) ?t = (map Some rs, t')" "bridge t' = bridge t" "host_ready t'"
    using Cons.IH [of ?t] Cons.prems by (auto simp: transport_inv_def)
  then show ?case
    using read decode_encode_response [of r] Cons.prems(2) by (simp add: split: prod.split)
qed

lemma session_responses:
  assumes "answers_fit rd P"
  shows "bridge_inv b \<Longrightarrow> P (reader b) \<Longrightarrow> list_all sendable cs \<Longrightarrow>
    list_all (\<lambda>r. length (response_payload r) < 2 ^ 32) (fst (bridge_session rd cs b))
    \<and> map response_seq (fst (bridge_session rd cs b)) = map command_seq cs"
proof (induction cs arbitrary: b)
  case (Cons c cs)
  obtain resp b' where h: "handle_command rd c b = (Some resp, b')"
    using handle_command_returns [of c rd b] Cons.prems(3) by (auto simp: sendable_def)
  show ?case
    using Cons.IH [OF bridge_inv_handle_command [OF Cons.prems(1) h] fits_stay [OF assms Cons.prems(2) h]]
      response_fits [OF assms Cons.prems(2,1) h] handle_command_echo [OF h] h Cons.prems(3)
    by (auto split: prod.split)
qed simp

lemma kept_encodings:
  assumes "list_all (\<lambda>r. length (response_payload r) < 2 ^ 32) rs"
  shows "kept_responses (map encode rs) = map encode (kept_responses rs)"
proof -
  have "inj_on encode (set rs)"
    by (rule inj_on_inverseI [of _ "the \<circ> decode_response"])
      (use assms decode_encode_response in \<open>auto simp: list_all_iff\<close>)
  then show ?thesis
    by (simp add: kept_responses_def remdups_adj_map_inj_on drop_map)
qed

lemma set_kept_responses: "set (kept_responses rs) \<subseteq> set rs"
  unfolding kept_responses_def using set_drop_subset remdups_adj_set by metis

lemma kept_all:
  assumes "map response_seq rs = map command_seq cs" "distinct_adj (map command_seq cs)"
  shows "kept_responses rs = drop (discarded (length cs)) rs"
proof -
  have "distinct_adj rs"
    using assms distinct_adj_mapD by metis
  then have "remdups_adj rs = rs"
    by (simp add: distinct_adj_altdef)
  then show ?thesis
    using assms(1) map_eq_imp_length_eq [OF assms(1)] by (simp add: kept_responses_def)
qed

subsection \<open>A frame that is too long\<close>

text \<open>A transport with nothing buffered refuses an oversized frame and is left exactly as it was.\<close>

lemma oversized_refused:
  assumes "transport_inv t" "\<not> poisoned t" "pending_out_buffer t = []" "frame_oversize bs"
  shows "handle_bulk_out rd bs t = (Err (oversize_error bs), t)"
proof -
  let ?u = "update_state (t\<lparr>pending_out_buffer := bs\<rparr>)"
  have "framing_inv (t\<lparr>pending_out_buffer := bs\<rparr>)"
    using framing_inv_append [OF framing_invD [OF assms(1)], of bs] assms(3) by simp
  then have "framing_inv ?u" by (rule framing_inv_update_state)
  then have take: "try_take_complete_frame ?u =
      (Err (oversize_error bs), update_state (?u\<lparr>next_frame_len := None, pending_out_buffer := []\<rparr>))"
    using try_take_oversize [of ?u] assms(4) by simp
  have "update_state (?u\<lparr>next_frame_len := None, pending_out_buffer := []\<rparr>) = t"
  proof (rule same_content_eq)
    let ?v = "t\<lparr>next_frame_len := None, pending_out_buffer := []\<rparr>"
    have "update_state (?u\<lparr>next_frame_len := None, pending_out_buffer := []\<rparr>) = update_state ?v"
      by (cases t) (simp add: update_state_def)
    moreover have "core_inv ?v"
      using assms(1) by (simp add: transport_inv_defs)
    ultimately show "transport_inv (update_state (?u\<lparr>next_frame_len := None, pending_out_buffer := []\<rparr>))"
      using transport_inv_update_state by metis
    show "same_content (update_state (?u\<lparr>next_frame_len := None, pending_out_buffer := []\<rparr>)) t"
      using assms(3) by (cases t) (simp add: same_content_def update_state_def)
  qed (use assms in simp_all)
  then show ?thesis
    using take assms(3) by (simp add: handle_bulk_out_def process_frames.simps [of rd ?u])
qed

lemma commands_leave_ready:
  assumes "transport_inv t" "\<not> poisoned t" "control_abort t = None" "pending_out_buffer t = []"
    and "list_all (\<lambda>c. sendable c \<and> \<not> is_abort c) cs"
  obtains t' where "handle_bulk_out rd (concat (map encode_command cs)) t = (Ok (), t')"
    "same_content t' (run_commands rd cs t)" "transport_inv t'" "\<not> poisoned t'"
    "control_abort t' = None" "pending_out_buffer t' = []"
    "pending_in_frames t' = foldl push_frame (pending_in_frames t)
       (map encode (fst (bridge_session rd cs (bridge t))))"
    "bridge t' = snd (bridge_session rd cs (bridge t))"
proof -
  have "\<forall>c \<in> set cs. sendable c"
    using assms(5) by (auto simp: list_all_iff)
  then obtain t' where t': "handle_bulk_out rd (concat (map encode_command cs)) t = (Ok (), t')"
    "same_content t' (run_commands rd cs t)"
    using handle_bulk_out_commands [OF assms(1-4), of cs rd] by blast
  have "same_content (run_commands rd cs t) t'"
    using t'(2) by (rule same_content_sym)
  then show ?thesis
    using that [OF t' transport_inv_handle_bulk_out [OF assms(1) t'(1)]]
      run_plain_commands [OF assms(2,3,5), of rd] assms(4)
    by (simp add: same_content_fields)
qed

subsection \<open>After an abort\<close>

lemma abort_leaves_ready:
  assumes "transport_inv t" "\<not> poisoned t" "pending_out_buffer t = []"
    and "control_abort t = None" "bulk_abort t = None" "0 < n"
  shows "\<exists>t2. read_transfer n (snd (handle_bulk_out rd (encode_command (Abort 0 seq)) (expect_abort rd 0 seq t))) =
      (encode (abort_done_response t 0 seq), t2) \<and> host_ready t2 \<and> bridge t2 = bridge t"
proof -
  let ?u = "t\<lparr>control_abort := Some (0, seq)\<rparr>"
  have u: "expect_abort rd 0 seq t = ?u"
    using assms(5) by (simp add: expect_abort_def)
  then have "transport_inv ?u"
    using transport_inv_expect_abort [OF assms(1), of rd 0 seq] by simp
  then obtain t1 where t1: "handle_bulk_out rd (encode_command (Abort 0 seq)) ?u = (Ok (), t1)"
    "same_content t1 (snd (finish_abort rd 0 seq ?u))" "transport_inv t1"
    using pending_abort_completed [of ?u seq rd] assms(2,3) by auto
  let ?done = "snd (finish_abort rd 0 seq ?u)"
  have "\<not> poisoned ?u" using assms(2) by simp
  note finished = finish_abort_frames [OF this prod.collapse [symmetric], of rd 0 seq]
  note fields = same_content_fields [OF same_content_sym [OF t1(2)]]
  have "abort_done_response ?u 0 seq = abort_done_response t 0 seq"
    by (simp add: abort_done_response_def)
  then have queue: "pending_in_frames t1 = [encode (abort_done_response t 0 seq)]"
    using fields finished by simp
  have "\<not> poisoned ?done"
    using assms(2) by (simp add: finish_abort_result)
  then have rest: "\<not> poisoned t1" "control_abort t1 = None" "pending_out_buffer t1 = []" "bridge t1 = bridge t"
    using fields finished by simp_all
  have "core_inv (t1\<lparr>pending_in_frames := []\<rparr>)"
    using t1(3) by (simp add: transport_inv_defs)
  then have "host_ready (update_state (t1\<lparr>pending_in_frames := []\<rparr>))"
    using rest by (simp add: host_ready_def transport_inv_update_state)
  then show ?thesis
    using read_transfer_frame [OF assms(6) queue] rest(4)
    by (simp add: u t1(1) del: encode_command.simps)
qed

subsection \<open>A poisoned lock\<close>

lemma process_command_sealed:
  assumes "poisoned t"
  shows "bridge (snd (process_command rd c t)) = bridge t \<and> poisoned (snd (process_command rd c t))"
  using assms
  by (cases c; cases "control_abort t")
    (auto simp: process_command_def finish_abort_def queue_aborted_response_def Let_def)

lemma process_frames_sealed:
  "poisoned t \<Longrightarrow> bridge (snd (process_frames rd t)) = bridge t \<and> poisoned (snd (process_frames rd t))"
proof (induction rd t rule: process_frames.induct)
  case (1 rd t)
  obtain res t1 where take: "try_take_complete_frame t = (res, t1)"
    by (cases "try_take_complete_frame t")
  then have t1: "bridge t1 = bridge t" "poisoned t1"
    using 1(2) by (auto simp: try_take_complete_frame_def Let_def split: if_splits option.splits)
  show ?case
  proof (cases "\<exists>frame. res = Ok (Some frame)")
    case False
    then show ?thesis
      using take t1 by (subst (1 2) process_frames.simps) (auto split: sum.splits option.splits)
  next
    case True
    then obtain frame where res: "res = Ok (Some frame)" by blast
    obtain fres t2 where frame: "process_frame rd frame t1 = (fres, t2)"
      by (cases "process_frame rd frame t1")
    have t2: "bridge t2 = bridge t" "poisoned t2"
      using frame t1 process_command_sealed [OF t1(2), of rd]
      by (auto simp: process_frame_def split: sum.splits) (metis snd_conv)+
    show ?thesis
    proof (cases fres)
      case (Inl e)
      then show ?thesis
        using take res frame t2 by (subst (1 2) process_frames.simps) simp
    next
      case (Inr u)
      then show ?thesis
        using 1(1) [OF take [symmetric] res refl frame [symmetric]] take res frame t2
        by (subst (1 2) process_frames.simps) simp
    qed
  qed
qed

lemma handle_bulk_out_sealed:
  "handle_bulk_out rd bs t = (res, t') \<Longrightarrow> poisoned t \<Longrightarrow> bridge t' = bridge t \<and> poisoned t'"
  using process_frames_sealed [of "update_state (t\<lparr>pending_out_buffer := pending_out_buffer t @ bs\<rparr>)" rd]
  by (simp add: handle_bulk_out_def)

lemma interface_sealed:
  assumes "poisoned (handler_transport h)" "interface_handle_urb usb rd ep len packet req h = (res, h')"
  shows "bridge (handler_transport h') = bridge (handler_transport h) \<and> poisoned (handler_transport h')"
  using assms
  by (auto simp: interface_handle_urb_def interface_bulk_out_def interface_bulk_in_def
      interface_interrupt_in_def handle_bulk_in_def handle_interrupt_in_def
      pop_interrupt_def handle_control_request_def expect_abort_def finish_abort_def
      Let_def try_then_def dest: handle_bulk_out_sealed split: prod.splits sum.splits if_splits list.splits)

lemma device_reach_sealed:
  "device_reach usb rd d0 d \<Longrightarrow> poisoned (dev_transport d0) \<Longrightarrow>
     bridge (dev_transport d) = bridge (dev_transport d0) \<and> poisoned (dev_transport d)"
proof (induction rule: device_reach.induct)
  case (reach_step d d')
  from reach_step.hyps(2) show ?case
    using reach_step.IH reach_step.prems
    by (cases rule: device_step.cases) (auto dest: interface_sealed)
qed simp

text \<open>
  A command that finds the lock poisoned is answered with the error alone. The first half of an abort
  does not take the lock.
\<close>

definition completes_abort :: "'r transport \<Rightarrow> ccid_command \<Rightarrow> bool" where
  "completes_abort t c \<longleftrightarrow> is_abort c \<and> control_abort t = Some (command_slot c, command_seq c)"

lemma sealed_command:
  assumes "transport_inv t" "poisoned t" "pending_out_buffer t = []" "framed c"
  shows "fst (handle_bulk_out rd (encode_command c) t) =
      (if is_abort c \<and> control_abort t = None then Ok () else Err lock_poisoned_error)
    \<and> pending_in_frames (snd (handle_bulk_out rd (encode_command c) t)) =
      (if completes_abort t c then [] else pending_in_frames t)"
proof -
  let ?u = "update_state (t\<lparr>pending_out_buffer := encode_command c\<rparr>)"
  have "core_inv (t\<lparr>pending_out_buffer := encode_command c\<rparr>)"
    using assms(1) framing_inv_append [OF framing_invD [OF assms(1)], of "encode_command c"]
      assms(3)
    by (simp add: transport_inv_def core_inv_def queues_inv_def abort_inv_def)
  then have inv: "transport_inv ?u" by (rule transport_inv_update_state)
  let ?t1 = "update_state (?u\<lparr>next_frame_len := None, pending_out_buffer := []\<rparr>)"
  have bulk: "handle_bulk_out rd (encode_command c) t =
    (case process_command rd c ?t1 of
       (Err e, t2) \<Rightarrow> (Err e, t2)
     | (Ok u, t2) \<Rightarrow> process_frames rd t2)"
    using first_command_taken [OF inv assms(4), of "[]" rd] assms(3)
    by (simp add: handle_bulk_out_def)
  show ?thesis
  proof (cases "is_abort c \<and> control_abort t = None")
    case True
    then obtain seq where "process_command rd c ?t1 = (Ok (), ?t1\<lparr>bulk_abort := Some seq\<rparr>)"
      by (cases c) (simp_all add: process_command_def is_abort_def)
    then show ?thesis
      using True assms(3) by (simp add: bulk process_frames_empty completes_abort_def)
  next
    case False
    then have "fst (process_command rd c ?t1) = Err lock_poisoned_error
        \<and> pending_in_frames (snd (process_command rd c ?t1)) =
          (if completes_abort t c then [] else pending_in_frames t)"
      using assms(2)
      by (cases c; cases "control_abort t")
        (simp_all add: process_command_def is_abort_def completes_abort_def finish_abort_def
          queue_aborted_response_def Let_def split_beta)
    then show ?thesis
      using False by (cases "process_command rd c ?t1") (simp add: bulk)
  qed
qed

text \<open>A command that panics leaves its frame taken and the lock poisoned, and nothing else.\<close>

lemma panicking_command:
  assumes "transport_inv (dev_transport d)" "\<not> poisoned (dev_transport d)"
    and "control_abort (dev_transport d) = None" "pending_out_buffer (dev_transport d) = []"
    and "current_icc_status (bridge (dev_transport d)) = Active"
    and "framed (XfrBlock slot seq bwi level payload)" "aid_overruns payload"
  shows "\<exists>t'. handle_bulk_out rd (encode_command (XfrBlock slot seq bwi level payload)) (dev_transport d)
      = (Err Panicked, t')
    \<and> bridge t' = bridge (dev_transport d) \<and> poisoned t' \<and> pending_out_buffer t' = []
    \<and> pending_in_frames t' = pending_in_frames (dev_transport d)"
proof -
  let ?t = "dev_transport d" and ?c = "XfrBlock slot seq bwi level payload"
  let ?u = "update_state (?t\<lparr>pending_out_buffer := encode_command ?c\<rparr>)"
  have "core_inv (?t\<lparr>pending_out_buffer := encode_command ?c\<rparr>)"
    using assms(1) framing_inv_append [OF framing_invD [OF assms(1)], of "encode_command ?c"]
      assms(4)
    by (simp add: transport_inv_def core_inv_def queues_inv_def abort_inv_def)
  then have inv: "transport_inv ?u" by (rule transport_inv_update_state)
  let ?t1 = "update_state (?u\<lparr>next_frame_len := None, pending_out_buffer := []\<rparr>)"
  have "select_aid payload = None"
    using assms(7) by (simp only: select_aid_panics_iff)
  then have "handle_command rd ?c (bridge ?t) = (None, bridge ?t)"
    using xfr_active_exchanges [OF _ assms(5), of rd slot seq payload] assms(1)
    by (simp add: exchange_powered_def transport_inv_defs)
  then have "process_command rd ?c ?t1 =
      (Err Panicked, ?t1\<lparr>bulk_abort := None, bridge := bridge ?t, poisoned := True\<rparr>)"
    using assms(2,3) by (simp add: process_command_plain is_abort_def del: handle_command.simps)
  then show ?thesis
    using first_command_taken [OF inv assms(6), of "[]" rd] assms(4)
    by (simp add: handle_bulk_out_def del: encode_command.simps)
qed

subsection \<open>Properties\<close>

text \<open>C12: Commands may be pipelined. A host that sends the frames of any number of commands in one
  transfer and then reads gets the responses of the bridge's command handler in order. Two things are
  missing from them: a response that is equal to the one before it is not queued again, and of more
  than 32 unread responses a full queue has discarded the oldest in blocks of 32. So no response is
  missing when at most 32 commands are sent and neighbours have different sequence numbers.\<close>

theorem pipelined_commands_answered:
  assumes "host_ready t" "answers_fit rd P" "P (reader (bridge t))" "0 < n"
    and "list_all (\<lambda>c. sendable c \<and> \<not> is_abort c) cs"
  shows "\<exists>t1 t2. handle_bulk_out rd (concat (map encode_command cs)) t = (Ok (), t1)
    \<and> read_responses n (length (kept_responses (fst (bridge_session rd cs (bridge t))))) t1 =
        (map Some (kept_responses (fst (bridge_session rd cs (bridge t)))), t2)
    \<and> (distinct_adj (map command_seq cs) \<longrightarrow>
        kept_responses (fst (bridge_session rd cs (bridge t))) =
          drop (discarded (length cs)) (fst (bridge_session rd cs (bridge t))))
    \<and> bridge t2 = snd (bridge_session rd cs (bridge t)) \<and> host_ready t2"
proof -
  let ?rs = "fst (bridge_session rd cs (bridge t))"
  have t: "transport_inv t" "\<not> poisoned t" "control_abort t = None" "pending_out_buffer t = []"
    "pending_in_frames t = []"
    using assms(1) by (simp_all add: host_ready_def)
  then have inv: "bridge_inv (bridge t)"
    by (simp add: transport_inv_def core_inv_def)
  have "list_all sendable cs"
    using assms(5) by (simp add: list_all_iff)
  note rs = session_responses [OF assms(2) inv assms(3) this]
  obtain t1 where t1: "handle_bulk_out rd (concat (map encode_command cs)) t = (Ok (), t1)"
    "transport_inv t1" "\<not> poisoned t1" "control_abort t1 = None" "pending_out_buffer t1 = []"
    "pending_in_frames t1 = foldl push_frame (pending_in_frames t) (map encode ?rs)"
    "bridge t1 = snd (bridge_session rd cs (bridge t))"
    using commands_leave_ready [OF t(1-4) assms(5), of rd] by metis
  have queue: "pending_in_frames t1 = map encode (kept_responses ?rs)"
    using t1(6) t(5) rs by (simp add: push_frames kept_encodings)
  have "list_all (\<lambda>r. length (response_payload r) < 2 ^ 32) (kept_responses ?rs)"
    using rs set_kept_responses [of ?rs] by (auto simp: list_all_iff)
  from read_responses_queue [OF assms(4) queue this t1(2-5)] obtain t2 where
    "read_responses n (length (kept_responses ?rs)) t1 = (map Some (kept_responses ?rs), t2)"
    "bridge t2 = bridge t1" "host_ready t2"
    by blast
  then show ?thesis
    using t1(1,7) kept_all [of ?rs cs] rs by auto
qed

lemma idle_transport_ready: "host_ready (idle_transport [])" "reader (bridge (idle_transport [])) = []"
  by (simp_all add: idle_transport_def host_ready_new bridge_inv_new)
    (simp add: new_transport_def new_bridge_def)

theorem pipelined_commands_answered_witness:
  "\<exists>t1 t2. handle_bulk_out (scripted (Ok ()) (Ok []))
      (concat (map encode_command [GetParameters 0 1, GetSlotStatus 0 2])) (idle_transport []) = (Ok (), t1)
    \<and> read_responses 64 2 t1 = (map Some (fst (bridge_session (scripted (Ok ()) (Ok []))
        [GetParameters 0 1, GetSlotStatus 0 2] (bridge (idle_transport [])))), t2)"
proof -
  have fit: "answers_fit (scripted (Ok ()) (Ok [])) (\<lambda>s. s = [])"
    by (auto simp: answers_fit_def reader_call_def scripted_def)
  let ?cs = "[GetParameters 0 1, GetSlotStatus 0 2]"
  let ?rs = "fst (bridge_session (scripted (Ok ()) (Ok [])) ?cs (bridge (idle_transport [])))"
  have ok: "list_all (\<lambda>c. sendable c \<and> \<not> is_abort c) ?cs" "distinct_adj (map command_seq ?cs)"
    by (simp_all add: sendable_iff overruns_select_def is_abort_def CCID_MAX_MESSAGE_LENGTH_def)
  have "list_all sendable ?cs" "bridge_inv (bridge (idle_transport []))"
    using ok(1) idle_transport_ready(1) by (simp_all add: host_ready_def transport_inv_defs)
  with session_responses [OF fit _ idle_transport_ready(2)]
  have "map response_seq ?rs = map command_seq ?cs" by blast
  from kept_all [OF this ok(2)] map_eq_imp_length_eq [OF this]
  have two: "kept_responses ?rs = ?rs" "length ?rs = 2"
    by (simp_all add: discarded_def del: bridge_session.simps)
  show ?thesis
    using pipelined_commands_answered [OF idle_transport_ready(1) fit idle_transport_ready(2)
        _ ok(1), of 64, OF zero_less_numeral]
    unfolding two by blast
qed

text \<open>C13: A frame over the maximum does no harm to the commands before it. A transfer of good frames
  followed by one whose header announces too many bytes is refused with an error that names the
  length, and the device is then in exactly the state in which the good frames alone would have
  left it: their responses are queued, nothing is buffered, and the next byte starts a new frame,
  also when it belongs to the refused one.\<close>

theorem oversized_frame_contained:
  assumes "transport_inv t" "\<not> poisoned t" "control_abort t = None" "pending_out_buffer t = []"
    and "list_all (\<lambda>c. sendable c \<and> \<not> is_abort c) cs" "frame_oversize bad"
  shows "\<exists>t'. handle_bulk_out rd (concat (map encode_command cs)) t = (Ok (), t')
    \<and> handle_bulk_out rd (concat (map encode_command cs) @ bad) t = (Err (oversize_error bad), t')
    \<and> pending_out_buffer t' = [] \<and> bridge t' = snd (bridge_session rd cs (bridge t))"
proof -
  obtain t' where t': "handle_bulk_out rd (concat (map encode_command cs)) t = (Ok (), t')"
    "transport_inv t'" "\<not> poisoned t'" "pending_out_buffer t' = []"
    "bridge t' = snd (bridge_session rd cs (bridge t))"
    using commands_leave_ready [OF assms(1-5), of rd] by metis
  have "handle_bulk_out rd (concat (map encode_command cs) @ bad) t = handle_bulk_out rd bad t'"
    using handle_bulk_out_append [OF assms(1-3) t'(1)] by simp
  then show ?thesis
    using oversized_refused [OF t'(2-4) assms(6)] t' by auto
qed

theorem oversized_frame_contained_witness:
  "\<exists>t'. handle_bulk_out (scripted (Ok ()) (Ok [])) (encode_command (GetParameters 0 1)) (idle_transport []) = (Ok (), t')
    \<and> handle_bulk_out (scripted (Ok ()) (Ok []))
        (encode_command (GetParameters 0 1) @ [0x6f, 0x00, 0x0d, 0x00, 0x00, 0x00, 0x02, 0x00, 0x00, 0x00])
        (idle_transport []) = (Err (IoError InvalidData_Kind
          ''CCID frame length 3338 exceeds configured maximum''), t')"
proof -
  let ?bad = "[0x6f, 0x00, 0x0d, 0x00, 0x00, 0x00, 0x02, 0x00, 0x00, 0x00] :: byte list"
  have "frame_oversize ?bad" "oversize_error ?bad = IoError InvalidData_Kind
      ''CCID frame length 3338 exceeds configured maximum''"
    by (simp_all add: frame_oversize_def oversize_error_def frame_payload_len_def byte_simps fmt_nat.simps hex_digit_def
        CCID_MAX_MESSAGE_LENGTH_def)
  then show ?thesis
    using oversized_frame_contained [OF idle_transport_inv(1-4), of "[GetParameters 0 1]" ?bad
        "scripted (Ok ()) (Ok [])"]
    by (auto simp: sendable_iff overruns_select_def is_abort_def CCID_MAX_MESSAGE_LENGTH_def)
qed

text \<open>C21: An abort brings host and device back in step. From any state with no partial frame and no abort
  pending, whatever responses are unread, the two halves of an abort in either order drop them; the
  host reads exactly the success response to the abort, the slot is unchanged, and the session that
  follows gets exactly the responses of the bridge again.\<close>

theorem abort_resynchronises:
  assumes "transport_inv t" "\<not> poisoned t" "pending_out_buffer t = []"
    and "control_abort t = None" "bulk_abort t = None"
    and "answers_fit rd P" "P (reader (bridge t))" "0 < n"
    and "list_all (\<lambda>c. sendable c \<and> \<not> is_abort c) cs"
    and "t1 \<in> {snd (handle_bulk_out rd (encode_command (Abort 0 seq)) (expect_abort rd 0 seq t)),
        expect_abort rd 0 seq (snd (handle_bulk_out rd (encode_command (Abort 0 seq)) t))}"
  shows "\<exists>t2 t3. read_transfer n t1 = (encode (abort_done_response t 0 seq), t2) \<and> bridge t2 = bridge t
    \<and> host_session rd n cs t2 = (map Some (fst (bridge_session rd cs (bridge t))), t3) \<and> host_ready t3"
proof -
  have "t1 = snd (handle_bulk_out rd (encode_command (Abort 0 seq)) (expect_abort rd 0 seq t))"
    using abort_orders_agree [OF assms(1-5), of rd seq] assms(10) by auto
  then obtain t2 where t2: "read_transfer n t1 = (encode (abort_done_response t 0 seq), t2)"
    "host_ready t2" "bridge t2 = bridge t"
    using abort_leaves_ready [OF assms(1-5,8), of rd seq] by auto
  then show ?thesis
    using host_session_refines [OF assms(6,8) t2(2) _ assms(9)] assms(7) by auto
qed

theorem abort_resynchronises_witness:
  "\<exists>t2 t3. read_transfer 64 (expect_abort (scripted (Ok ()) (Ok [])) 0 7
        (snd (handle_bulk_out (scripted (Ok ()) (Ok [])) (encode_command (Abort 0 7)) (idle_transport []))))
      = (encode (SlotStatus 0 7 (status_ok NotPresent) 0 0), t2)
    \<and> host_session (scripted (Ok ()) (Ok [])) 64 [GetParameters 0 8] t2 =
      ([Some (Parameters 0 8 (status_ok NotPresent) 0 1 [0x11, 0x10, 0x00, 0x15, 0x00, 0xfe, 0x00])], t3)"
proof -
  have fit: "answers_fit (scripted (Ok ()) (Ok [])) (\<lambda>s. s = [])"
    by (auto simp: answers_fit_def reader_call_def scripted_def)
  have ok: "list_all (\<lambda>c. sendable c \<and> \<not> is_abort c) [GetParameters 0 8]" "(0 :: nat) < 64"
    by (simp_all add: sendable_iff overruns_select_def is_abort_def CCID_MAX_MESSAGE_LENGTH_def)
  have status: "current_icc_status (bridge (idle_transport [])) = NotPresent"
    "parameters_response (bridge (idle_transport [])) 0 8 False =
      Parameters 0 8 (status_ok NotPresent) 0 1 [0x11, 0x10, 0x00, 0x15, 0x00, 0xfe, 0x00]"
    by (simp_all add: idle_transport_def new_transport_def new_bridge_def current_icc_status_def
        parameters_response_def bridge_consts)
  from abort_resynchronises [OF idle_transport_inv(1,2,4,3,5) fit idle_transport_ready(2) ok(2,1) insertI2
      [OF singletonI], of 7]
  show ?thesis
    by (auto simp: abort_done_response_def status simp del: host_session.simps encode.simps)
qed

text \<open>C15: A panic stays contained. Once the lock of the bridge is poisoned, no control request and no URB
  changes the slot or the reader any more. A command whose frame arrives with nothing buffered before
  it is refused with the lock's error and gets no response. The exception is the bulk half of an
  abort, which does not take the lock: it is accepted when no control half is pending, also without a
  response. A bulk half that meets its control half drops the unread responses and is then refused.\<close>

theorem poisoned_lock_contained:
  assumes "device_reach usb rd d0 d" "poisoned (dev_transport d0)" "transport_inv (dev_transport d0)"
  shows "bridge (dev_transport d) = bridge (dev_transport d0)
    \<and> (pending_out_buffer (dev_transport d) = [] \<and> framed c \<longrightarrow>
        fst (handle_bulk_out rd (encode_command c) (dev_transport d)) =
          (if is_abort c \<and> control_abort (dev_transport d) = None then Ok () else Err lock_poisoned_error)
        \<and> pending_in_frames (snd (handle_bulk_out rd (encode_command c) (dev_transport d))) =
          (if completes_abort (dev_transport d) c then [] else pending_in_frames (dev_transport d)))"
  using device_reach_sealed [OF assms(1,2)] sealed_command [OF device_reach_inv [OF assms(1,3)]] by blast

theorem poisoned_lock_contained_witness:
  "fst (handle_bulk_out (scripted (Ok ()) (Ok [])) (encode_command (IccPowerOn 0 1 0))
      ((idle_transport [])\<lparr>poisoned := True\<rparr>)) = Err lock_poisoned_error"
proof -
  let ?d = "build_virtual_ccid_device standard_usb (bridge (idle_transport []))
    \<lparr>intf_handler := \<lparr>handler_transport = (idle_transport [])\<lparr>poisoned := True\<rparr>\<rparr>\<rparr>"
  have "transport_inv (dev_transport ?d)"
    using transport_inv_poisoned [OF idle_transport_inv(1)] by simp
  from poisoned_lock_contained [OF reach_start [of standard_usb "scripted (Ok ()) (Ok [])"] _ this,
      where c = "IccPowerOn 0 1 0"] show ?thesis
    by (simp add: idle_transport_inv framed_def is_abort_def completes_abort_def CCID_MAX_MESSAGE_LENGTH_def)
qed

text \<open>C34: A host can switch the reader off with one command. On a slot with a powered card, an
  \<open>XfrBlock\<close> with a SELECT by name whose length byte announces more bytes than follow it panics
  while the lock of the bridge is held: no response is queued and the card is not asked. From then on,
  whatever the host does with the device, the slot and the reader stay as they are and every command
  but the first half of an abort is refused with the lock's error.\<close>

theorem malformed_select_disables_reader:
  assumes "transport_inv (dev_transport d)" "\<not> poisoned (dev_transport d)"
    and "control_abort (dev_transport d) = None" "pending_out_buffer (dev_transport d) = []"
    and "current_icc_status (bridge (dev_transport d)) = Active"
    and "framed (XfrBlock slot seq bwi level payload)" "aid_overruns payload"
  shows "\<exists>t'. handle_bulk_out rd (encode_command (XfrBlock slot seq bwi level payload)) (dev_transport d)
      = (Err Panicked, t')
    \<and> pending_in_frames t' = pending_in_frames (dev_transport d)
    \<and> (\<forall>d'. device_reach usb rd (d\<lparr>intf_handler := \<lparr>handler_transport = t'\<rparr>\<rparr>) d' \<longrightarrow>
        bridge (dev_transport d') = bridge (dev_transport d)
        \<and> (\<forall>c. pending_out_buffer (dev_transport d') = [] \<and> framed c \<and> \<not> is_abort c \<longrightarrow>
            fst (handle_bulk_out rd (encode_command c) (dev_transport d')) = Err lock_poisoned_error))"
proof -
  obtain t' where t': "handle_bulk_out rd (encode_command (XfrBlock slot seq bwi level payload)) (dev_transport d)
      = (Err Panicked, t')" "bridge t' = bridge (dev_transport d)" "poisoned t'"
      "pending_in_frames t' = pending_in_frames (dev_transport d)"
    using panicking_command [OF assms] by blast
  let ?d = "d\<lparr>intf_handler := \<lparr>handler_transport = t'\<rparr>\<rparr>"
  have inv: "transport_inv (dev_transport ?d)"
    using transport_inv_handle_bulk_out [OF assms(1) t'(1)] by simp
  have "bridge (dev_transport d') = bridge t'"
    "pending_out_buffer (dev_transport d') = [] \<Longrightarrow> framed c \<Longrightarrow> \<not> is_abort c \<Longrightarrow>
      fst (handle_bulk_out rd (encode_command c) (dev_transport d')) = Err lock_poisoned_error"
    if "device_reach usb rd ?d d'" for d' c
    using device_reach_sealed [OF that] device_reach_inv [OF that inv] t'(3)
      sealed_command [of "dev_transport d'" c rd]
    by simp_all
  then show ?thesis
    using t' by metis
qed

theorem malformed_select_disables_reader_witness:
  "\<exists>t'. handle_bulk_out (scripted (Ok ()) (Ok []))
      (encode_command (XfrBlock 0 1 0 0 [0x00, 0xa4, 0x04, 0x00, 0x07, 0xa0, 0x00]))
      (new_transport (powered_bridge (Ok ()) (Ok []))) = (Err Panicked, t')
    \<and> fst (handle_bulk_out (scripted (Ok ()) (Ok [])) (encode_command (GetSlotStatus 0 2)) t') =
        Err lock_poisoned_error"
proof -
  let ?rd = "scripted (Ok ()) (Ok []) :: script nfc_reader"
  let ?b = "powered_bridge (Ok ()) (Ok []) :: script bridge"
  let ?d = "build_virtual_ccid_device standard_usb ?b"
  let ?c = "XfrBlock 0 1 0 0 [0x00, 0xa4, 0x04, 0x00, 0x07, 0xa0, 0x00]"
  have start: "transport_inv (dev_transport ?d)" "\<not> poisoned (dev_transport ?d)"
    "control_abort (dev_transport ?d) = None" "pending_out_buffer (dev_transport ?d) = []"
    "current_icc_status (bridge (dev_transport ?d)) = Active"
    using transport_inv_new [OF powered_bridge_inv]
    by (simp_all add: new_transport_def powered_bridge_fields current_icc_status_def)
  have sel: "framed ?c" "aid_overruns [0x00, 0xa4, 0x04, 0x00, 0x07, 0xa0, 0x00]"
    and status: "framed (GetSlotStatus 0 2)" "\<not> is_abort (GetSlotStatus 0 2)"
    by (simp_all add: framed_def is_abort_def CCID_MAX_MESSAGE_LENGTH_def)
  obtain t' where t': "handle_bulk_out ?rd (encode_command ?c) (dev_transport ?d) = (Err Panicked, t')"
    "\<forall>d'. device_reach standard_usb ?rd (?d\<lparr>intf_handler := \<lparr>handler_transport = t'\<rparr>\<rparr>) d' \<longrightarrow>
        (\<forall>c. pending_out_buffer (dev_transport d') = [] \<and> framed c \<and> \<not> is_abort c \<longrightarrow>
            fst (handle_bulk_out ?rd (encode_command c) (dev_transport d')) = Err lock_poisoned_error)"
    using malformed_select_disables_reader [OF start sel, of ?rd standard_usb] by blast
  have "pending_out_buffer t' = []"
    using panicking_command [OF start sel, of ?rd] t'(1) by (metis prod.inject)
  moreover have "dev_transport (?d\<lparr>intf_handler := \<lparr>handler_transport = t'\<rparr>\<rparr>) = t'"
    by simp
  ultimately have "fst (handle_bulk_out ?rd (encode_command (GetSlotStatus 0 2)) t') = Err lock_poisoned_error"
    using t'(2) [rule_format, OF reach_start, of "GetSlotStatus 0 2"] status by (simp only: simp_thms)
  then show ?thesis
    using t'(1) by (simp only: build_transport) blast
qed

end
