(* ===== verification/Nfc_Dummy.thy ===== *)
theory Nfc_Dummy
  imports Nfc_Reader "HOL-Library.Monad_Syntax"
begin

text \<open>
  The dummy backend, \<open>src/nfc/dummy.rs\<close>: a reader with a built-in FIDO card. The applet
  state machine (\<open>selected_applet\<close>) decides which APDUs are served.

  \<open>encode_text\<close> contains an \<open>assert!\<close> and \<open>parse_short_apdu\<close> indexes and slices the APDU, so they and
  their callers return an option whose \<open>None\<close> is the panic; \<open>handle_apdu_total\<close> shows that no APDU
  reaches it. The CBOR reader at the end is the
  client's side: it gives the meaning of the \<open>authenticatorGetInfo\<close> answer.
\<close>

definition CTAP2_ERR_INVALID_COMMAND :: byte where
  "CTAP2_ERR_INVALID_COMMAND = 0x01"

definition FIDO_AID :: "byte list" where
  "FIDO_AID = [0xa0, 0x00, 0x00, 0x06, 0x47, 0x2f, 0x00, 0x01]"

definition FIDO_NFCCTAP_MSG :: byte where
  "FIDO_NFCCTAP_MSG = 0x10"

definition FIDO_NFCCTAP_GET_RESPONSE :: byte where
  "FIDO_NFCCTAP_GET_RESPONSE = 0x11"

definition FIDO_NFCCTAP_CONTROL :: byte where
  "FIDO_NFCCTAP_CONTROL = 0x12"

definition FIDO_NFC_END_CTAP_MSG :: byte where
  "FIDO_NFC_END_CTAP_MSG = 0x01"

definition FIDO_VERSION_U2F_V2 :: "byte list" where
  "FIDO_VERSION_U2F_V2 = ascii ''U2F_V2''"

definition FIDO_VERSION_2_0 :: "byte list" where
  "FIDO_VERSION_2_0 = ascii ''FIDO_2_0''"

definition FIDO_TRANSPORT_NFC :: "byte list" where
  "FIDO_TRANSPORT_NFC = ascii ''nfc''"

definition DUMMY_ATR :: "byte list" where
  "DUMMY_ATR = [0x3b, 0x68, 0x00, 0xff, 0x38, 0x2b, 0x41, 0x52, 0x44, 0x6e, 0x73, 0x73]"

definition FIDO_DUMMY_AAGUID :: "byte list" where
  "FIDO_DUMMY_AAGUID =
     [0x76, 0x75, 0x73, 0x62, 0x69, 0x70, 0x64, 0x2d, 0x63, 0x63, 0x69, 0x64, 0x2d, 0x66, 0x69,
      0x64]"

definition SW_SUCCESS :: "byte list" where
  "SW_SUCCESS = [0x90, 0x00]"

definition SW_INS_NOT_SUPPORTED :: "byte list" where
  "SW_INS_NOT_SUPPORTED = [0x6d, 0x00]"

definition SW_WRONG_PARAMETERS :: "byte list" where
  "SW_WRONG_PARAMETERS = [0x6a, 0x86]"

definition SW_WRONG_LENGTH :: "byte list" where
  "SW_WRONG_LENGTH = [0x67, 0x00]"

definition SW_FILE_NOT_FOUND :: "byte list" where
  "SW_FILE_NOT_FOUND = [0x6a, 0x82]"

lemmas sw_defs = SW_SUCCESS_def SW_INS_NOT_SUPPORTED_def SW_WRONG_PARAMETERS_def
  SW_WRONG_LENGTH_def SW_FILE_NOT_FOUND_def

lemmas fido_defs = FIDO_AID_def FIDO_NFCCTAP_MSG_def FIDO_NFCCTAP_GET_RESPONSE_def
  FIDO_NFCCTAP_CONTROL_def FIDO_NFC_END_CTAP_MSG_def FIDO_VERSION_U2F_V2_def FIDO_VERSION_2_0_def
  FIDO_TRANSPORT_NFC_def FIDO_DUMMY_AAGUID_def CTAP2_ERR_INVALID_COMMAND_def

datatype selected_applet = NoApplet | Fido

record dummy_reader =
  dummy_card_present :: bool
  selected_applet :: selected_applet

definition dummy_open :: "(dummy_reader, reader_error) result" where
  "dummy_open = Ok \<lparr>dummy_card_present = True, selected_applet = NoApplet\<rparr>"

definition dummy_capabilities :: "dummy_reader \<Rightarrow> reader_capabilities" where
  "dummy_capabilities d =
     \<lparr>cap_name = ''dummy'', supports_iso_dep = True, supports_apdu_exchange = True\<rparr>"

definition dummy_card :: card_presence where
  "dummy_card =
     \<lparr>uid = [0x01, 0x02, 0x03, 0x04], card_protocol = IsoDep, historical_bytes = DUMMY_ATR\<rparr>"

definition dummy_poll_card ::
    "dummy_reader \<Rightarrow> (card_presence option, reader_error) result \<times> dummy_reader" where
  "dummy_poll_card d = (if dummy_card_present d then (Ok (Some dummy_card), d) else (Ok None, d))"

definition dummy_power_off :: "dummy_reader \<Rightarrow> (unit, reader_error) result \<times> dummy_reader" where
  "dummy_power_off d = (Ok (), d\<lparr>selected_applet := NoApplet\<rparr>)"

subsection \<open>APDUs\<close>

text \<open>
  The five parts of a parsed short APDU: class, instruction, the two parameters, the data. The outer
  option is the panic of an index or a slice out of range, the inner one the function's own.
\<close>

type_synonym short_apdu = "byte \<times> byte \<times> byte \<times> byte \<times> byte list"

definition parse_short_apdu :: "byte list \<Rightarrow> short_apdu option option" where
  "parse_short_apdu apdu =
     (if length apdu < 4 then Some None
      else do {
        cla \<leftarrow> checked_nth apdu 0;
        ins \<leftarrow> checked_nth apdu 1;
        p1 \<leftarrow> checked_nth apdu 2;
        p2 \<leftarrow> checked_nth apdu 3;
        body \<leftarrow> checked_slice apdu 4 (length apdu);
        if body = [] then Some (Some (cla, ins, p1, p2, []))
        else if length body = 1 then Some (Some (cla, ins, p1, p2, []))
        else do {
          lc_byte \<leftarrow> checked_nth body 0;
          let lc = unat lc_byte;
          if length body < 1 + lc then Some None
          else do {
            data \<leftarrow> checked_slice body 1 (1 + lc);
            Some (Some (cla, ins, p1, p2, data))
          }
        }
      })"

definition encode_text :: "byte list \<Rightarrow> byte list option" where
  "encode_text v =
     (if \<not> length v < 24 then None
      else Some ((0x60 OR of_nat (length v)) # v))"

definition authenticator_get_info :: "byte list option" where
  "authenticator_get_info = do {
     u2f \<leftarrow> encode_text FIDO_VERSION_U2F_V2;
     fido2 \<leftarrow> encode_text FIDO_VERSION_2_0;
     rk \<leftarrow> encode_text (ascii ''rk'');
     up \<leftarrow> encode_text (ascii ''up'');
     plat \<leftarrow> encode_text (ascii ''plat'');
     client_pin \<leftarrow> encode_text (ascii ''clientPin'');
     nfc \<leftarrow> encode_text FIDO_TRANSPORT_NFC;
     Some ([0xa6]
       @ [0x01] @ [0x82] @ u2f @ fido2
       @ [0x03] @ [0x50] @ FIDO_DUMMY_AAGUID
       @ [0x04] @ [0xa4] @ rk @ [0xf4] @ up @ [0xf5] @ plat @ [0xf4] @ client_pin @ [0xf4]
       @ [0x05] @ [0x19, 0x04, 0x00]
       @ [0x06] @ [0x81, 0x01]
       @ [0x09] @ [0x81] @ nfc)
   }"

definition ctap_success :: "byte list \<Rightarrow> byte list" where
  "ctap_success payload = 0x00 # payload"

definition ctap_error :: "byte \<Rightarrow> byte list" where
  "ctap_error code = [code]"

definition append_status :: "byte list \<Rightarrow> byte list \<Rightarrow> byte list" where
  "append_status response status = response @ status"

definition handle_ctap_msg :: "byte \<Rightarrow> byte list \<Rightarrow> byte list option" where
  "handle_ctap_msg p1 data =
     (if p1 AND 0x7f \<noteq> 0 then Some SW_WRONG_PARAMETERS
      else case data of
        [] \<Rightarrow> Some SW_WRONG_LENGTH
      | command # payload \<Rightarrow> do {
          response \<leftarrow>
            (if command = 0x04 \<and> payload = [] then do {
               info \<leftarrow> authenticator_get_info;
               Some (ctap_success info)
             }
             else Some (ctap_error CTAP2_ERR_INVALID_COMMAND));
          Some (append_status response SW_SUCCESS)
        })"

text \<open>
  The arms of the \<open>match\<close> in \<open>handle_apdu\<close>, in their order; the selected applet is the only state
  they read or write.
\<close>

definition handle_apdu ::
    "dummy_reader \<Rightarrow> byte list \<Rightarrow> ((byte list, reader_error) result \<times> dummy_reader) option" where
  "handle_apdu d apdu =
     (if \<not> dummy_card_present d then
        Some (Err (Protocol ''no card present in dummy reader''), d)
      else case parse_short_apdu apdu of
        None \<Rightarrow> None
      | Some None \<Rightarrow> Some (Ok SW_WRONG_LENGTH, d)
      | Some (Some (cla, ins, p1, p2, data)) \<Rightarrow>
          if cla = 0x00 \<and> ins = 0xa4 \<and> p1 = 0x04 \<and> (p2 = 0x00 \<or> p2 = 0x0c) \<and> data = FIDO_AID then
            Some (Ok (append_status FIDO_VERSION_U2F_V2 SW_SUCCESS), d\<lparr>selected_applet := Fido\<rparr>)
          else if cla = 0x80 \<and> ins = FIDO_NFCCTAP_MSG \<and> p2 = 0x00 \<and> selected_applet d = Fido then do {
            response \<leftarrow> handle_ctap_msg p1 data;
            Some (Ok response, d)
          }
          else if cla = 0x80 \<and> ins = FIDO_NFCCTAP_GET_RESPONSE \<and> p1 = 0x00 \<and> p2 = 0x00
                  \<and> selected_applet d = Fido then
            Some (Ok SW_INS_NOT_SUPPORTED, d)
          else if cla = 0x80 \<and> ins = FIDO_NFCCTAP_CONTROL \<and> p1 = FIDO_NFC_END_CTAP_MSG \<and> p2 = 0x00
                  \<and> selected_applet d = Fido then
            Some (Ok SW_SUCCESS, d\<lparr>selected_applet := NoApplet\<rparr>)
          else if cla = 0x00 \<and> ins = 0xa4 \<and> p1 = 0x04 \<and> (p2 = 0x00 \<or> p2 = 0x0c) then
            Some (Ok SW_FILE_NOT_FOUND, d)
          else Some (Ok SW_INS_NOT_SUPPORTED, d))"

text \<open>\<open>exchange_apdu\<close> of the trait; \<open>the\<close> is justified by \<open>handle_apdu_total\<close> below.\<close>

definition dummy_exchange_apdu ::
    "dummy_reader \<Rightarrow> byte list \<Rightarrow> (byte list, reader_error) result \<times> dummy_reader" where
  "dummy_exchange_apdu d apdu = the (handle_apdu d apdu)"

definition dummy_reader_ops :: "dummy_reader nfc_reader" where
  "dummy_reader_ops =
     \<lparr>capabilities = dummy_capabilities, poll_card = dummy_poll_card,
      power_off = dummy_power_off, exchange_apdu = dummy_exchange_apdu\<rparr>"

lemma dummy_reader_ops_sel [simp]:
  "capabilities dummy_reader_ops = dummy_capabilities"
  "poll_card dummy_reader_ops = dummy_poll_card"
  "power_off dummy_reader_ops = dummy_power_off"
  "exchange_apdu dummy_reader_ops = dummy_exchange_apdu"
  by (simp_all add: dummy_reader_ops_def)

subsection \<open>No APDU makes the reader panic\<close>

lemma encode_text_short: "length v < 24 \<Longrightarrow> encode_text v = Some ((0x60 OR of_nat (length v)) # v)"
  by (simp add: encode_text_def)

definition get_info_bytes :: "byte list" where
  "get_info_bytes = the authenticator_get_info"

lemma authenticator_get_info_total: "authenticator_get_info = Some get_info_bytes"
proof -
  have "\<exists>x. authenticator_get_info = Some x"
    by (simp add: authenticator_get_info_def encode_text_def FIDO_VERSION_U2F_V2_def
        FIDO_VERSION_2_0_def FIDO_TRANSPORT_NFC_def)
  then show ?thesis
    by (auto simp: get_info_bytes_def)
qed

lemma handle_ctap_msg_total: "\<exists>r. handle_ctap_msg p1 data = Some r"
  by (simp add: handle_ctap_msg_def authenticator_get_info_total split: list.split)

text \<open>Every index and every slice of \<open>parse_short_apdu\<close> is in range, so it returns.\<close>

lemma parse_short_apdu_in_range: "parse_short_apdu apdu \<noteq> None"
proof (cases "length apdu < 4")
  case False
  then obtain cla ins p1 p2 body where "apdu = cla # ins # p1 # p2 # body"
    by (auto simp: numeral_eq_Suc Suc_le_length_iff not_less)
  then show ?thesis
    by (cases body) (auto simp: parse_short_apdu_def checked_nth_def checked_slice_def Let_def)
qed (simp add: parse_short_apdu_def)

lemma parse_short_apdu_returns:
  obtains "parse_short_apdu apdu = Some None"
  | t where "parse_short_apdu apdu = Some (Some t)"
  using parse_short_apdu_in_range [of apdu] by (metis not_None_eq)

lemma handle_apdu_total: "\<exists>res d'. handle_apdu d apdu = Some (res, d')"
proof (cases rule: parse_short_apdu_returns [of apdu])
  case 1
  then show ?thesis by (simp add: handle_apdu_def)
next
  case (2 t)
  obtain cla ins p1 p2 data where "t = (cla, ins, p1, p2, data)"
    by (cases t)
  moreover obtain r where "handle_ctap_msg p1 data = Some r"
    using handle_ctap_msg_total by blast
  ultimately show ?thesis
    using 2 by (simp add: handle_apdu_def)
qed

lemma dummy_exchange_iff:
  "dummy_exchange_apdu d apdu = (res, d') \<longleftrightarrow> handle_apdu d apdu = Some (res, d')"
  using handle_apdu_total [of d apdu] by (auto simp: dummy_exchange_apdu_def)

subsection \<open>The applet state machine\<close>

text \<open>The two kinds of APDU that move the state: SELECT of the FIDO applet, and its END command.\<close>

definition selects_fido :: "byte list \<Rightarrow> bool" where
  "selects_fido apdu \<longleftrightarrow>
     parse_short_apdu apdu = Some (Some (0x00, 0xa4, 0x04, 0x00, FIDO_AID))
   \<or> parse_short_apdu apdu = Some (Some (0x00, 0xa4, 0x04, 0x0c, FIDO_AID))"

definition ends_ctap :: "byte list \<Rightarrow> bool" where
  "ends_ctap apdu =
     (case parse_short_apdu apdu of
        Some (Some (cla, ins, p1, p2, data)) \<Rightarrow> cla = 0x80 \<and> ins = 0x12 \<and> p1 = 0x01 \<and> p2 = 0x00
      | _ \<Rightarrow> False)"

lemma handle_apdu_cases:
  assumes "handle_apdu d apdu = Some (res, d')"
  obtains (absent) m where "\<not> dummy_card_present d" "res = Err (Protocol m)" "d' = d"
  | (select) "dummy_card_present d" "selects_fido apdu"
      "res = Ok (FIDO_VERSION_U2F_V2 @ SW_SUCCESS)" "d' = d\<lparr>selected_applet := Fido\<rparr>"
  | (ctap) p1 data r where "dummy_card_present d" "selected_applet d = Fido"
      "\<not> selects_fido apdu" "\<not> ends_ctap apdu"
      "handle_ctap_msg p1 data = Some r" "res = Ok r" "d' = d"
  | (finish) "dummy_card_present d" "selected_applet d = Fido" "\<not> selects_fido apdu"
      "ends_ctap apdu" "res = Ok SW_SUCCESS" "d' = d\<lparr>selected_applet := NoApplet\<rparr>"
  | (other) sw where "dummy_card_present d" "\<not> selects_fido apdu"
      "ends_ctap apdu \<longrightarrow> selected_applet d \<noteq> Fido" "d' = d" "res = Ok sw"
      "sw = SW_WRONG_LENGTH \<or> sw = SW_INS_NOT_SUPPORTED \<or> sw = SW_FILE_NOT_FOUND"
proof (cases rule: parse_short_apdu_returns [of apdu])
  case 1
  then show ?thesis
    using assms absent other
    by (auto simp: handle_apdu_def selects_fido_def ends_ctap_def split: if_splits)
next
  case (2 t)
  note parsed = 2
  obtain cla ins p1 p2 data where t: "t = (cla, ins, p1, p2, data)"
    by (cases t)
  note * = assms [unfolded handle_apdu_def parsed t option.case prod.case append_status_def]
  have sel: "selects_fido apdu \<longleftrightarrow>
      cla = 0x00 \<and> ins = 0xa4 \<and> p1 = 0x04 \<and> (p2 = 0x00 \<or> p2 = 0x0c) \<and> data = FIDO_AID"
    by (auto simp: selects_fido_def parsed t)
  have fin: "ends_ctap apdu \<longleftrightarrow> cla = 0x80 \<and> ins = 0x12 \<and> p1 = 0x01 \<and> p2 = 0x00"
    by (simp add: ends_ctap_def parsed t)
  let ?msg = "cla = 0x80 \<and> ins = 0x10 \<and> p2 = 0x00 \<and> selected_applet d = Fido"
  let ?get = "cla = 0x80 \<and> ins = 0x11 \<and> p1 = 0x00 \<and> p2 = 0x00 \<and> selected_applet d = Fido"
  let ?fin = "ends_ctap apdu \<and> selected_applet d = Fido"
  note codes = FIDO_NFCCTAP_MSG_def FIDO_NFCCTAP_GET_RESPONSE_def FIDO_NFCCTAP_CONTROL_def
    FIDO_NFC_END_CTAP_MSG_def
  consider "\<not> dummy_card_present d" | "dummy_card_present d" "selects_fido apdu"
    | "dummy_card_present d" "\<not> selects_fido apdu" ?msg
    | "dummy_card_present d" "\<not> selects_fido apdu" "\<not> ?msg" ?get
    | "dummy_card_present d" "\<not> selects_fido apdu" "\<not> ?msg" "\<not> ?get" ?fin
    | "dummy_card_present d" "\<not> selects_fido apdu" "\<not> ?msg" "\<not> ?get" "\<not> ?fin"
    by blast
  then show ?thesis
  proof cases
    case 1
    then show ?thesis using * by (intro absent) auto
  next
    case 2
    then show ?thesis using * by (intro select) (auto simp: sel)
  next
    case 3
    then show ?thesis using * by (intro ctap [of p1 data "the (handle_ctap_msg p1 data)"])
        (auto simp: sel fin codes split: bind_splits)
  next
    case 4
    then show ?thesis using * by (intro other [of SW_INS_NOT_SUPPORTED]) (auto simp: sel fin codes)
  next
    case 5
    then show ?thesis using * by (intro finish) (auto simp: sel fin codes)
  next
    case 6
    have "\<not> \<not> dummy_card_present d"
      and "\<not> (cla = 0x00 \<and> ins = 0xa4 \<and> p1 = 0x04 \<and> (p2 = 0x00 \<or> p2 = 0x0c) \<and> data = FIDO_AID)"
      and "\<not> (cla = 0x80 \<and> ins = 0x12 \<and> p1 = 0x01 \<and> p2 = 0x00 \<and> selected_applet d = Fido)"
      using 6(1,2,5) unfolding sel fin by blast+
    note guards = this(1,2) 6(3,4) this(3)
    have "Some (res, d') = Some (Ok SW_FILE_NOT_FOUND, d) \<or> Some (res, d') = Some (Ok SW_INS_NOT_SUPPORTED, d)"
      unfolding * [unfolded codes, symmetric]
      by (simp only: guards if_False simp_thms split: if_split)
    then show ?thesis
      using 6 by (intro other [of "projr res"]) auto
  qed
qed

lemma handle_ctap_msg_sw: "handle_ctap_msg p1 data = Some r \<Longrightarrow> 2 \<le> length r"
  by (auto simp: handle_ctap_msg_def append_status_def sw_defs authenticator_get_info_total
      split: if_splits list.splits)

lemma dummy_exchange_present [simp]:
  "dummy_card_present (snd (dummy_exchange_apdu d a)) = dummy_card_present d"
proof -
  obtain res d' where h: "handle_apdu d a = Some (res, d')"
    using handle_apdu_total by blast
  then have "snd (dummy_exchange_apdu d a) = d'"
    by (simp add: dummy_exchange_apdu_def)
  with h show ?thesis
    by (cases rule: handle_apdu_cases) simp_all
qed

lemma dummy_exchange_never_lost: "dummy_exchange_apdu d a \<noteq> (Err (TargetLost m), d')"
proof
  assume "dummy_exchange_apdu d a = (Err (TargetLost m), d')"
  then have "handle_apdu d a = Some (Err (TargetLost m), d')"
    by (simp add: dummy_exchange_iff)
  then show False
    by (cases rule: handle_apdu_cases) simp_all
qed

lemma dummy_exchange_applet:
  "dummy_card_present d \<Longrightarrow>
     selected_applet (snd (dummy_exchange_apdu d a)) =
       (if selects_fido a then Fido else if ends_ctap a then NoApplet else selected_applet d)"
proof -
  assume present: "dummy_card_present d"
  obtain res d' where h: "handle_apdu d a = Some (res, d')"
    using handle_apdu_total by blast
  then have "snd (dummy_exchange_apdu d a) = d'"
    by (simp add: dummy_exchange_apdu_def)
  with h show ?thesis
    using present selected_applet.exhaust [of "selected_applet d"]
    by (cases rule: handle_apdu_cases) auto
qed

subsection \<open>The reader contract\<close>

lemma dummy_poll_cases:
  "dummy_poll_card d = (res, d') \<Longrightarrow>
     d' = d \<and> res = (if dummy_card_present d then Ok (Some dummy_card) else Ok None)"
  by (simp add: dummy_poll_card_def split: if_splits)

lemma dummy_exchange_present_eq:
  "dummy_exchange_apdu d a = (res, d') \<Longrightarrow> dummy_card_present d' = dummy_card_present d"
  using dummy_exchange_present [of d a] by simp

lemma dummy_off_present_eq:
  "dummy_power_off d = (res, d') \<Longrightarrow> dummy_card_present d' = dummy_card_present d"
  by (auto simp: dummy_power_off_def)

lemma dummy_exchange_not_lost: "fst (dummy_exchange_apdu d a) \<noteq> Err (TargetLost m)"
  using dummy_exchange_never_lost [of d a m "snd (dummy_exchange_apdu d a)"]
  by (auto simp: prod_eq_iff)

text \<open>
  A dummy reader is attached while its card is present; the contract needs no invariant of its
  own. With the card present, as the factory opens it, the reader is a \<open>present_reader\<close>.
\<close>

interpretation dummy_contract: reader_contract dummy_reader_ops "\<lambda>d. True" dummy_card_present
  by unfold_locales
    (auto simp: dummy_exchange_never_lost dummy_capabilities_def
      dest: dummy_poll_cases dummy_exchange_present_eq split: if_splits)

interpretation dummy_present: present_reader dummy_reader_ops dummy_card_present
    dummy_card_present dummy_card
  by unfold_locales
    (auto simp: dummy_capabilities_def dummy_power_off_def dummy_poll_card_def
      dummy_exchange_never_lost dummy_exchange_not_lost
      dest: dummy_poll_cases dummy_exchange_present_eq split: if_splits)

subsection \<open>Sessions with the applet\<close>

primrec dummy_run :: "byte list list \<Rightarrow> dummy_reader \<Rightarrow> dummy_reader" where
  "dummy_run [] d = d"
| "dummy_run (a # as) d = dummy_run as (snd (dummy_exchange_apdu d a))"

definition fresh_dummy :: dummy_reader where
  "fresh_dummy = \<lparr>dummy_card_present = True, selected_applet = NoApplet\<rparr>"

lemma dummy_run_append: "dummy_run (as @ bs) d = dummy_run bs (dummy_run as d)"
  by (induction as arbitrary: d) simp_all

lemma dummy_run_present [simp]: "dummy_card_present (dummy_run as d) = dummy_card_present d"
  by (induction as arbitrary: d) simp_all

lemma selects_not_ends: "selects_fido a \<Longrightarrow> \<not> ends_ctap a"
  by (auto simp: selects_fido_def ends_ctap_def)

text \<open>Some APDU of the session selects the applet and no later one ends it.\<close>

fun applet_chosen :: "byte list list \<Rightarrow> bool" where
  "applet_chosen [] = False"
| "applet_chosen (a # as) = (applet_chosen as \<or> selects_fido a \<and> list_all (\<lambda>b. \<not> ends_ctap b) as)"

lemma applet_chosen_snoc:
  "applet_chosen (as @ [a]) \<longleftrightarrow> selects_fido a \<or> applet_chosen as \<and> \<not> ends_ctap a"
  by (induction as) (auto dest: selects_not_ends)

lemma dummy_run_applet:
  "selected_applet (dummy_run as fresh_dummy) = Fido \<longleftrightarrow> applet_chosen as"
proof (induction as rule: rev_induct)
  case Nil
  then show ?case by (simp add: fresh_dummy_def)
next
  case (snoc a as)
  have "dummy_card_present (dummy_run as fresh_dummy)"
    by (simp add: fresh_dummy_def)
  then show ?case
    using snoc by (simp add: dummy_run_append dummy_exchange_applet applet_chosen_snoc)
qed

subsection \<open>The client's side: short APDUs and CBOR\<close>

text \<open>A short command APDU: the header, the data with its length byte, an optional \<open>Le\<close>.\<close>

definition encode_short_apdu ::
    "byte \<Rightarrow> byte \<Rightarrow> byte \<Rightarrow> byte \<Rightarrow> byte list \<Rightarrow> byte option \<Rightarrow> byte list" where
  "encode_short_apdu cla ins p1 p2 data le =
     [cla, ins, p1, p2] @ (if data = [] then [] else of_nat (length data) # data)
     @ (case le of None \<Rightarrow> [] | Some l \<Rightarrow> [l])"

lemma parse_encode_short:
  assumes "length data \<le> 255"
  shows "parse_short_apdu (encode_short_apdu cla ins p1 p2 data le) = Some (Some (cla, ins, p1, p2, data))"
proof -
  have "unat (of_nat (length data) :: byte) = length data"
    using assms by (subst unat_of_nat) simp
  then show ?thesis
    by (auto simp: parse_short_apdu_def encode_short_apdu_def split: option.splits)
qed

text \<open>
  The part of CBOR (RFC 8949) the answers use: definite lengths, integers, strings, arrays, maps
  (keys and values alternate) and booleans. \<open>cbor_items fuel n bs\<close> reads \<open>n\<close> items from \<open>bs\<close>.
\<close>

datatype cbor = CUint nat | CBytes "byte list" | CText "byte list" | CArr "cbor list"
  | CMap "cbor list" | CBool bool

definition cbor_head :: "byte \<Rightarrow> byte list \<Rightarrow> (nat \<times> nat \<times> byte list) option" where
  "cbor_head b rest =
     (let major = unat b div 32; info = unat b mod 32
      in if info < 24 then Some (major, info, rest)
         else if info = 24 \<and> 1 \<le> length rest then Some (major, unat (rest ! 0), drop 1 rest)
         else if info = 25 \<and> 2 \<le> length rest then
           Some (major, unat (rest ! 0) * 256 + unat (rest ! 1), drop 2 rest)
         else None)"

fun cbor_items :: "nat \<Rightarrow> nat \<Rightarrow> byte list \<Rightarrow> (cbor list \<times> byte list) option" where
  "cbor_items 0 n bs = None"
| "cbor_items (Suc f) 0 bs = Some ([], bs)"
| "cbor_items (Suc f) (Suc n) [] = None"
| "cbor_items (Suc f) (Suc n) (b # bs) = do {
     (major, arg, rest) \<leftarrow> cbor_head b bs;
     (item, rest) \<leftarrow>
       (if major = 0 then Some (CUint arg, rest)
        else if major = 2 \<and> arg \<le> length rest then Some (CBytes (take arg rest), drop arg rest)
        else if major = 3 \<and> arg \<le> length rest then Some (CText (take arg rest), drop arg rest)
        else if major = 4 then do { (xs, rest) \<leftarrow> cbor_items f arg rest; Some (CArr xs, rest) }
        else if major = 5 then do { (xs, rest) \<leftarrow> cbor_items f (2 * arg) rest; Some (CMap xs, rest) }
        else if major = 7 \<and> (arg = 20 \<or> arg = 21) then Some (CBool (arg = 21), rest)
        else None);
     (items, rest) \<leftarrow> cbor_items f n rest;
     Some (item # items, rest)
   }"

text \<open>The authenticator's description, as CTAP2 defines the members of \<open>authenticatorGetInfo\<close>.\<close>

definition expected_info :: cbor where
  "expected_info = CMap
     [CUint 1, CArr [CText (ascii ''U2F_V2''), CText (ascii ''FIDO_2_0'')],
      CUint 3, CBytes (ascii ''vusbipd-ccid-fid''),
      CUint 4, CMap [CText (ascii ''rk''), CBool False, CText (ascii ''up''), CBool True,
                     CText (ascii ''plat''), CBool False, CText (ascii ''clientPin''), CBool False],
      CUint 5, CUint 1024,
      CUint 6, CArr [CUint 1],
      CUint 9, CArr [CText (ascii ''nfc'')]]"

lemma get_info_bytes_eq:
  "get_info_bytes =
     [0xa6, 0x01, 0x82, 0x66, 0x55, 0x32, 0x46, 0x5f, 0x56, 0x32,
      0x68, 0x46, 0x49, 0x44, 0x4f, 0x5f, 0x32, 0x5f, 0x30,
      0x03, 0x50, 0x76, 0x75, 0x73, 0x62, 0x69, 0x70, 0x64, 0x2d, 0x63, 0x63, 0x69, 0x64, 0x2d,
      0x66, 0x69, 0x64,
      0x04, 0xa4, 0x62, 0x72, 0x6b, 0xf4, 0x62, 0x75, 0x70, 0xf5, 0x64, 0x70, 0x6c, 0x61, 0x74, 0xf4,
      0x69, 0x63, 0x6c, 0x69, 0x65, 0x6e, 0x74, 0x50, 0x69, 0x6e, 0xf4,
      0x05, 0x19, 0x04, 0x00, 0x06, 0x81, 0x01, 0x09, 0x81, 0x63, 0x6e, 0x66, 0x63]"
  by code_simp

lemma cbor_get_info: "cbor_items 20 1 get_info_bytes = Some ([expected_info], [])"
  unfolding get_info_bytes_eq expected_info_def by code_simp

definition status_words :: "byte list list" where
  "status_words =
     [SW_SUCCESS, SW_INS_NOT_SUPPORTED, SW_WRONG_PARAMETERS, SW_WRONG_LENGTH, SW_FILE_NOT_FOUND]"

text \<open>The last two bytes of a response are one of the status words.\<close>

definition ends_with_status :: "byte list \<Rightarrow> bool" where
  "ends_with_status r \<longleftrightarrow> 2 \<le> length r \<and> drop (length r - 2) r \<in> set status_words"

lemma ends_with_status_append: "sw \<in> set status_words \<Longrightarrow> ends_with_status (r @ sw)"
  by (auto simp: ends_with_status_def status_words_def sw_defs)

lemma ends_with_status_word: "sw \<in> set status_words \<Longrightarrow> ends_with_status sw"
  using ends_with_status_append [of sw "[]"] by simp

lemma ends_with_status_simps [simp]:
  "ends_with_status (r @ SW_SUCCESS)" "ends_with_status SW_SUCCESS"
  "ends_with_status SW_INS_NOT_SUPPORTED" "ends_with_status SW_WRONG_PARAMETERS"
  "ends_with_status SW_WRONG_LENGTH" "ends_with_status SW_FILE_NOT_FOUND"
  by (rule ends_with_status_append ends_with_status_word, simp add: status_words_def)+

lemma ctap_msg_status: "handle_ctap_msg p1 data = Some r \<Longrightarrow> ends_with_status r"
  by (auto simp: handle_ctap_msg_def append_status_def authenticator_get_info_total
      split: if_splits list.splits)

lemma handle_apdu_short_answer:
  assumes "handle_apdu d a = Some (Ok r, d')" "2 < length r"
  shows "selects_fido a \<or> selected_applet d = Fido"
  using assms by (cases rule: handle_apdu_cases) (auto simp: sw_defs)

subsection \<open>Properties\<close>

text \<open>C37: The dummy reader always answers. No APDU, of any length and content, makes it panic: the \<open>assert!\<close>
  of its CBOR encoder is never violated, and no index or slice of the APDU parser is out of range,
  whatever length byte the APDU carries. With a card every APDU gets a response that ends in one
  of its status words, and without a card an error.\<close>

theorem dummy_always_answers:
  "case handle_apdu d apdu of
     None \<Rightarrow> False
   | Some (Ok r, d') \<Rightarrow> dummy_card_present d \<and> dummy_card_present d' \<and> ends_with_status r
   | Some (Err e, d') \<Rightarrow> \<not> dummy_card_present d \<and> d' = d"
proof -
  obtain res d' where h: "handle_apdu d apdu = Some (res, d')"
    using handle_apdu_total by blast
  then show ?thesis
    by (cases rule: handle_apdu_cases)
      (auto simp: h dest: ctap_msg_status)
qed

text \<open>C24: The applet is selected exactly when the session selected it: after any sequence of APDUs
  to a fresh reader it is selected if and only if some APDU was the SELECT of the FIDO AID and no
  later one was the END command.\<close>

theorem applet_selected_iff_session:
  "selected_applet (dummy_run as fresh_dummy) = Fido \<longleftrightarrow> applet_chosen as"
  by (rule dummy_run_applet)

text \<open>C23: Nothing but status words leaves an unselected card: a response that carries data is the
  answer to the SELECT itself, or comes after a SELECT of the FIDO AID in the same session that
  no END command has cancelled.\<close>

theorem data_needs_selection:
  assumes "dummy_exchange_apdu (dummy_run as fresh_dummy) a = (Ok r, d')"
    and "2 < length r"
  shows "selects_fido a \<or> applet_chosen as"
  using assms handle_apdu_short_answer [of "dummy_run as fresh_dummy" a r d']
  by (simp add: dummy_exchange_iff dummy_run_applet)

theorem data_needs_selection_witness:
  "let select = [0x00, 0xa4, 0x04, 0x00, 0x08, 0xa0, 0x00, 0x00, 0x06, 0x47, 0x2f, 0x00, 0x01];
       get_info = [0x80, 0x10, 0x80, 0x00, 0x01, 0x04]
   in selects_fido get_info \<or> applet_chosen [select]"
proof -
  have "dummy_exchange_apdu (dummy_run
       [[0x00, 0xa4, 0x04, 0x00, 0x08, 0xa0, 0x00, 0x00, 0x06, 0x47, 0x2f, 0x00, 0x01]] fresh_dummy)
       [0x80, 0x10, 0x80, 0x00, 0x01, 0x04] =
     (Ok (0x00 # get_info_bytes @ SW_SUCCESS), \<lparr>dummy_card_present = True, selected_applet = Fido\<rparr>)"
    by code_simp
  from data_needs_selection [OF this] show ?thesis
    by (simp add: get_info_bytes_eq sw_defs)
qed

text \<open>C35: \<open>authenticatorGetInfo\<close> on a selected applet, with either value of the chaining bit,
  answers the CTAP success code, a CBOR map that reads back as the authenticator's description
  with nothing left over, and the status word 9000; the reader does not change.\<close>

theorem get_info_answer:
  assumes "dummy_card_present d" "selected_applet d = Fido" "p1 = 0x00 \<or> p1 = 0x80"
  shows "\<exists>info. dummy_exchange_apdu d [0x80, 0x10, p1, 0x00, 0x01, 0x04] =
      (Ok ([0x00] @ info @ [0x90, 0x00]), d)
    \<and> cbor_items 20 1 info = Some ([expected_info], [])"
proof -
  have "p1 AND 0x7f = 0"
    using assms by auto
  then have "dummy_exchange_apdu d [0x80, 0x10, p1, 0x00, 0x01, 0x04] =
      (Ok ([0x00] @ get_info_bytes @ [0x90, 0x00]), d)"
    using assms
    by (simp add: dummy_exchange_apdu_def handle_apdu_def parse_short_apdu_def handle_ctap_msg_def
        authenticator_get_info_total ctap_success_def append_status_def FIDO_NFCCTAP_MSG_def sw_defs)
  then show ?thesis
    using cbor_get_info by blast
qed

theorem get_info_answer_witness:
  "\<exists>info. dummy_exchange_apdu \<lparr>dummy_card_present = True, selected_applet = Fido\<rparr>
      [0x80, 0x10, 0x80, 0x00, 0x01, 0x04] =
      (Ok ([0x00] @ info @ [0x90, 0x00]), \<lparr>dummy_card_present = True, selected_applet = Fido\<rparr>)
    \<and> cbor_items 20 1 info = Some ([expected_info], [])"
  by (rule get_info_answer) simp_all

end
