(* ===== verification/Pn532_Frame.thy ===== *)
theory Pn532_Frame
  imports Nfc_Reader
begin

text \<open>
  The response frames of the PN532 and what the driver reads out of them, the pure part of
  \<open>src/nfc/pn532.rs\<close>: \<open>receive_dynamic_response_from\<close> over any \<open>Read\<close>, \<open>ats_historical_bytes\<close>,
  \<open>map_pn532_error\<close> and the small predicates.

  A \<open>Read\<close> is a function \<open>rd\<close> of the state of the stream: \<open>rd n p\<close> is \<open>read_exact\<close> into a
  buffer of \<open>n\<close> bytes. \<open>slice_read\<close> is its implementation for byte slices. The frames of the
  PN532 user manual (\<open>normal_frame\<close>, \<open>extended_frame\<close>) are the specification side.
\<close>

definition PREAMBLE :: "byte list" where "PREAMBLE = [0x00, 0x00, 0xff]"
definition PN532_TO_HOST :: byte where "PN532_TO_HOST = 0xd5"
definition POSTAMBLE :: byte where "POSTAMBLE = 0x00"
definition EXTENDED_FRAME_MARKER :: "byte list" where "EXTENDED_FRAME_MARKER = [0xff, 0xff]"
definition ATS_T0_TA_PRESENT :: byte where "ATS_T0_TA_PRESENT = 0x10"
definition ATS_T0_TB_PRESENT :: byte where "ATS_T0_TB_PRESENT = 0x20"
definition ATS_T0_TC_PRESENT :: byte where "ATS_T0_TC_PRESENT = 0x40"

lemmas [frame_defs] = PREAMBLE_def PN532_TO_HOST_def POSTAMBLE_def EXTENDED_FRAME_MARKER_def

text \<open>The error type of the \<open>pn532\<close> crate, with \<open>std::io::Error\<close> as the interface's error.\<close>

datatype pn532_error = BadAck | BadResponseFrame | Syntax | CrcError | BufTooSmall | TimeoutAck
  | TimeoutResponse | InterfaceError io_error

definition map_pn532_error :: "string \<Rightarrow> pn532_error \<Rightarrow> reader_error" where
  "map_pn532_error action error =
     (case error of
        BadAck \<Rightarrow> Protocol (''failed to '' @ action @ '': bad PN532 ACK'')
      | BadResponseFrame \<Rightarrow> Protocol (''failed to '' @ action @ '': malformed PN532 response frame'')
      | Syntax \<Rightarrow> Protocol (''failed to '' @ action @ '': PN532 syntax error frame'')
      | CrcError \<Rightarrow> Protocol (''failed to '' @ action @ '': PN532 checksum error'')
      | BufTooSmall \<Rightarrow>
          Protocol (''failed to '' @ action @ '': configured PN532 response buffer is too small'')
      | TimeoutAck \<Rightarrow> Transport (''failed to '' @ action @ '': timeout waiting for PN532 ACK'')
      | TimeoutResponse \<Rightarrow>
          Transport (''failed to '' @ action @ '': timeout waiting for PN532 response'')
      | InterfaceError inner \<Rightarrow> Io (io_display inner))"

lemma map_pn532_error_not_lost [simp]:
  "map_pn532_error action error \<noteq> TargetLost m" "TargetLost m \<noteq> map_pn532_error action error"
  by (auto simp: map_pn532_error_def split: pn532_error.splits)

definition pn532_format_hex :: "byte list \<Rightarrow> string" where
  "pn532_format_hex bytes = concat (map fmt_02x bytes)"

definition can_return_cached_presence :: "bool \<Rightarrow> bool \<Rightarrow> bool \<Rightarrow> bool" where
  "can_return_cached_presence card_cached target_active recently_polled \<longleftrightarrow>
     recently_polled \<and> (\<not> card_cached \<or> target_active)"

definition exchange_status_keeps_target_active :: "byte \<Rightarrow> bool" where
  "exchange_status_keeps_target_active status \<longleftrightarrow> status = 0x00"

definition ats_historical_bytes :: "byte list \<Rightarrow> (byte list, reader_error) result" where
  "ats_historical_bytes ats =
     (if length ats < 2 then
        Err (Protocol (''ATS too short: '' @ fmt_nat (length ats) @ '' bytes''))
      else
        let declared_len = unat (ats ! 0)
        in if declared_len \<noteq> length ats then
             Err (Protocol (''ATS length mismatch: TL='' @ fmt_nat declared_len
               @ '' actual='' @ fmt_nat (length ats)))
           else
             let t0 = ats ! 1;
                 historical_start = 2
                   + (if t0 AND ATS_T0_TA_PRESENT \<noteq> 0 then 1 else 0)
                   + (if t0 AND ATS_T0_TB_PRESENT \<noteq> 0 then 1 else 0)
                   + (if t0 AND ATS_T0_TC_PRESENT \<noteq> 0 then 1 else 0)
             in if historical_start > length ats then
                  Err (Protocol (''ATS optional interface bytes exceed TL: TL='' @ fmt_nat declared_len
                    @ '' T0=0x'' @ fmt_02x t0))
                else Ok (drop historical_start ats))"

subsection \<open>Receiving a response frame\<close>

text \<open>\<open>reader.read_exact(&mut buffer)?\<close> with a buffer of \<open>n\<close> bytes.\<close>

definition read_buffer ::
    "(nat \<Rightarrow> 'p \<Rightarrow> (byte list, io_error) result \<times> 'p) \<Rightarrow> nat \<Rightarrow> 'p
      \<Rightarrow> (byte list, pn532_error) result \<times> 'p" where
  "read_buffer rd n p =
     (case rd n p of
        (Err e, p') \<Rightarrow> (Err (InterfaceError e), p')
      | (Ok bs, p') \<Rightarrow> (Ok (fill_buffer n bs), p'))"

text \<open>The length field, normal or extended, after the five bytes of the header.\<close>

definition receive_frame_len ::
    "(nat \<Rightarrow> 'p \<Rightarrow> (byte list, io_error) result \<times> 'p) \<Rightarrow> byte list \<Rightarrow> 'p
      \<Rightarrow> (nat, pn532_error) result \<times> 'p" where
  "receive_frame_len rd header p =
     (if take 2 (drop 3 header) = EXTENDED_FRAME_MARKER then
        (case read_buffer rd 3 p of
           (Err e, p1) \<Rightarrow> (Err e, p1)
         | (Ok ext, p1) \<Rightarrow>
             if ext ! 0 + ext ! 1 + ext ! 2 \<noteq> 0 then (Err CrcError, p1)
             else (Ok (unat (u16_from_be (ext ! 0) (ext ! 1))), p1))
      else if header ! 3 + header ! 4 \<noteq> 0 then (Err CrcError, p)
      else (Ok (unat (header ! 3)), p))"

text \<open>The checks on the frame's body, its checksum and the postamble.\<close>

definition check_frame :: "byte \<Rightarrow> byte list \<Rightarrow> (byte list, pn532_error) result" where
  "check_frame expected_response_command frame =
     (if frame ! (length frame - 1) \<noteq> POSTAMBLE then Err BadResponseFrame
      else if frame ! 0 \<noteq> PN532_TO_HOST \<or> frame ! 1 \<noteq> expected_response_command then
        Err BadResponseFrame
      else if foldl (\<lambda>sum b. sum + b) 0 (take (length frame - 1) frame) \<noteq> 0 then Err CrcError
      else Ok (take (length frame - 2 - 2) (drop 2 frame)))"

definition receive_dynamic_response_from ::
    "(nat \<Rightarrow> 'p \<Rightarrow> (byte list, io_error) result \<times> 'p) \<Rightarrow> byte \<Rightarrow> 'p
      \<Rightarrow> (byte list, pn532_error) result \<times> 'p" where
  "receive_dynamic_response_from rd expected_response_command p =
     (case read_buffer rd 5 p of
        (Err e, p1) \<Rightarrow> (Err e, p1)
      | (Ok header, p1) \<Rightarrow>
          if take 3 header \<noteq> PREAMBLE then (Err BadResponseFrame, p1)
          else
            case receive_frame_len rd header p1 of
              (Err e, p2) \<Rightarrow> (Err e, p2)
            | (Ok frame_len, p2) \<Rightarrow>
                if frame_len = 0 then (Err BadResponseFrame, p2)
                else if frame_len = 1 then (Err Syntax, p2)
                else
                  case read_buffer rd (frame_len + 2) p2 of
                    (Err e, p3) \<Rightarrow> (Err e, p3)
                  | (Ok frame, p3) \<Rightarrow> (check_frame expected_response_command frame, p3))"

text \<open>\<open>Read for &[u8]\<close>: a slice delivers its bytes in order and fails at its end.\<close>

definition slice_read :: "nat \<Rightarrow> byte list \<Rightarrow> (byte list, io_error) result \<times> byte list" where
  "slice_read n bs =
     (if n \<le> length bs then (Ok (take n bs), drop n bs)
      else (Err (IoError UnexpectedEof_Kind ''failed to fill whole buffer''), []))"

subsection \<open>The frames of the PN532\<close>

definition response_body :: "byte \<Rightarrow> byte list \<Rightarrow> byte list" where
  "response_body cmd payload = 0xd5 # cmd # payload"

definition normal_frame :: "byte \<Rightarrow> byte list \<Rightarrow> byte list" where
  "normal_frame cmd payload =
     (let body = response_body cmd payload; len = of_nat (length body)
      in [0x00, 0x00, 0xff, len, - len] @ body @ [- sum_list body, 0x00])"

definition extended_frame :: "byte \<Rightarrow> byte list \<Rightarrow> byte list" where
  "extended_frame cmd payload =
     (let body = response_body cmd payload;
          hi = of_nat (length body div 256); lo = of_nat (length body mod 256)
      in [0x00, 0x00, 0xff, 0xff, 0xff, hi, lo, - (hi + lo)] @ body @ [- sum_list body, 0x00])"

lemma foldl_sum [simp]: "foldl (\<lambda>sum b. sum + b) (a :: byte) xs = a + sum_list xs"
  by (induction xs arbitrary: a) (simp_all add: add.assoc)

lemma read_slice [simp]:
  "read_buffer slice_read n bs =
     (if n \<le> length bs then (Ok (take n bs), drop n bs)
      else (Err (InterfaceError (IoError UnexpectedEof_Kind ''failed to fill whole buffer'')), []))"
  by (simp add: read_buffer_def slice_read_def)

text \<open>A frame after its header, as \<open>check_frame\<close> accepts it.\<close>

lemma check_frame_Ok:
  assumes "4 \<le> length frame"
  shows "check_frame cmd frame = Ok payload \<longleftrightarrow>
    frame = response_body cmd payload @ [- sum_list (response_body cmd payload), 0x00]"
proof
  assume "check_frame cmd frame = Ok payload"
  then have *: "frame ! (length frame - 1) = 0" "frame ! 0 = 0xd5" "frame ! 1 = cmd"
    "sum_list (take (length frame - 1) frame) = 0"
    "payload = take (length frame - 4) (drop 2 frame)"
    by (auto simp: check_frame_def frame_defs split: if_splits)
  obtain fr p where p: "frame = fr @ [p]"
    using assms by (metis length_0_conv list.size(3) not_numeral_le_zero rev_exhaust)
  obtain f2 c where c: "fr = f2 @ [c]"
    using assms p by (cases fr rule: rev_cases) auto
  obtain t k pl where f2: "f2 = t # k # pl"
    using assms p c by (auto simp: neq_Nil_conv Suc_le_length_iff numeral_eq_Suc)
  have "p = 0" "t = 0xd5" "k = cmd" "payload = pl" "sum_list f2 + c = 0"
    using * by (simp_all add: p c f2 nth_append add.assoc)
  then have "c = - sum_list f2" "f2 = response_body cmd payload" "p = 0"
    by (simp_all only: eq_neg_iff_add_eq_0 add.commute [of c] response_body_def f2)
  then show "frame = response_body cmd payload @ [- sum_list (response_body cmd payload), 0x00]"
    using p c by simp
next
  assume "frame = response_body cmd payload @ [- sum_list (response_body cmd payload), 0x00]"
  then show "check_frame cmd frame = Ok payload"
    by (simp add: check_frame_def frame_defs response_body_def nth_append)
qed

definition receive_body ::
    "byte \<Rightarrow> nat \<Rightarrow> byte list \<Rightarrow> (byte list, pn532_error) result \<times> byte list" where
  "receive_body cmd len bs =
     (if len = 0 then (Err BadResponseFrame, bs)
      else if len = 1 then (Err Syntax, bs)
      else if len + 2 \<le> length bs then
        (check_frame cmd (take (len + 2) bs), drop (len + 2) bs)
      else (Err (InterfaceError (IoError UnexpectedEof_Kind ''failed to fill whole buffer'')), []))"

lemma receive_short:
  "length bs < 5 \<Longrightarrow> \<exists>e p. receive_dynamic_response_from slice_read cmd bs = (Err e, p)"
  by (simp add: receive_dynamic_response_from_def)

lemma receive_bad_preamble:
  "[a, b, c] \<noteq> [0x00, 0x00, 0xff] \<Longrightarrow>
     receive_dynamic_response_from slice_read cmd (a # b # c # l # k # bs) = (Err BadResponseFrame, bs)"
  by (simp add: receive_dynamic_response_from_def PREAMBLE_def)

lemma receive_normal:
  "\<not> (l = 0xff \<and> k = 0xff) \<Longrightarrow>
     receive_dynamic_response_from slice_read cmd (0x00 # 0x00 # 0xff # l # k # bs) =
       (if l + k \<noteq> 0 then (Err CrcError, bs) else receive_body cmd (unat l) bs)"
  by (cases "l = 0xff"; cases "k = 0xff"; simp add: receive_dynamic_response_from_def receive_frame_len_def receive_body_def frame_defs)

lemma receive_extended:
  "receive_dynamic_response_from slice_read cmd (0x00 # 0x00 # 0xff # 0xff # 0xff # hi # lo # k # bs) =
     (if hi + lo + k \<noteq> 0 then (Err CrcError, bs)
      else receive_body cmd (unat (u16_from_be hi lo)) bs)"
  by (simp add: receive_dynamic_response_from_def receive_frame_len_def receive_body_def frame_defs)

lemma receive_extended_short:
  "length bs < 3 \<Longrightarrow>
     \<exists>e p. receive_dynamic_response_from slice_read cmd (0x00 # 0x00 # 0xff # 0xff # 0xff # bs) = (Err e, p)"
  by (simp add: receive_dynamic_response_from_def receive_frame_len_def frame_defs)

lemma length_response_body [simp]: "length (response_body cmd payload) = length payload + 2"
  by (simp add: response_body_def)

lemma receive_body_Ok:
  "receive_body cmd len bs = (Ok payload, rest) \<longleftrightarrow>
     len = length payload + 2
     \<and> bs = response_body cmd payload @ [- sum_list (response_body cmd payload), 0x00] @ rest"
  (is "?L \<longleftrightarrow> ?R")
proof
  let ?frame = "response_body cmd payload @ [- sum_list (response_body cmd payload), 0x00]"
  assume L: ?L
  then have len: "2 \<le> len" "len + 2 \<le> length bs"
    and c: "check_frame cmd (take (len + 2) bs) = Ok payload" "rest = drop (len + 2) bs"
    by (auto simp: receive_body_def split: if_splits)
  have frame: "take (len + 2) bs = ?frame"
    using c(1) len by (subst (asm) check_frame_Ok) auto
  have "length (take (len + 2) bs) = length payload + 4"
    by (simp only: frame) simp
  then have "len = length payload + 2"
    using len by simp
  moreover note frame
  ultimately show "len = length payload + 2 \<and> bs = response_body cmd payload
      @ [- sum_list (response_body cmd payload), 0x00] @ rest"
    using append_take_drop_id [of "len + 2" bs] c(2) by simp
next
  assume R: "len = length payload + 2 \<and> bs = response_body cmd payload
      @ [- sum_list (response_body cmd payload), 0x00] @ rest"
  have "check_frame cmd (response_body cmd payload @ [- sum_list (response_body cmd payload), 0x00])
      = Ok payload"
    by (subst check_frame_Ok) simp_all
  then show ?L
    using R by (simp add: receive_body_def)
qed

lemma unat_len_byte: "n \<le> 255 \<Longrightarrow> unat (of_nat n :: byte) = n"
  by (subst unat_of_nat) simp

lemma len_be_roundtrip:
  "n \<le> 65535 \<Longrightarrow> unat (u16_from_be (of_nat (n div 256)) (of_nat (n mod 256))) = n"
  by (simp add: u16_from_be_def unat_u16_from_le unat_len_byte)

lemma len_be_bytes:
  assumes "unat (u16_from_be hi lo) = n"
  shows "hi = of_nat (n div 256)" "lo = of_nat (n mod 256)" "n \<le> 65535"
proof -
  have n: "n = unat lo + 256 * unat hi"
    using assms by (simp add: u16_from_be_def unat_u16_from_le)
  then have "n div 256 = unat hi" "n mod 256 = unat lo"
    by simp_all
  then show "hi = of_nat (n div 256)" "lo = of_nat (n mod 256)"
    by simp_all
  show "n \<le> 65535"
    using n unat_byte_bound [of hi] unat_byte_bound [of lo] by linarith
qed

lemma length_ge5:
  assumes "5 \<le> length bs"
  obtains a b c l k t where "bs = a # b # c # l # k # t"
  using assms by (auto simp: numeral_eq_Suc Suc_le_length_iff intro: that)

lemma length_ge3:
  assumes "3 \<le> length bs"
  obtains a b c t where "bs = a # b # c # t"
  using assms by (auto simp: numeral_eq_Suc Suc_le_length_iff intro: that)

lemma neg_len_not_marker:
  "2 \<le> n \<Longrightarrow> n \<le> 255 \<Longrightarrow> \<not> ((of_nat n :: byte) = 0xff \<and> - of_nat n = (0xff :: byte))"
  by auto

lemma receive_normal_frame:
  "length payload \<le> 253 \<Longrightarrow>
     receive_dynamic_response_from slice_read cmd (normal_frame cmd payload @ rest) = (Ok payload, rest)"
  unfolding normal_frame_def Let_def append_Cons append_Nil append_assoc
  by (subst receive_normal)
    (use neg_len_not_marker [of "length (response_body cmd payload)"] in
      \<open>auto simp: receive_body_Ok unat_len_byte simp del: of_nat_add of_nat_Suc\<close>)

lemma receive_extended_frame:
  "length payload \<le> 65533 \<Longrightarrow>
     receive_dynamic_response_from slice_read cmd (extended_frame cmd payload @ rest) = (Ok payload, rest)"
  unfolding extended_frame_def Let_def append_Cons append_Nil append_assoc
  by (subst receive_extended)
    (simp add: receive_body_Ok len_be_roundtrip del: of_nat_add of_nat_Suc)

lemma receive_Ok_normal:
  assumes "receive_dynamic_response_from slice_read cmd (0x00 # 0x00 # 0xff # l # k # t) = (Ok payload, rest)"
    and "\<not> (l = 0xff \<and> k = 0xff)"
  shows "length payload \<le> 253 \<and> 0x00 # 0x00 # 0xff # l # k # t = normal_frame cmd payload @ rest"
proof -
  from assms have lk: "l + k = 0" and b: "receive_body cmd (unat l) t = (Ok payload, rest)"
    by (auto simp: receive_normal split: if_splits)
  from b have len: "unat l = length (response_body cmd payload)"
    and t: "t = response_body cmd payload @ [- sum_list (response_body cmd payload), 0x00] @ rest"
    by (simp_all add: receive_body_Ok)
  have "l = of_nat (length (response_body cmd payload))"
    by (simp only: len [symmetric] unsigned_of_nat [symmetric]) simp
  moreover from this lk have "k = - of_nat (length (response_body cmd payload))"
    by (simp only: eq_neg_iff_add_eq_0 add.commute)
  moreover have "length payload \<le> 253"
    using len unat_byte_le [of l] by simp
  ultimately show ?thesis
    using t by (simp add: normal_frame_def Let_def)
qed

lemma receive_Ok_extended:
  assumes "receive_dynamic_response_from slice_read cmd (0x00 # 0x00 # 0xff # 0xff # 0xff # t) = (Ok payload, rest)"
  shows "length payload \<le> 65533 \<and> 0x00 # 0x00 # 0xff # 0xff # 0xff # t = extended_frame cmd payload @ rest"
proof -
  have "3 \<le> length t"
    using assms receive_extended_short [of t cmd] by (cases "3 \<le> length t") auto
  then obtain hi lo k t' where t': "t = hi # lo # k # t'"
    by (rule length_ge3)
  from assms have sum: "hi + lo + k = 0"
    and b: "receive_body cmd (unat (u16_from_be hi lo)) t' = (Ok payload, rest)"
    by (auto simp: receive_extended t' split: if_splits)
  from b have len: "unat (u16_from_be hi lo) = length (response_body cmd payload)"
    and body: "t' = response_body cmd payload @ [- sum_list (response_body cmd payload), 0x00] @ rest"
    by (simp_all add: receive_body_Ok)
  have "k = - (hi + lo)"
    using sum by (simp only: eq_neg_iff_add_eq_0 add.commute [of k])
  then show ?thesis
    using len_be_bytes [OF len] body by (simp add: extended_frame_def Let_def t')
qed

text \<open>Exactly the frames of the manual are accepted.\<close>

lemma receive_Ok_iff:
  "receive_dynamic_response_from slice_read cmd bs = (Ok payload, rest) \<longleftrightarrow>
     length payload \<le> 253 \<and> bs = normal_frame cmd payload @ rest
   \<or> length payload \<le> 65533 \<and> bs = extended_frame cmd payload @ rest"
proof
  assume R: "receive_dynamic_response_from slice_read cmd bs = (Ok payload, rest)"
  then have "5 \<le> length bs"
    using receive_short [of bs cmd] by (cases "5 \<le> length bs") auto
  then obtain a b c l k t where bs: "bs = a # b # c # l # k # t"
    by (rule length_ge5)
  have pre: "a = 0x00" "b = 0x00" "c = 0xff"
    using R receive_bad_preamble [of a b c cmd l k t] by (auto simp: bs)
  show "length payload \<le> 253 \<and> bs = normal_frame cmd payload @ rest
      \<or> length payload \<le> 65533 \<and> bs = extended_frame cmd payload @ rest"
    using R receive_Ok_normal [of cmd l k t payload rest] receive_Ok_extended [of cmd t payload rest]
    by (cases "l = 0xff \<and> k = 0xff") (simp_all add: bs pre)
next
  show "length payload \<le> 253 \<and> bs = normal_frame cmd payload @ rest
      \<or> length payload \<le> 65533 \<and> bs = extended_frame cmd payload @ rest \<Longrightarrow>
    receive_dynamic_response_from slice_read cmd bs = (Ok payload, rest)"
    using receive_normal_frame receive_extended_frame by auto
qed

subsection \<open>The answer to select\<close>

text \<open>The interface bytes that the format byte \<open>T0\<close> of an ATS announces.\<close>

definition interface_bytes :: "byte \<Rightarrow> nat" where
  "interface_bytes t0 =
     (if t0 AND 0x10 \<noteq> 0 then 1 else 0) + (if t0 AND 0x20 \<noteq> 0 then 1 else 0)
     + (if t0 AND 0x40 \<noteq> 0 then 1 else 0)"

lemma ats_historical_iff:
  "ats_historical_bytes ats = Ok hist \<longleftrightarrow>
     (\<exists>tl t0 iface. ats = tl # t0 # iface @ hist \<and> unat tl = length ats
        \<and> length iface = interface_bytes t0)"
proof -
  have start: "2 + (if t0 AND ATS_T0_TA_PRESENT \<noteq> 0 then 1 else 0)
      + (if t0 AND ATS_T0_TB_PRESENT \<noteq> 0 then 1 else 0)
      + (if t0 AND ATS_T0_TC_PRESENT \<noteq> 0 then 1 else 0) = 2 + interface_bytes t0" for t0
    by (simp add: interface_bytes_def ATS_T0_TA_PRESENT_def ATS_T0_TB_PRESENT_def
        ATS_T0_TC_PRESENT_def)
  show ?thesis
  proof (cases "2 \<le> length ats")
    case False
    then show ?thesis by (auto simp: ats_historical_bytes_def)
  next
    case True
    then obtain tl t0 r where ats: "ats = tl # t0 # r"
      by (auto simp: numeral_eq_Suc Suc_le_length_iff)
    have "ats_historical_bytes ats = Ok hist \<longleftrightarrow>
        unat tl = length ats \<and> interface_bytes t0 \<le> length r \<and> hist = drop (interface_bytes t0) r"
      unfolding ats_historical_bytes_def Let_def start
      by (auto simp: ats not_less)
    also have "\<dots> \<longleftrightarrow> unat tl = length ats \<and> (\<exists>iface. r = iface @ hist \<and> length iface = interface_bytes t0)"
      by (auto simp: min_def intro: exI [of _ "take (interface_bytes t0) r"])
    finally show ?thesis
      by (auto simp: ats)
  qed
qed

subsection \<open>Corrupted frames\<close>

lemma sum_list_replace:
  "i < length xs \<Longrightarrow> sum_list (xs[i := b]) = sum_list xs - xs ! i + (b :: byte)"
  by (induction xs arbitrary: i) (auto simp: nth_Cons algebra_simps split: nat.split)

lemma normal_frame_facts:
  "length (normal_frame cmd payload) = length payload + 9"
  "sum_list (normal_frame cmd payload) = 0xff"
  "normal_frame cmd payload ! 3 = of_nat (length payload + 2)"
  "normal_frame cmd payload ! 4 = - of_nat (length payload + 2)"
  "normal_frame cmd payload ! 5 = 0xd5"
  by (simp_all add: normal_frame_def response_body_def Let_def del: of_nat_add of_nat_Suc)

lemma extended_frame_facts:
  "length (extended_frame cmd payload) = length payload + 12"
  "sum_list (extended_frame cmd payload) = 0xfd"
  "extended_frame cmd payload ! 3 = 0xff"
  "extended_frame cmd payload ! 4 = 0xff"
  "extended_frame cmd payload ! 5 = of_nat ((length payload + 2) div 256)"
  "extended_frame cmd payload ! 6 = of_nat ((length payload + 2) mod 256)"
  "extended_frame cmd payload ! 7 = - (of_nat ((length payload + 2) div 256) + of_nat ((length payload + 2) mod 256))"
  by (simp_all add: extended_frame_def Let_def)

lemma of_nat_byte_inj: "m \<le> 255 \<Longrightarrow> n \<le> 255 \<Longrightarrow> (of_nat m :: byte) = of_nat n \<longleftrightarrow> m = n"
  using unat_len_byte [of m] unat_len_byte [of n] by metis

text \<open>A prefix of a damaged frame that is itself a frame agrees with it byte by byte.\<close>

lemma damaged_nth:
  "xs[i := b] = ys @ rest \<Longrightarrow> j < length ys \<Longrightarrow> i \<noteq> j \<Longrightarrow> ys ! j = xs ! j"
  by (metis nth_append nth_list_update_neq)

lemma damaged_not_normal:
  assumes "length payload \<le> 253" "length payload' \<le> 253"
    and i: "i < length (normal_frame cmd payload)"
    and eq: "(normal_frame cmd payload)[i := b] = normal_frame cmd payload' @ rest"
  shows "b = normal_frame cmd payload ! i"
proof -
  let ?n = "length payload + 2" and ?n' = "length payload' + 2"
  have "(of_nat ?n' :: byte) = of_nat ?n"
  proof (cases "i = 3")
    case True
    have "- (of_nat ?n' :: byte) = - of_nat ?n"
      using damaged_nth [OF eq, of 4] True by (simp add: normal_frame_facts del: neg_equal_iff_equal)
    then show ?thesis by (simp only: neg_equal_iff_equal)
  next
    case False
    then show ?thesis
      using damaged_nth [OF eq, of 3] by (simp only: normal_frame_facts) simp
  qed
  then have len: "length payload' = length payload"
    using of_nat_byte_inj [of ?n' ?n] assms(1,2) by simp
  have "length ((normal_frame cmd payload)[i := b]) = length (normal_frame cmd payload') + length rest"
    by (simp only: eq length_append)
  then have "rest = []"
    using len by (simp add: normal_frame_facts)
  then have "sum_list ((normal_frame cmd payload)[i := b]) = 0xff"
    by (simp only: eq normal_frame_facts append_Nil2)
  then show ?thesis
    using sum_list_replace [OF i, of b] by (simp add: normal_frame_facts)
qed

lemma damaged_not_extended:
  assumes len: "length payload \<le> 253" "length payload' \<le> 65533"
    and eq: "(normal_frame cmd payload)[i := b] = extended_frame cmd payload' @ rest"
  shows False
proof -
  let ?n = "length payload + 2"
  have len_eq: "length payload + 9 = length payload' + 12 + length rest"
    using arg_cong [OF eq, of length] by (simp add: normal_frame_facts extended_frame_facts)
  have l: "i \<noteq> 3 \<Longrightarrow> (of_nat ?n :: byte) = 0xff"
    using damaged_nth [OF eq, of 3] by (simp only: normal_frame_facts extended_frame_facts) simp
  have k: "i \<noteq> 4 \<Longrightarrow> - (of_nat ?n :: byte) = 0xff"
    using damaged_nth [OF eq, of 4] by (simp only: normal_frame_facts extended_frame_facts) simp
  have "i = 4"
  proof (rule ccontr)
    assume "i \<noteq> 4"
    then have "(of_nat ?n :: byte) = - 0xff"
      using k by (metis minus_minus)
    also have "- (0xff :: byte) = of_nat 1"
      by simp
    finally show False
      using of_nat_byte_inj [of ?n 1] len by simp
  qed
  then have "(of_nat ((length payload' + 2) div 256) :: byte) = 0xd5"
    using damaged_nth [OF eq, of 5] by (simp add: normal_frame_facts extended_frame_facts)
  then have "(length payload' + 2) div 256 = 0xd5"
    using len of_nat_byte_inj [of "(length payload' + 2) div 256" 213] by simp
  then show False
    using len_eq len by linarith
qed

lemma damaged_extended_not_normal:
  assumes len: "length payload \<le> 54525" "length payload' \<le> 253"
    and eq: "(extended_frame cmd payload)[i := b] = normal_frame cmd payload' @ rest"
  shows False
proof -
  let ?n = "length payload' + 2"
  have k: "i \<noteq> 4 \<Longrightarrow> - (of_nat ?n :: byte) = 0xff"
    using damaged_nth [OF eq, of 4] by (simp only: normal_frame_facts extended_frame_facts) simp
  have "i = 4"
  proof (rule ccontr)
    assume "i \<noteq> 4"
    then have "(of_nat ?n :: byte) = - 0xff"
      using k by (metis minus_minus)
    also have "- (0xff :: byte) = of_nat 1"
      by simp
    finally show False
      using of_nat_byte_inj [of ?n 1] len by simp
  qed
  then have "(of_nat ((length payload + 2) div 256) :: byte) = of_nat 213"
    using damaged_nth [OF eq, of 5] by (simp add: normal_frame_facts extended_frame_facts)
  then have "(length payload + 2) div 256 = 213"
    using len by (subst (asm) of_nat_byte_inj) simp_all
  then show False
    using len by linarith
qed

lemma damaged_extended_same:
  assumes len: "length payload \<le> 65533" "length payload' \<le> 65533"
    and i: "i < length (extended_frame cmd payload)"
    and eq: "(extended_frame cmd payload)[i := b] = extended_frame cmd payload' @ rest"
  shows "b = extended_frame cmd payload ! i"
proof -
  let ?n = "length payload + 2" and ?n' = "length payload' + 2"
  let ?hi = "of_nat (?n div 256) :: byte" and ?hi' = "of_nat (?n' div 256) :: byte"
  let ?lo = "of_nat (?n mod 256) :: byte" and ?lo' = "of_nat (?n' mod 256) :: byte"
  have hi: "i \<noteq> 5 \<Longrightarrow> ?hi' = ?hi"
    using damaged_nth [OF eq, of 5] by (simp only: extended_frame_facts) simp
  have lo: "i \<noteq> 6 \<Longrightarrow> ?lo' = ?lo"
    using damaged_nth [OF eq, of 6] by (simp only: extended_frame_facts) simp
  have sum: "i \<noteq> 7 \<Longrightarrow> ?hi' + ?lo' = ?hi + ?lo"
    using damaged_nth [OF eq, of 7] by (simp only: extended_frame_facts neg_equal_iff_equal) simp
  have same: "?hi' = ?hi" "?lo' = ?lo"
    using hi lo sum by (cases "i = 5"; cases "i = 6"; simp)+
  have "?n' div 256 = ?n div 256"
    using same(1) len by (subst (asm) of_nat_byte_inj) simp_all
  moreover have "?n' mod 256 = ?n mod 256"
    using same(2) by (subst (asm) of_nat_byte_inj) simp_all
  ultimately have "?n' = ?n"
    by (metis mult_div_mod_eq)
  then have "rest = []"
    using arg_cong [OF eq, of length] by (simp add: extended_frame_facts)
  then have "sum_list ((extended_frame cmd payload)[i := b]) = 0xfd"
    by (simp only: eq extended_frame_facts append_Nil2)
  then show ?thesis
    using sum_list_replace [OF i, of b] by (simp add: extended_frame_facts)
qed

subsection \<open>Properties\<close>

text \<open>C8: The frame receiver accepts exactly the response frames of the PN532: it returns a payload
  and leaves \<open>rest\<close> if and only if the stream is the normal or the extended frame of that payload
  for the expected command, followed by \<open>rest\<close>.\<close>

theorem response_frame_exact:
  "receive_dynamic_response_from slice_read cmd bs = (Ok payload, rest) \<longleftrightarrow>
     length payload \<le> 253 \<and> bs = normal_frame cmd payload @ rest
   \<or> length payload \<le> 65533 \<and> bs = extended_frame cmd payload @ rest"
  by (rule receive_Ok_iff)

text \<open>C25: A response with one damaged byte is never taken for a response: whichever byte of a frame is
  replaced by another value, the receiver reports an error. This holds for every normal frame and
  for the extended frames with at most 54525 bytes of data, far more than the PN532 sends. Longer
  ones are left out because their length can begin with 0xd5, the byte that also begins a body.\<close>

theorem single_byte_damage_detected:
  assumes "frame = normal_frame cmd payload \<and> length payload \<le> 253
      \<or> frame = extended_frame cmd payload \<and> length payload \<le> 54525"
    and "i < length frame" "b \<noteq> frame ! i"
  shows "\<exists>e. fst (receive_dynamic_response_from slice_read cmd (frame[i := b])) = Err e"
proof (cases "receive_dynamic_response_from slice_read cmd (frame[i := b])")
  case (Pair res rest)
  show ?thesis
  proof (cases res)
    case (Inl e)
    then show ?thesis using Pair by simp
  next
    case (Inr payload')
    then have "length payload' \<le> 253 \<and> frame[i := b] = normal_frame cmd payload' @ rest
      \<or> length payload' \<le> 65533 \<and> frame[i := b] = extended_frame cmd payload' @ rest"
      using Pair by (simp add: receive_Ok_iff)
    then show ?thesis
      using assms damaged_not_normal damaged_not_extended damaged_extended_not_normal
        damaged_extended_same [of payload payload' i cmd b rest]
      by (elim disjE conjE) (blast | simp)+
  qed
qed

theorem single_byte_damage_detected_witness:
  "\<exists>e. fst (receive_dynamic_response_from slice_read 0x41
      ((normal_frame 0x41 [0x00, 0x90, 0x00])[7 := 0x01])) = Err e
    \<and> (\<exists>e. fst (receive_dynamic_response_from slice_read 0x41
      ((extended_frame 0x41 [0x00, 0x90, 0x00])[4 := 0x01])) = Err e)"
  using single_byte_damage_detected [of "normal_frame 0x41 [0x00, 0x90, 0x00]" "0x41" "[0x00, 0x90, 0x00]" 7 1]
    single_byte_damage_detected [of "extended_frame 0x41 [0x00, 0x90, 0x00]" "0x41" "[0x00, 0x90, 0x00]" 4 1]
  by (simp add: normal_frame_def extended_frame_def response_body_def)

end
