(* ===== verification/Pn532_Reader.thy ===== *)
theory Pn532_Reader
  imports Pn532_Frame
begin

text \<open>
  The PN532 reader over a UART, \<open>Pn532UartReader\<close> of \<open>src/nfc/pn532.rs\<close>: opening the device, the
  request/response exchange with its waiting loop, polling for a card with a short-lived cache,
  switching the RF field and exchanging APDUs.

  The crates \<open>pn532\<close> and \<open>serialport\<close> are the record \<open>pn532_driver\<close>, a parameter of every
  definition: its operations act on the state \<open>'p\<close> of the serial line and report how long they
  took. Time is a natural number of nanoseconds on the monotonic clock of \<open>Instant\<close>; the clock
  and the line together are the \<open>wire\<close> of a reader. \<open>thread::sleep\<close> sleeps at least the time it is
  asked to, and the excess is the driver's \<open>oversleep\<close>. The time between two method calls, in which
  the host is idle, is the driver's \<open>idle\<close>: it is added up in \<open>idle_time\<close> where the code reads the
  clock for the age of its cache. The clock of the wire is thus the time the daemon is busy, and
  \<open>clock_now\<close>, the sum of both, is the reading of \<open>Instant::now()\<close>.
\<close>

definition PN532_BUFFER_SIZE :: nat where "PN532_BUFFER_SIZE = 320"
definition PN532_INIT_TIMEOUT_MS :: nat where "PN532_INIT_TIMEOUT_MS = 1000"
definition PN532_POLL_TIMEOUT_MS :: nat where "PN532_POLL_TIMEOUT_MS = 500"
definition PN532_APDU_TIMEOUT_MS :: nat where "PN532_APDU_TIMEOUT_MS = 5000"
definition PN532_POLL_INTERVAL_MS :: nat where "PN532_POLL_INTERVAL_MS = 1000"
definition PN532_ABSENT_POLL_INTERVAL_MS :: nat where "PN532_ABSENT_POLL_INTERVAL_MS = 2000"
definition ISO_A_TARGET_SLOT :: byte where "ISO_A_TARGET_SLOT = 0x01"
definition RF_MAX_RETRIES :: "byte list" where "RF_MAX_RETRIES = [0x05, 0x00, 0x00, 0x00]"
definition RF_FIELD_ON :: "byte list" where "RF_FIELD_ON = [0x01, 0x01]"
definition RF_FIELD_OFF :: "byte list" where "RF_FIELD_OFF = [0x01, 0x00]"

text \<open>\<open>Duration::from_millis\<close>, in nanoseconds.\<close>

definition from_millis :: "nat \<Rightarrow> nat" where
  "from_millis ms = ms * 1000000"

text \<open>A \<open>BorrowedRequest\<close>: the command code and the data.\<close>

record request =
  req_command :: byte
  req_data :: "byte list"

record 'p pn532_driver =
  open_serial :: "string \<Rightarrow> u32 \<Rightarrow> nat \<Rightarrow> (nat \<times> 'p, string) result"
  send_wakeup_message :: "'p \<Rightarrow> (unit, string) result \<times> nat \<times> 'p"
  drv_send :: "request \<Rightarrow> 'p \<Rightarrow> (unit, pn532_error) result \<times> nat \<times> 'p"
  drv_receive_ack :: "'p \<Rightarrow> (unit, pn532_error) result \<times> nat \<times> 'p"
  drv_process :: "request \<Rightarrow> nat \<Rightarrow> nat \<Rightarrow> 'p \<Rightarrow> (byte list, pn532_error) result \<times> nat \<times> 'p"
  bytes_to_read :: "'p \<Rightarrow> (nat, io_error) result \<times> nat \<times> 'p"
  read_exact :: "nat \<Rightarrow> 'p \<Rightarrow> (byte list, io_error) result \<times> nat \<times> 'p"
  oversleep :: "'p \<Rightarrow> nat"
  idle :: "'p \<Rightarrow> nat \<Rightarrow> nat"
  sam_configuration :: request
  get_firmware_version :: request
  inlist_one_iso_a_target :: request
  cmd_rf_configuration :: byte
  cmd_in_data_exchange :: byte

type_synonym 'p wire = "nat \<times> 'p"

text \<open>An operation of the driver on the wire: the clock advances by the time it takes.\<close>

definition timed :: "('p \<Rightarrow> 'a \<times> nat \<times> 'p) \<Rightarrow> 'p wire \<Rightarrow> 'a \<times> 'p wire" where
  "timed f w = (let (a, d, p) = f (snd w) in (a, (fst w + d, p)))"

definition sleep :: "'p pn532_driver \<Rightarrow> nat \<Rightarrow> 'p wire \<Rightarrow> 'p wire" where
  "sleep drv ms w = (fst w + from_millis ms + oversleep drv (snd w), snd w)"

record pn532_uart_config =
  cfg_port :: string
  cfg_baud_rate :: u32

record 'p pn532_uart_reader =
  config :: pn532_uart_config
  wire :: "'p wire"
  idle_time :: nat
  active_target :: "byte option"
  cached_card :: "card_presence option"
  last_poll :: "nat option"
  rf_field_enabled :: bool
  firmware_version :: "byte list"

subsection \<open>Requests and responses\<close>

text \<open>The loop of \<open>wait_serial_ready\<close>; every round sleeps, so the time left decreases.\<close>

function wait_until ::
    "'p pn532_driver \<Rightarrow> nat \<Rightarrow> 'p wire \<Rightarrow> (bool, io_error) result \<times> 'p wire" where
  "wait_until drv deadline w =
     (if fst w < deadline then
        case timed (bytes_to_read drv) w of
          (Err e, w1) \<Rightarrow> (Err e, w1)
        | (Ok n, w1) \<Rightarrow>
            if n > 0 then (Ok True, w1) else wait_until drv deadline (sleep drv 5 w1)
      else (Ok False, w))"
  by pat_completeness auto
termination
  by (relation "measure (\<lambda>(drv, deadline, w). deadline - fst w)")
    (auto simp: timed_def sleep_def from_millis_def split: prod.splits)

declare wait_until.simps [simp del]

definition wait_serial_ready ::
    "'p pn532_driver \<Rightarrow> nat \<Rightarrow> 'p wire \<Rightarrow> (bool, io_error) result \<times> 'p wire" where
  "wait_serial_ready drv timeout_ms w = wait_until drv (fst w + from_millis timeout_ms) w"

definition receive_dynamic_response ::
    "'p pn532_driver \<Rightarrow> byte \<Rightarrow> 'p wire \<Rightarrow> (byte list, pn532_error) result \<times> 'p wire" where
  "receive_dynamic_response drv expected_response_command w =
     receive_dynamic_response_from (\<lambda>n. timed (read_exact drv n)) expected_response_command w"

definition process_dynamic_response ::
    "'p pn532_driver \<Rightarrow> request \<Rightarrow> nat \<Rightarrow> 'p wire \<Rightarrow> (byte list, pn532_error) result \<times> 'p wire" where
  "process_dynamic_response drv request timeout_ms w =
     (let expected_response_command = req_command request + 1 in
      try_then (timed (drv_send drv request) w) (\<lambda>_ w.
      try_then (map_err InterfaceError (wait_serial_ready drv timeout_ms w)) (\<lambda>ready w.
      if \<not> ready then (Err TimeoutAck, w) else
      try_then (timed (drv_receive_ack drv) w) (\<lambda>_ w.
      try_then (map_err InterfaceError (wait_serial_ready drv timeout_ms w)) (\<lambda>ready w.
      if \<not> ready then (Err TimeoutResponse, w) else
      receive_dynamic_response drv expected_response_command w)))))"

text \<open>A driver operation of a reader, on its wire.\<close>

definition on_wire ::
    "('p wire \<Rightarrow> 'a \<times> 'p wire) \<Rightarrow> 'p pn532_uart_reader \<Rightarrow> 'a \<times> 'p pn532_uart_reader" where
  "on_wire f r = (let (a, w) = f (wire r) in (a, r\<lparr>wire := w\<rparr>))"

subsection \<open>The reader\<close>

definition set_rf_field ::
    "'p pn532_driver \<Rightarrow> bool \<Rightarrow> 'p pn532_uart_reader \<Rightarrow> (unit, reader_error) result \<times> 'p pn532_uart_reader" where
  "set_rf_field drv enabled r =
     (if rf_field_enabled r = enabled then (Ok (), r)
      else
        let data = (if enabled then RF_FIELD_ON else RF_FIELD_OFF) in
        try_then
          (map_err (map_pn532_error ''set PN532 RF field state'')
            (on_wire (timed (drv_process drv
               \<lparr>req_command = cmd_rf_configuration drv, req_data = data\<rparr> 0 PN532_INIT_TIMEOUT_MS)) r))
          (\<lambda>_ r. (Ok (), r\<lparr>rf_field_enabled := enabled\<rparr>)))"

definition deactivate_target ::
    "'p pn532_driver \<Rightarrow> 'p pn532_uart_reader \<Rightarrow> (unit, reader_error) result \<times> 'p pn532_uart_reader" where
  "deactivate_target drv r =
     set_rf_field drv False (r\<lparr>active_target := None, cached_card := None, last_poll := None\<rparr>)"

definition pn532_capabilities :: "'p pn532_uart_reader \<Rightarrow> reader_capabilities" where
  "pn532_capabilities r =
     \<lparr>cap_name = ''pn532-uart'', supports_iso_dep = True, supports_apdu_exchange = True\<rparr>"

text \<open>The target number and the card of a response that lists a target.\<close>

definition parse_target_response ::
    "byte list \<Rightarrow> (byte \<times> card_presence, reader_error) result" where
  "parse_target_response response =
     (if length response < 6 then
        Err (Protocol (''PN532 target response too short: '' @ fmt_nat (length response) @ '' bytes''))
      else
        let target = response ! 1;
            uid_len = unat (response ! 5);
            uid_start = 6;
            uid_end = uid_start + uid_len
        in if length response < uid_end then
             Err (Protocol (''PN532 target response truncated before UID: ''
               @ fmt_nat (length response) @ '' bytes''))
           else
             case
               (if length response > uid_end then
                  let ats_len = unat (response ! uid_end);
                      ats_start = uid_end;
                      ats_end = ats_start + ats_len
                  in if length response \<ge> ats_end then
                       ats_historical_bytes (take (ats_end - ats_start) (drop ats_start response))
                     else Err (Protocol (''PN532 target response truncated before ATS: ''
                            @ fmt_nat (length response) @ '' bytes''))
                else Ok [])
             of Err e \<Rightarrow> Err e
              | Ok hist \<Rightarrow>
                  Ok (target,
                      \<lparr>uid = take (uid_end - uid_start) (drop uid_start response),
                       card_protocol = IsoDep, historical_bytes = hist\<rparr>))"

definition clock_now :: "'p pn532_uart_reader \<Rightarrow> nat" where
  "clock_now r = fst (wire r) + idle_time r"

lemma clock_now_simps [simp]:
  "clock_now (r\<lparr>active_target := x\<rparr>) = clock_now r"
  "clock_now (r\<lparr>cached_card := y\<rparr>) = clock_now r"
  "clock_now (r\<lparr>last_poll := z\<rparr>) = clock_now r"
  "clock_now (r\<lparr>rf_field_enabled := e\<rparr>) = clock_now r"
  "clock_now (r\<lparr>wire := w\<rparr>) = fst w + idle_time r"
  by (simp_all add: clock_now_def)

definition read_clock :: "'p pn532_driver \<Rightarrow> 'p pn532_uart_reader \<Rightarrow> 'p pn532_uart_reader" where
  "read_clock drv r = r\<lparr>idle_time := idle_time r + idle drv (snd (wire r)) (clock_now r)\<rparr>"

definition recently_polled :: "'p pn532_uart_reader \<Rightarrow> bool" where
  "recently_polled r =
     (let now = clock_now r;
          poll_interval = (if cached_card r \<noteq> None then from_millis PN532_POLL_INTERVAL_MS
                           else from_millis PN532_ABSENT_POLL_INTERVAL_MS)
      in case last_poll r of None \<Rightarrow> False | Some polled \<Rightarrow> now - polled < poll_interval)"

definition handle_poll_response ::
    "'p pn532_driver \<Rightarrow> byte list \<Rightarrow> 'p pn532_uart_reader
      \<Rightarrow> (card_presence option, reader_error) result \<times> 'p pn532_uart_reader" where
  "handle_poll_response drv response r =
     (if response = [] \<or> response ! 0 = 0 then
        try_then (set_rf_field drv False (r\<lparr>active_target := None, cached_card := None\<rparr>))
          (\<lambda>_ r. (Ok None, r))
      else
        case parse_target_response response of
          Err e \<Rightarrow> (Err e, r)
        | Ok (target, presence) \<Rightarrow>
            (Ok (Some presence), r\<lparr>active_target := Some target, cached_card := Some presence\<rparr>))"

text \<open>\<open>poll_card\<close> after its first line, which reads the clock.\<close>

definition poll_card_now ::
    "'p pn532_driver \<Rightarrow> 'p pn532_uart_reader
      \<Rightarrow> (card_presence option, reader_error) result \<times> 'p pn532_uart_reader" where
  "poll_card_now drv r =
     (let now = clock_now r in
      if can_return_cached_presence (cached_card r \<noteq> None) (active_target r \<noteq> None)
           (recently_polled r)
      then (Ok (cached_card r), r)
      else
        try_then (set_rf_field drv True r) (\<lambda>_ r.
        try_then
          (map_err (map_pn532_error ''poll for ISO14443A target'')
            (on_wire (process_dynamic_response drv (inlist_one_iso_a_target drv) PN532_POLL_TIMEOUT_MS)
              (r\<lparr>last_poll := Some now\<rparr>)))
          (handle_poll_response drv)))"

definition pn532_poll_card ::
    "'p pn532_driver \<Rightarrow> 'p pn532_uart_reader
      \<Rightarrow> (card_presence option, reader_error) result \<times> 'p pn532_uart_reader" where
  "pn532_poll_card drv r = poll_card_now drv (read_clock drv r)"

definition pn532_power_off ::
    "'p pn532_driver \<Rightarrow> 'p pn532_uart_reader \<Rightarrow> (unit, reader_error) result \<times> 'p pn532_uart_reader" where
  "pn532_power_off drv r = set_rf_field drv False (r\<lparr>active_target := None\<rparr>)"

text \<open>What \<open>exchange_apdu\<close> does with the response to its request.\<close>

definition handle_exchange_response ::
    "'p pn532_driver \<Rightarrow> byte list \<Rightarrow> 'p pn532_uart_reader
      \<Rightarrow> (byte list, reader_error) result \<times> 'p pn532_uart_reader" where
  "handle_exchange_response drv response r =
     (if response = [] then
        (Err (Protocol ''PN532 returned an empty APDU exchange response''), r)
      else if \<not> exchange_status_keeps_target_active (response ! 0) then
        (Err (TargetLost (''PN532 reported APDU exchange status 0x'' @ fmt_02x (response ! 0))),
         snd (deactivate_target drv r))
      else (Ok (drop 1 response), r))"

definition exchange_with_target ::
    "'p pn532_driver \<Rightarrow> byte list \<Rightarrow> byte \<Rightarrow> 'p pn532_uart_reader
      \<Rightarrow> (byte list, reader_error) result \<times> 'p pn532_uart_reader" where
  "exchange_with_target drv apdu target r =
     try_then
       (map_err (map_pn532_error ''exchange APDU with NFC target'')
         (on_wire (process_dynamic_response drv
            \<lparr>req_command = cmd_in_data_exchange drv, req_data = target # apdu\<rparr>
            PN532_APDU_TIMEOUT_MS) r))
       (handle_exchange_response drv)"

definition pn532_exchange_apdu ::
    "'p pn532_driver \<Rightarrow> 'p pn532_uart_reader \<Rightarrow> byte list
      \<Rightarrow> (byte list, reader_error) result \<times> 'p pn532_uart_reader" where
  "pn532_exchange_apdu drv r apdu =
     (if length apdu + 1 > PN532_BUFFER_SIZE - 9 then
        (Err (Unsupported (''APDU of '' @ fmt_nat (length apdu)
           @ '' bytes exceeds current PN532 buffer budget'')), r)
      else
        case active_target r of
          Some target \<Rightarrow> exchange_with_target drv apdu target r
        | None \<Rightarrow>
            try_then (pn532_poll_card drv r) (\<lambda>presence r.
              case presence of
                Some _ \<Rightarrow>
                  exchange_with_target drv apdu
                    (case active_target r of Some target \<Rightarrow> target | None \<Rightarrow> ISO_A_TARGET_SLOT) r
              | None \<Rightarrow>
                  (Err (TargetLost ''cannot exchange APDU because no NFC target is present''), r)))"

definition pn532_port_path :: "'p pn532_uart_reader \<Rightarrow> string" where
  "pn532_port_path r = cfg_port (config r)"

definition pn532_firmware_version :: "'p pn532_uart_reader \<Rightarrow> byte list" where
  "pn532_firmware_version r = firmware_version r"

definition pn532_reader_ops :: "'p pn532_driver \<Rightarrow> 'p pn532_uart_reader nfc_reader" where
  "pn532_reader_ops drv =
     \<lparr>capabilities = pn532_capabilities, poll_card = pn532_poll_card drv,
      power_off = pn532_power_off drv, exchange_apdu = pn532_exchange_apdu drv\<rparr>"

lemma pn532_reader_ops_sel [simp]:
  "capabilities (pn532_reader_ops drv) = pn532_capabilities"
  "poll_card (pn532_reader_ops drv) = pn532_poll_card drv"
  "power_off (pn532_reader_ops drv) = pn532_power_off drv"
  "exchange_apdu (pn532_reader_ops drv) = pn532_exchange_apdu drv"
  by (simp_all add: pn532_reader_ops_def)

subsection \<open>Opening the reader\<close>

text \<open>
  \<open>Pn532UartFactory::open\<close>. The reader is dropped on an error, so only its result is returned. A
  path given on the command line is text, and \<open>to_string_lossy\<close> returns it unchanged.
\<close>

definition pn532_open ::
    "'p pn532_driver \<Rightarrow> pn532_uart_config \<Rightarrow> ('p pn532_uart_reader, reader_error) result" where
  "pn532_open drv cfg =
     (if cfg_port cfg = [] then
        Err (Configuration ''PN532 UART port path must not be empty'')
      else
        let port_name = cfg_port cfg in
        case open_serial drv port_name (cfg_baud_rate cfg) (from_millis PN532_APDU_TIMEOUT_MS) of
          Err error \<Rightarrow>
            Err (Transport (''failed to open PN532 UART port '' @ port_name @ '': '' @ error))
        | Ok w0 \<Rightarrow>
            fst (try_then
              (map_err (\<lambda>error. Transport (''failed to wake PN532 on '' @ port_name @ '': '' @ error))
                (timed (send_wakeup_message drv) w0)) (\<lambda>_ w.
            try_then
              (map_err (map_pn532_error ''initialize SAM configuration'')
                (timed (drv_process drv (sam_configuration drv) 0 PN532_INIT_TIMEOUT_MS) w)) (\<lambda>_ w.
            try_then
              (map_err (map_pn532_error ''read firmware version'')
                (timed (drv_process drv (get_firmware_version drv) 4 PN532_INIT_TIMEOUT_MS) w))
              (\<lambda>firmware w.
            try_then
              (map_err (map_pn532_error ''configure RF retries'')
                (timed (drv_process drv
                   \<lparr>req_command = cmd_rf_configuration drv, req_data = RF_MAX_RETRIES\<rparr>
                   0 PN532_INIT_TIMEOUT_MS) w)) (\<lambda>_ w.
            (Ok \<lparr>config = cfg, wire = w, idle_time = 0, active_target = None, cached_card = None,
                 last_poll = None, rf_field_enabled = False, firmware_version = firmware\<rparr>, w)))))))"

subsection \<open>Time only moves forward\<close>

definition clock_mono :: "('p wire \<Rightarrow> 'a \<times> 'p wire) \<Rightarrow> bool" where
  "clock_mono f \<longleftrightarrow> (\<forall>w a w'. f w = (a, w') \<longrightarrow> fst w \<le> fst w')"

lemma clock_monoD: "clock_mono f \<Longrightarrow> f w = (a, w') \<Longrightarrow> fst w \<le> fst w'"
  unfolding clock_mono_def by blast

lemma clock_mono_timed [simp]: "clock_mono (timed f)"
  by (auto simp: clock_mono_def timed_def Let_def split: prod.splits)

lemma clock_mono_const [simp]: "clock_mono (Pair a)"
  by (simp add: clock_mono_def)

lemma clock_mono_map_err: "clock_mono f \<Longrightarrow> clock_mono (\<lambda>w. map_err g (f w))"
  by (fastforce simp: clock_mono_def elim: map_err_cases)

lemma clock_mono_try:
  assumes "clock_mono m" "\<And>a. clock_mono (f a)"
  shows "clock_mono (\<lambda>w. try_then (m w) f)"
  unfolding clock_mono_def
proof (intro allI impI)
  fix w a w'
  assume "try_then (m w) f = (a, w')"
  then show "fst w \<le> fst w'"
    using assms by (cases rule: try_then_cases) (auto dest!: clock_monoD intro: order_trans)
qed

lemma clock_mono_wait_until: "wait_until drv deadline w = (res, w') \<Longrightarrow> fst w \<le> fst w'"
proof (induction drv deadline w rule: wait_until.induct)
  case (1 drv deadline w)
  obtain bres w1 where b: "timed (bytes_to_read drv) w = (bres, w1)"
    by (cases "timed (bytes_to_read drv) w")
  have le: "fst w \<le> fst w1"
    using clock_monoD [OF clock_mono_timed b] .
  show ?case
  proof (cases "fst w < deadline \<and> (\<exists>n. bres = Ok n \<and> n = 0)")
    case True
    then have "wait_until drv deadline (sleep drv 5 w1) = (res, w')"
      using 1(2) b by (subst (asm) wait_until.simps) simp
    then have "fst (sleep drv 5 w1) \<le> fst w'"
      using 1(1) [OF _ b [symmetric]] True by auto
    then show ?thesis
      using le by (simp add: sleep_def)
  next
    case False
    then show ?thesis
      using 1(2) b le by (subst (asm) wait_until.simps) (auto split: if_splits sum.splits)
  qed
qed

lemma clock_mono_wait: "clock_mono (wait_serial_ready drv ms)"
  by (auto simp: clock_mono_def wait_serial_ready_def dest: clock_mono_wait_until)

lemma clock_mono_read_buffer: "clock_mono (read_buffer (\<lambda>n. timed (rd n)) n)"
  by (auto simp: clock_mono_def read_buffer_def split: prod.splits sum.splits
      dest: clock_monoD [OF clock_mono_timed])

lemma clock_mono_frame_len: "clock_mono (receive_frame_len (\<lambda>n. timed (rd n)) header)"
  by (auto simp: clock_mono_def receive_frame_len_def split: prod.splits sum.splits if_splits
      dest: clock_monoD [OF clock_mono_read_buffer])

lemma clock_mono_receive: "clock_mono (receive_dynamic_response drv cmd)"
  unfolding clock_mono_def receive_dynamic_response_def receive_dynamic_response_from_def
  by (auto split: prod.splits sum.splits if_splits
      dest!: clock_monoD [OF clock_mono_read_buffer] clock_monoD [OF clock_mono_frame_len])

lemma clock_mono_process: "clock_mono (process_dynamic_response drv request ms)"
proof -
  let ?wait = "\<lambda>w. map_err InterfaceError (wait_serial_ready drv ms w)"
  have wait: "clock_mono ?wait"
    by (rule clock_mono_map_err [OF clock_mono_wait])
  have receive: "clock_mono (\<lambda>w. if \<not> ready then (Err TimeoutResponse, w)
      else receive_dynamic_response drv (req_command request + 1) w)" for ready
    using clock_mono_receive [of drv "req_command request + 1"] by (simp add: clock_mono_def)
  have ack: "clock_mono (\<lambda>w. try_then (timed (drv_receive_ack drv) w) (\<lambda>_ w.
      try_then (?wait w) (\<lambda>ready w. if \<not> ready then (Err TimeoutResponse, w)
        else receive_dynamic_response drv (req_command request + 1) w)))"
    by (intro clock_mono_try wait receive clock_mono_timed)
  have "clock_mono (\<lambda>w. if \<not> ready then (Err TimeoutAck, w)
      else try_then (timed (drv_receive_ack drv) w) (\<lambda>_ w.
      try_then (?wait w) (\<lambda>ready w. if \<not> ready then (Err TimeoutResponse, w)
        else receive_dynamic_response drv (req_command request + 1) w)))" for ready
    using ack by (simp add: clock_mono_def)
  then have "clock_mono (\<lambda>w. try_then (timed (drv_send drv request) w) (\<lambda>_ w.
      try_then (?wait w) (\<lambda>ready w. if \<not> ready then (Err TimeoutAck, w)
      else try_then (timed (drv_receive_ack drv) w) (\<lambda>_ w.
      try_then (?wait w) (\<lambda>ready w. if \<not> ready then (Err TimeoutResponse, w)
        else receive_dynamic_response drv (req_command request + 1) w)))))"
    by (intro clock_mono_try wait clock_mono_timed)
  then show ?thesis
    by (simp add: clock_mono_def process_dynamic_response_def)
qed

lemma on_wire_cases:
  assumes "on_wire f r = (a, r')" "clock_mono f"
  obtains w where "f (wire r) = (a, w)" "r' = r\<lparr>wire := w\<rparr>" "fst (wire r) \<le> fst w"
  using assms by (auto simp: on_wire_def Let_def split: prod.splits dest: clock_monoD)

subsection \<open>The invariant of the reader\<close>

text \<open>
  An active target comes with the card it was found with, an enabled RF field and the time of the
  poll that found it; polls lie in the past.
\<close>

definition pn532_inv :: "'p pn532_uart_reader \<Rightarrow> bool" where
  "pn532_inv r \<longleftrightarrow>
     (active_target r \<noteq> None \<longrightarrow>
        cached_card r \<noteq> None \<and> last_poll r \<noteq> None \<and> rf_field_enabled r)
   \<and> (\<forall>polled. last_poll r = Some polled \<longrightarrow> polled \<le> clock_now r)"

definition target_attached :: "'p pn532_uart_reader \<Rightarrow> bool" where
  "target_attached r \<longleftrightarrow> active_target r \<noteq> None"

lemma pn532_inv_later:
  assumes "pn532_inv r" "fst (wire r) \<le> fst w"
  shows "pn532_inv (r\<lparr>wire := w\<rparr>)"
proof -
  have "polled \<le> fst w + idle_time r" if "polled \<le> clock_now r" for polled
    using that assms(2) by (simp add: clock_now_def)
  then show ?thesis
    using assms(1) by (simp add: pn532_inv_def)
qed

lemma set_rf_field_cases:
  assumes "set_rf_field drv enabled r = (res, r')"
  obtains (switched) w where "res = Ok ()" "r' = r\<lparr>wire := w, rf_field_enabled := enabled\<rparr>"
      "fst (wire r) \<le> fst w"
  | (refused) w e where "res = Err (map_pn532_error ''set PN532 RF field state'' e)"
      "r' = r\<lparr>wire := w\<rparr>" "fst (wire r) \<le> fst w" "rf_field_enabled r \<noteq> enabled"
proof (cases "rf_field_enabled r = enabled")
  case True
  then show ?thesis
    using assms by (intro switched [of "wire r"]) (simp_all add: set_rf_field_def)
next
  case False
  note step = assms [unfolded set_rf_field_def if_not_P [OF False] Let_def]
  from step show ?thesis
  proof (cases rule: try_then_cases)
    case (failed e)
    from failed(1) show ?thesis
    proof (cases rule: map_err_cases)
      case (failed e')
      then show ?thesis
        using \<open>res = Err e\<close> False
        by (auto elim!: on_wire_cases intro: that(2))
    qed simp
  next
    case (ok u r1)
    from ok(1) show ?thesis
      by (cases rule: map_err_cases) (use ok(2) in \<open>auto elim!: on_wire_cases intro: that(1)\<close>)
  qed
qed

lemma set_rf_field_inv:
  assumes "set_rf_field drv enabled r = (res, r')" "pn532_inv r" "enabled \<or> active_target r = None"
  shows "pn532_inv r'"
  using assms(1)
proof (cases rule: set_rf_field_cases)
  case (switched w)
  then show ?thesis
    using pn532_inv_later [OF assms(2) switched(3)] assms(3) by (auto simp: pn532_inv_def)
next
  case (refused w e)
  then show ?thesis
    using pn532_inv_later [OF assms(2) refused(3)] by simp
qed

lemma set_rf_field_target:
  "set_rf_field drv enabled r = (res, r') \<Longrightarrow>
     active_target r' = active_target r \<and> cached_card r' = cached_card r \<and> last_poll r' = last_poll r
     \<and> (\<forall>m. res \<noteq> Err (TargetLost m))"
  by (erule set_rf_field_cases) simp_all

lemma deactivate_target_inv: "pn532_inv r \<Longrightarrow> pn532_inv (snd (deactivate_target drv r))"
  using set_rf_field_inv [of drv False "r\<lparr>active_target := None, cached_card := None, last_poll := None\<rparr>"]
  by (cases "deactivate_target drv r") (simp add: deactivate_target_def pn532_inv_def)

lemma deactivate_target_detached: "active_target (snd (deactivate_target drv r)) = None"
  by (cases "deactivate_target drv r")
    (auto simp: deactivate_target_def dest: set_rf_field_target)

lemma pn532_power_off_inv:
  assumes "pn532_power_off drv r = (res, r')" "pn532_inv r"
  shows "pn532_inv r'"
  using assms set_rf_field_inv [of drv False "r\<lparr>active_target := None\<rparr>" res r']
  by (simp add: pn532_power_off_def pn532_inv_def)

lemma parse_target_not_lost [simp]: "parse_target_response bs \<noteq> Err (TargetLost m)"
  by (auto simp: parse_target_response_def Let_def ats_historical_bytes_def split: sum.splits if_splits)

lemma handle_poll_response_cases:
  assumes "handle_poll_response drv response r = (res, r')"
  obtains (absent) "set_rf_field drv False (r\<lparr>active_target := None, cached_card := None\<rparr>) = (Ok (), r')"
      "res = Ok None" "response = [] \<or> response ! 0 = 0"
  | (absent_error) e where
      "set_rf_field drv False (r\<lparr>active_target := None, cached_card := None\<rparr>) = (Err e, r')"
      "res = Err e" "response = [] \<or> response ! 0 = 0"
  | (malformed) e where "parse_target_response response = Err e" "res = Err e" "r' = r"
      "response \<noteq> []" "response ! 0 \<noteq> 0"
  | (found) target presence where "parse_target_response response = Ok (target, presence)"
      "res = Ok (Some presence)" "response \<noteq> []" "response ! 0 \<noteq> 0"
      "r' = r\<lparr>active_target := Some target, cached_card := Some presence\<rparr>"
proof (cases "response = [] \<or> response ! 0 = 0")
  case True
  with assms have step: "try_then (set_rf_field drv False (r\<lparr>active_target := None, cached_card := None\<rparr>))
      (\<lambda>_ r. (Ok None, r)) = (res, r')"
    by (simp add: handle_poll_response_def)
  from step show ?thesis
    by (cases rule: try_then_cases) (use True in \<open>auto intro: absent absent_error\<close>)
next
  case False
  note step = assms [unfolded handle_poll_response_def if_not_P [OF False]]
  show ?thesis
  proof (cases "parse_target_response response")
    case (Inl e)
    then show ?thesis using step False by (intro malformed [of e]) auto
  next
    case (Inr tp)
    then show ?thesis
      using step False by (intro found [of "fst tp" "snd tp"]) (auto split: prod.splits)
  qed
qed

text \<open>The state a poll leaves, by the way it ends.\<close>

lemma poll_now_cases:
  assumes "poll_card_now drv r = (res, r')"
  obtains (cached) "res = Ok (cached_card r)" "r' = r" "cached_card r = None \<or> active_target r \<noteq> None"
      "recently_polled r"
  | (field) e where "set_rf_field drv True r = (Err e, r')" "res = Err e"
  | (device) r1 w e where "set_rf_field drv True r = (Ok (), r1)"
      "r' = r1\<lparr>last_poll := Some (clock_now r), wire := w\<rparr>" "fst (wire r1) \<le> fst w"
      "res = Err (map_pn532_error ''poll for ISO14443A target'' e)"
  | (answered) r1 w response where "set_rf_field drv True r = (Ok (), r1)" "fst (wire r1) \<le> fst w"
      "handle_poll_response drv response (r1\<lparr>last_poll := Some (clock_now r), wire := w\<rparr>) = (res, r')"
proof (cases "can_return_cached_presence (cached_card r \<noteq> None) (active_target r \<noteq> None)
    (recently_polled r)")
  case True
  then show ?thesis
    using assms by (intro cached) (auto simp: poll_card_now_def can_return_cached_presence_def)
next
  case False
  note step = assms [unfolded poll_card_now_def Let_def if_not_P [OF False]]
  from step show ?thesis
  proof (cases rule: try_then_cases)
    case (failed e)
    then show ?thesis by (rule field)
  next
    case rf: (ok u r1)
    then have rf': "set_rf_field drv True r = (Ok (), r1)" by simp
    from rf(2) show ?thesis
    proof (cases rule: try_then_cases)
      case (failed e)
      from failed(1) show ?thesis
      proof (cases rule: map_err_cases)
        case (failed e')
        from failed(1) obtain w where "r' = r1\<lparr>last_poll := Some (clock_now r), wire := w\<rparr>"
            "fst (wire r1) \<le> fst w"
          by (rule on_wire_cases [OF _ clock_mono_process]) simp
        then show ?thesis
          using rf' \<open>res = Err e\<close> failed(2) by (intro device) simp_all
      qed simp
    next
      case ans: (ok response r2)
      from ans(1) show ?thesis
      proof (cases rule: map_err_cases)
        case (ok a)
        from ok(1) obtain w where "r2 = r1\<lparr>last_poll := Some (clock_now r), wire := w\<rparr>"
            "fst (wire r1) \<le> fst w"
          by (rule on_wire_cases [OF _ clock_mono_process]) simp
        then show ?thesis
          using rf' ans(2) ok(2) by (intro answered [of r1 w a]) simp_all
      qed simp
    qed
  qed
qed

lemma set_rf_on_enabled: "set_rf_field drv True r = (Ok u, r') \<Longrightarrow> rf_field_enabled r'"
  by (erule set_rf_field_cases) auto

lemma set_rf_clock:
  "set_rf_field drv e r = (res, r') \<Longrightarrow> fst (wire r) \<le> fst (wire r') \<and> idle_time r' = idle_time r"
  by (erule set_rf_field_cases) auto

lemma pn532_polled_inv:
  assumes "pn532_inv r" "set_rf_field drv True r = (Ok (), r1)" "fst (wire r1) \<le> fst w"
  shows "pn532_inv (r1\<lparr>last_poll := Some (clock_now r), wire := w\<rparr>)"
  using assms set_rf_field_inv [OF assms(2)] set_rf_clock [OF assms(2)]
  by (auto simp: pn532_inv_def clock_now_def)

lemma handle_poll_response_inv:
  assumes "handle_poll_response drv response r = (res, r')" "pn532_inv r"
    and "rf_field_enabled r" "last_poll r \<noteq> None"
  shows "pn532_inv r'"
  using assms(1)
proof (cases rule: handle_poll_response_cases)
  case absent
  then show ?thesis
    using set_rf_field_inv [OF absent(1)] assms(2) by (simp add: pn532_inv_def)
next
  case (absent_error e)
  then show ?thesis
    using set_rf_field_inv [OF absent_error(1)] assms(2) by (simp add: pn532_inv_def)
qed (use assms in \<open>auto simp: pn532_inv_def\<close>)

lemma poll_now_inv:
  assumes "poll_card_now drv r = (res, r')" "pn532_inv r"
  shows "pn532_inv r'"
  using assms(1)
proof (cases rule: poll_now_cases)
  case (field e)
  then show ?thesis using set_rf_field_inv assms(2) by blast
next
  case (device r1 w e)
  then show ?thesis using pn532_polled_inv [OF assms(2)] by simp
next
  case (answered r1 w response)
  from answered(3) show ?thesis
    by (rule handle_poll_response_inv)
      (use answered pn532_polled_inv [OF assms(2)] set_rf_on_enabled in auto)
qed (use assms(2) in simp)

lemma handle_poll_response_target:
  assumes "handle_poll_response drv response r = (res, r')"
  shows "(\<forall>c. res = Ok (Some c) \<longrightarrow> active_target r' \<noteq> None \<and> cached_card r' = Some c)
    \<and> (res = Ok None \<longrightarrow> active_target r' = None \<and> cached_card r' = None)
    \<and> (\<forall>m. res \<noteq> Err (TargetLost m))"
  using assms
  by (cases rule: handle_poll_response_cases) (auto dest: set_rf_field_target)

lemma poll_now_target:
  assumes "poll_card_now drv r = (res, r')"
  shows "(\<forall>c. res = Ok (Some c) \<longrightarrow> active_target r' \<noteq> None \<and> cached_card r' = Some c)
    \<and> (pn532_inv r \<longrightarrow> res = Ok None \<longrightarrow> active_target r' = None)
    \<and> (\<forall>m. res \<noteq> Err (TargetLost m))"
  using assms
proof (cases rule: poll_now_cases)
  case cached
  then show ?thesis by (auto simp: pn532_inv_def)
next
  case (field e)
  then show ?thesis using set_rf_field_target [OF field(1)] by auto
next
  case (answered r1 w response)
  then show ?thesis using handle_poll_response_target [OF answered(3)] by auto
qed auto

lemma read_clock_fields [simp]:
  "config (read_clock drv r) = config r"
  "wire (read_clock drv r) = wire r"
  "active_target (read_clock drv r) = active_target r"
  "cached_card (read_clock drv r) = cached_card r"
  "last_poll (read_clock drv r) = last_poll r"
  "rf_field_enabled (read_clock drv r) = rf_field_enabled r"
  "clock_now (read_clock drv r) = clock_now r + idle drv (snd (wire r)) (clock_now r)"
  by (simp_all add: read_clock_def clock_now_def)

lemma pn532_poll_inv: "pn532_poll_card drv r = (res, r') \<Longrightarrow> pn532_inv r \<Longrightarrow> pn532_inv r'"
  unfolding pn532_poll_card_def by (erule poll_now_inv) (auto simp: pn532_inv_def)

lemma pn532_poll_target:
  "pn532_poll_card drv r = (res, r') \<Longrightarrow>
    (\<forall>c. res = Ok (Some c) \<longrightarrow> active_target r' \<noteq> None \<and> cached_card r' = Some c)
    \<and> (pn532_inv r \<longrightarrow> res = Ok None \<longrightarrow> active_target r' = None)
    \<and> (\<forall>m. res \<noteq> Err (TargetLost m))"
  using poll_now_target [of drv "read_clock drv r" res r']
  by (auto simp: pn532_poll_card_def pn532_inv_def)

text \<open>The cache does not outlive its interval, however the time has passed.\<close>

lemma cache_expires:
  assumes "last_poll r = Some polled" "polled + from_millis PN532_ABSENT_POLL_INTERVAL_MS \<le> clock_now (read_clock drv r)"
  shows "\<not> recently_polled (read_clock drv r)"
  using assms
  by (auto simp: recently_polled_def Let_def from_millis_def PN532_ABSENT_POLL_INTERVAL_MS_def
      PN532_POLL_INTERVAL_MS_def)

subsection \<open>Exchanging APDUs\<close>

lemma exchange_with_target_cases:
  assumes "exchange_with_target drv apdu target r = (res, r')"
  obtains (device) w e where "r' = r\<lparr>wire := w\<rparr>" "fst (wire r) \<le> fst w"
      "res = Err (map_pn532_error ''exchange APDU with NFC target'' e)"
  | (answered) w response where "fst (wire r) \<le> fst w"
      "handle_exchange_response drv response (r\<lparr>wire := w\<rparr>) = (res, r')"
  using assms [unfolded exchange_with_target_def]
proof (cases rule: try_then_cases)
  case (failed e)
  from failed(1) show ?thesis
  proof (cases rule: map_err_cases)
    case (failed e')
    from failed(1) obtain w where "r' = r\<lparr>wire := w\<rparr>" "fst (wire r) \<le> fst w"
      by (rule on_wire_cases [OF _ clock_mono_process])
    then show ?thesis
      using \<open>res = Err e\<close> failed(2) by (intro device) simp_all
  qed simp
next
  case ans: (ok response r1)
  from ans(1) show ?thesis
  proof (cases rule: map_err_cases)
    case (ok a)
    from ok(1) obtain w where "r1 = r\<lparr>wire := w\<rparr>" "fst (wire r) \<le> fst w"
      by (rule on_wire_cases [OF _ clock_mono_process])
    then show ?thesis
      using ans(2) ok(2) by (intro answered) simp_all
  qed simp
qed

lemma handle_exchange_response_facts:
  assumes "handle_exchange_response drv response r = (res, r')"
  shows "pn532_inv r \<Longrightarrow> pn532_inv r'"
    and "res = Err (TargetLost m) \<Longrightarrow> active_target r' = None"
    and "active_target r \<noteq> None \<Longrightarrow> (\<forall>m. res \<noteq> Err (TargetLost m)) \<Longrightarrow> active_target r' \<noteq> None"
  using assms deactivate_target_inv [of r drv] deactivate_target_detached [of drv r]
  by (auto simp: handle_exchange_response_def split: if_splits)

lemma exchange_with_target_facts:
  assumes "exchange_with_target drv apdu target r = (res, r')"
  shows "pn532_inv r \<Longrightarrow> pn532_inv r'"
    and "res = Err (TargetLost m) \<Longrightarrow> active_target r' = None"
    and "active_target r \<noteq> None \<Longrightarrow> (\<forall>m. res \<noteq> Err (TargetLost m)) \<Longrightarrow> active_target r' \<noteq> None"
proof -
  show "pn532_inv r \<Longrightarrow> pn532_inv r'"
    using assms
    by (cases rule: exchange_with_target_cases)
      (auto intro: pn532_inv_later dest: handle_exchange_response_facts(1))
  show "res = Err (TargetLost m) \<Longrightarrow> active_target r' = None"
    using assms
    by (cases rule: exchange_with_target_cases) (auto dest: handle_exchange_response_facts(2))
  show "active_target r \<noteq> None \<Longrightarrow> (\<forall>m. res \<noteq> Err (TargetLost m)) \<Longrightarrow> active_target r' \<noteq> None"
    using assms handle_exchange_response_facts(3)
    by (cases rule: exchange_with_target_cases) fastforce+
qed

lemma pn532_exchange_cases:
  assumes "pn532_exchange_apdu drv r apdu = (res, r')"
  obtains (too_long) m where "res = Err (Unsupported m)" "r' = r" "310 < length apdu"
  | (active) target where "active_target r = Some target"
      "exchange_with_target drv apdu target r = (res, r')" "length apdu \<le> 310"
  | (poll_error) e where "pn532_poll_card drv r = (Err e, r')" "res = Err e" "active_target r = None"
  | (polled) r1 presence target where "active_target r = None"
      "pn532_poll_card drv r = (Ok (Some presence), r1)" "active_target r1 = Some target"
      "exchange_with_target drv apdu target r1 = (res, r')" "length apdu \<le> 310"
  | (no_card) m where "active_target r = None" "pn532_poll_card drv r = (Ok None, r')"
      "res = Err (TargetLost m)"
proof (cases "length apdu + 1 > PN532_BUFFER_SIZE - 9")
  case True
  then show ?thesis
    using assms by (intro too_long) (auto simp: pn532_exchange_apdu_def PN532_BUFFER_SIZE_def)
next
  case False
  note step = assms [unfolded pn532_exchange_apdu_def if_not_P [OF False]]
  have len: "length apdu \<le> 310"
    using False by (simp add: PN532_BUFFER_SIZE_def)
  show ?thesis
  proof (cases "active_target r")
    case (Some target)
    then show ?thesis using step len by (intro active) simp_all
  next
    case None
    from step [unfolded None option.case] show ?thesis
    proof (cases rule: try_then_cases)
      case (failed e)
      then show ?thesis using None by (intro poll_error)
    next
      case (ok presence r1)
      show ?thesis
      proof (cases presence)
        case None': None
        then show ?thesis
          using ok None by (intro no_card) auto
      next
        case (Some c)
        then obtain target where "active_target r1 = Some target"
          using pn532_poll_target [OF ok(1)] by auto
        then show ?thesis
          using Some ok None len by (intro polled [of c r1 target]) simp_all
      qed
    qed
  qed
qed

lemma pn532_exchange_inv:
  assumes "pn532_exchange_apdu drv r apdu = (res, r')" "pn532_inv r"
  shows "pn532_inv r'"
  using assms(1)
  by (cases rule: pn532_exchange_cases)
    (use assms(2) in \<open>auto dest: pn532_poll_inv exchange_with_target_facts(1)\<close>)

lemma pn532_exchange_lost:
  assumes "pn532_exchange_apdu drv r apdu = (Err (TargetLost m), r')" "pn532_inv r"
  shows "active_target r' = None"
  using assms(1)
proof (cases rule: pn532_exchange_cases)
  case (poll_error e)
  then show ?thesis using pn532_poll_target [OF poll_error(1)] by auto
next
  case (no_card m')
  then show ?thesis using pn532_poll_target [OF no_card(2)] assms(2) by blast
qed (auto dest: exchange_with_target_facts(2))

lemma pn532_exchange_keeps:
  assumes "pn532_exchange_apdu drv r apdu = (res, r')" "active_target r \<noteq> None"
    and "\<forall>m. res \<noteq> Err (TargetLost m)"
  shows "active_target r' \<noteq> None"
  using assms(1)
  by (cases rule: pn532_exchange_cases)
    (use assms in \<open>auto dest: exchange_with_target_facts(3)\<close>)

text \<open>The PN532 reader keeps the contract of the CCID layer, whatever the device does.\<close>

interpretation pn532: reader_contract "pn532_reader_ops drv" pn532_inv target_attached
  for drv :: "'p pn532_driver"
  by unfold_locales
    (auto simp: target_attached_def pn532_capabilities_def
      dest: pn532_poll_inv pn532_power_off_inv pn532_exchange_inv pn532_poll_target
        pn532_exchange_lost pn532_exchange_keeps)

lemma pn532_open_inv: "pn532_open drv cfg = Ok r \<Longrightarrow> pn532_inv r"
  by (auto simp: pn532_open_def pn532_inv_def try_then_def Let_def split: if_splits sum.splits prod.splits)

subsection \<open>A line that delivers a stream of bytes\<close>

text \<open>
  What the exchange relies on in the serial line: \<open>read_exact\<close> delivers the bytes of the line in
  order (\<open>stream_port\<close>), and the device accepts a request, acknowledges it and then has its answer
  on the line (\<open>answers\<close>).
\<close>

definition stream_port :: "'p pn532_driver \<Rightarrow> ('p \<Rightarrow> byte list) \<Rightarrow> bool" where
  "stream_port drv content \<longleftrightarrow>
     (\<forall>n p. n \<le> length (content p) \<longrightarrow>
        (\<exists>d p'. read_exact drv n p = (Ok (take n (content p)), d, p') \<and> content p' = drop n (content p)))"

definition answers ::
    "'p pn532_driver \<Rightarrow> ('p \<Rightarrow> byte list) \<Rightarrow> request \<Rightarrow> byte list \<Rightarrow> 'p \<Rightarrow> bool" where
  "answers drv content req bs p \<longleftrightarrow>
     (\<exists>d1 p1 n1 d2 p2 d3 p3 n2 d4 p4.
        drv_send drv req p = (Ok (), d1, p1) \<and> bytes_to_read drv p1 = (Ok n1, d2, p2) \<and> 0 < n1
      \<and> drv_receive_ack drv p2 = (Ok (), d3, p3) \<and> bytes_to_read drv p3 = (Ok n2, d4, p4) \<and> 0 < n2
      \<and> content p4 = bs)"

lemma stream_read_buffer:
  assumes "stream_port drv content"
    and "read_buffer slice_read n (content (snd w)) = (Ok bs, rest)"
  shows "\<exists>w'. read_buffer (\<lambda>n. timed (read_exact drv n)) n w = (Ok bs, w') \<and> content (snd w') = rest"
proof -
  have n: "n \<le> length (content (snd w))" "bs = take n (content (snd w))" "rest = drop n (content (snd w))"
    using assms(2) by (auto split: if_splits)
  obtain d p' where "read_exact drv n (snd w) = (Ok bs, d, p')" "content p' = rest"
    using assms(1) n unfolding stream_port_def by metis
  then show ?thesis
    using n by (simp add: read_buffer_def timed_def)
qed

lemma stream_frame_len:
  assumes "stream_port drv content"
    and "receive_frame_len slice_read header (content (snd w)) = (Ok len, rest)"
  shows "\<exists>w'. receive_frame_len (\<lambda>n. timed (read_exact drv n)) header w = (Ok len, w')
    \<and> content (snd w') = rest"
proof (cases "take 2 (drop 3 header) = EXTENDED_FRAME_MARKER")
  case True
  obtain ext where ext: "read_buffer slice_read 3 (content (snd w)) = (Ok ext, rest)"
      "\<not> ext ! 0 + ext ! 1 + ext ! 2 \<noteq> 0" "len = unat (u16_from_be (ext ! 0) (ext ! 1))"
    using assms(2) True by (auto simp: receive_frame_len_def split: if_splits)
  obtain w' where "read_buffer (\<lambda>n. timed (read_exact drv n)) 3 w = (Ok ext, w')"
      "content (snd w') = rest"
    using stream_read_buffer [OF assms(1) ext(1)] by blast
  then show ?thesis
    using True ext by (auto simp: receive_frame_len_def)
next
  case False
  then show ?thesis
    using assms(2) by (cases w) (auto simp: receive_frame_len_def split: if_splits)
qed

lemma stream_receive:
  assumes "stream_port drv content"
    and "receive_dynamic_response_from slice_read cmd (content (snd w)) = (Ok payload, rest)"
  shows "\<exists>w'. receive_dynamic_response drv cmd w = (Ok payload, w') \<and> content (snd w') = rest"
proof -
  obtain header b1 len b2 frame where
    h: "read_buffer slice_read 5 (content (snd w)) = (Ok header, b1)" "\<not> take 3 header \<noteq> PREAMBLE"
    and l: "receive_frame_len slice_read header b1 = (Ok len, b2)" "len \<noteq> 0" "len \<noteq> 1"
    and f: "read_buffer slice_read (len + 2) b2 = (Ok frame, rest)" "check_frame cmd frame = Ok payload"
    using assms(2)
    by (auto simp: receive_dynamic_response_from_def simp del: read_slice
        split: prod.splits sum.splits if_splits)
  obtain w1 where w1: "read_buffer (\<lambda>n. timed (read_exact drv n)) 5 w = (Ok header, w1)"
      "content (snd w1) = b1"
    using stream_read_buffer [OF assms(1) h(1)] by blast
  obtain w2 where w2: "receive_frame_len (\<lambda>n. timed (read_exact drv n)) header w1 = (Ok len, w2)"
      "content (snd w2) = b2"
    using stream_frame_len [OF assms(1), of header w1 len b2] l(1) w1(2) by blast
  obtain w3 where w3: "read_buffer (\<lambda>n. timed (read_exact drv n)) (len + 2) w2 = (Ok frame, w3)"
      "content (snd w3) = rest"
    using stream_read_buffer [OF assms(1), of "len + 2" w2 frame rest] f(1) w2(2) by blast
  show ?thesis
    using w1 w2 w3 h l f
    by (auto simp: receive_dynamic_response_def receive_dynamic_response_from_def simp del: read_slice)
qed

lemma wait_ready_at_once:
  assumes "bytes_to_read drv p = (Ok n, d, p')" "0 < n" "0 < ms"
  shows "wait_serial_ready drv ms (c, p) = (Ok True, (c + d, p'))"
  using assms
  by (simp add: wait_serial_ready_def wait_until.simps [of drv _ "(c, p)"] timed_def from_millis_def)

lemma process_answered:
  assumes "stream_port drv content" "answers drv content req bs (snd w)" "0 < ms"
    and "receive_dynamic_response_from slice_read (req_command req + 1) bs = (Ok payload, rest)"
  shows "\<exists>w'. process_dynamic_response drv req ms w = (Ok payload, w') \<and> content (snd w') = rest"
proof -
  obtain d1 p1 n1 d2 p2 d3 p3 n2 d4 p4 where
    a: "drv_send drv req (snd w) = (Ok (), d1, p1)" "bytes_to_read drv p1 = (Ok n1, d2, p2)" "0 < n1"
      "drv_receive_ack drv p2 = (Ok (), d3, p3)" "bytes_to_read drv p3 = (Ok n2, d4, p4)" "0 < n2"
      "content p4 = bs"
    using assms(2) unfolding answers_def by blast
  obtain w' where w': "receive_dynamic_response drv (req_command req + 1)
      (fst w + d1 + d2 + d3 + d4, p4) = (Ok payload, w')" "content (snd w') = rest"
    using stream_receive [OF assms(1), of "req_command req + 1"
        "(fst w + d1 + d2 + d3 + d4, p4)" payload rest] assms(4) a(7) by auto
  have "process_dynamic_response drv req ms w = (Ok payload, w')"
    using a w' assms(3)
    by (simp add: process_dynamic_response_def Let_def timed_def wait_ready_at_once)
  then show ?thesis using w'(2) by blast
qed

subsection \<open>Bounded waiting\<close>

lemma wait_until_bound:
  "wait_until drv deadline w = (res, w') \<Longrightarrow>
     (\<forall>p. fst (snd (bytes_to_read drv p)) \<le> d) \<Longrightarrow> (\<forall>p. oversleep drv p \<le> j) \<Longrightarrow>
     fst w' \<le> max (fst w) (deadline + d + from_millis 5 + j) \<and> (res = Ok False \<longrightarrow> deadline \<le> fst w')"
proof (induction drv deadline w rule: wait_until.induct)
  case (1 drv deadline w)
  obtain bres dt p1 where b: "bytes_to_read drv (snd w) = (bres, dt, p1)"
    by (cases "bytes_to_read drv (snd w)") auto
  have dt: "dt \<le> d"
    using 1(3) b by (metis fst_conv snd_conv)
  have timed_b: "timed (bytes_to_read drv) w = (bres, (fst w + dt, p1))"
    by (simp add: timed_def b)
  show ?case
  proof (cases "fst w < deadline \<and> bres = Ok 0")
    case True
    let ?w2 = "sleep drv 5 (fst w + dt, p1)"
    have "wait_until drv deadline ?w2 = (res, w')"
      using 1(2) True timed_b by (subst (asm) wait_until.simps) simp
    then have "fst w' \<le> max (fst ?w2) (deadline + d + from_millis 5 + j)
        \<and> (res = Ok False \<longrightarrow> deadline \<le> fst w')"
      using 1(1) [OF _ timed_b [symmetric]] True 1(3,4) by simp
    moreover have "fst ?w2 \<le> deadline + d + from_millis 5 + j"
      using True dt 1(4) [rule_format, of p1] by (simp add: sleep_def)
    ultimately show ?thesis by linarith
  next
    case False
    then show ?thesis
      using 1(2) timed_b dt by (subst (asm) wait_until.simps) (auto split: if_splits sum.splits)
  qed
qed

subsection \<open>The target response\<close>

text \<open>
  The shape of a response that lists a target of ISO 14443-A, after ISO 14443-4 and the manual of the
  PN532: the count of targets, which is not zero, the target number, three bytes of the
  anticollision, the UID with its length, and then nothing or an ATS, possibly followed by bytes that
  are not read. An ATS is its length byte TL, which counts itself, the format byte T0, the interface
  bytes that bits 5 to 7 of T0 announce, and the historical bytes.
\<close>

definition carries_history :: "byte list \<Rightarrow> byte list \<Rightarrow> bool" where
  "carries_history rest hist \<longleftrightarrow>
     rest = [] \<and> hist = []
   \<or> (\<exists>tl t0 iface tail. rest = tl # t0 # iface @ hist @ tail
        \<and> unat tl = 2 + length iface + length hist \<and> length iface = interface_bytes t0)"

definition lists_target :: "byte list \<Rightarrow> byte \<Rightarrow> card_presence \<Rightarrow> bool" where
  "lists_target response target c \<longleftrightarrow>
     (\<exists>count s1 s2 sak uid_len rest.
        response = [count, target, s1, s2, sak, uid_len] @ uid c @ rest \<and> count \<noteq> 0
      \<and> unat uid_len = length (uid c) \<and> card_protocol c = IsoDep
      \<and> carries_history rest (historical_bytes c))"

lemma length_ge6:
  assumes "6 \<le> length bs"
  obtains a b c d e f t where "bs = a # b # c # d # e # f # t"
  using assms by (auto simp: numeral_eq_Suc Suc_le_length_iff intro: that)

text \<open>The part after the UID, as the code reads it.\<close>

definition trailing_history :: "byte list \<Rightarrow> (byte list, unit) result" where
  "trailing_history rest =
     (if rest = [] then Ok []
      else if unat (hd rest) \<le> length rest then
        (case ats_historical_bytes (take (unat (hd rest)) rest) of Err _ \<Rightarrow> Err () | Ok h \<Rightarrow> Ok h)
      else Err ())"

lemma trailing_history_iff:
  "trailing_history rest = Ok hist \<longleftrightarrow> carries_history rest hist"
proof (cases "rest = []")
  case False
  let ?n = "unat (hd rest)"
  have "trailing_history rest = Ok hist \<longleftrightarrow>
      ?n \<le> length rest \<and> ats_historical_bytes (take ?n rest) = Ok hist"
    using False by (auto simp: trailing_history_def split: sum.splits)
  also have "\<dots> \<longleftrightarrow> (\<exists>ats tail. rest = ats @ tail \<and> ?n = length ats \<and> ats_historical_bytes ats = Ok hist)"
  proof
    assume "?n \<le> length rest \<and> ats_historical_bytes (take ?n rest) = Ok hist"
    then show "\<exists>ats tail. rest = ats @ tail \<and> ?n = length ats \<and> ats_historical_bytes ats = Ok hist"
      by (intro exI [of _ "take ?n rest"] exI [of _ "drop ?n rest"]) simp
  qed auto
  also have "\<dots> \<longleftrightarrow> carries_history rest hist"
  proof
    assume "\<exists>ats tail. rest = ats @ tail \<and> ?n = length ats \<and> ats_historical_bytes ats = Ok hist"
    then obtain tl t0 iface tail where "rest = (tl # t0 # iface @ hist) @ tail"
      "unat tl = length (tl # t0 # iface @ hist)" "length iface = interface_bytes t0"
      by (auto simp: ats_historical_iff)
    then show "carries_history rest hist"
      unfolding carries_history_def
      by (intro disjI2) (rule exI [of _ tl], rule exI [of _ t0], rule exI [of _ iface], simp)
  next
    assume "carries_history rest hist"
    then obtain tl t0 iface tail where "rest = (tl # t0 # iface @ hist) @ tail"
      "unat tl = length (tl # t0 # iface @ hist)" "length iface = interface_bytes t0"
      using False by (auto simp: carries_history_def)
    then show "\<exists>ats tail. rest = ats @ tail \<and> ?n = length ats \<and> ats_historical_bytes ats = Ok hist"
      by (intro exI [of _ "tl # t0 # iface @ hist"] exI [of _ tail]) (simp add: ats_historical_iff)
  qed
  finally show ?thesis .
qed (auto simp: trailing_history_def carries_history_def)

lemma after_six:
  "(a # b # c # d # e # f # t) ! (6 + n) = t ! n"
  "drop (6 + n) (a # b # c # d # e # f # t) = drop n t"
  by (simp_all add: numeral_eq_Suc)

lemma parse_target_short: "length response < 6 \<Longrightarrow> parse_target_response response \<noteq> Ok tc"
  by (simp add: parse_target_response_def)

lemma parse_target_long:
  "parse_target_response (count # target # s1 # s2 # sak # uid_len # t) = Ok (target', c) \<longleftrightarrow>
     target' = target \<and> unat uid_len \<le> length t
   \<and> uid c = take (unat uid_len) t \<and> card_protocol c = IsoDep
   \<and> trailing_history (drop (unat uid_len) t) = Ok (historical_bytes c)"
proof (cases "unat uid_len \<le> length t")
  case False
  then show ?thesis by (simp add: parse_target_response_def Let_def)
next
  case True
  let ?u = "unat uid_len" and ?rest = "drop (unat uid_len) t"
  have rest: "?rest = [] \<longleftrightarrow> length t \<le> ?u"
    by simp
  show ?thesis
  proof (cases "length t \<le> ?u")
    case all: True
    then show ?thesis
      using True
      by (cases c) (auto simp: parse_target_response_def Let_def trailing_history_def)
  next
    case False
    then have "t ! ?u = hd ?rest"
      by (simp add: hd_drop_conv_nth)
    then show ?thesis
      using True False
      by (cases c)
        (auto simp: parse_target_response_def Let_def trailing_history_def after_six
          split: sum.splits if_splits)
  qed
qed

lemma parse_target_iff:
  "parse_target_response response = Ok (target, c) \<and> response ! 0 \<noteq> 0 \<longleftrightarrow> lists_target response target c"
proof
  assume parse: "parse_target_response response = Ok (target, c) \<and> response ! 0 \<noteq> 0"
  then have "6 \<le> length response"
    using parse_target_short [of response] by force
  then obtain count tg s1 s2 sak uid_len t where
    r: "response = count # tg # s1 # s2 # sak # uid_len # t"
    by (rule length_ge6)
  have p: "target = tg" "unat uid_len \<le> length t" "uid c = take (unat uid_len) t" "count \<noteq> 0"
    "card_protocol c = IsoDep" "trailing_history (drop (unat uid_len) t) = Ok (historical_bytes c)"
    using parse by (simp_all add: r parse_target_long)
  then have "carries_history (drop (unat uid_len) t) (historical_bytes c)"
    "response = [count, target, s1, s2, sak, uid_len] @ uid c @ drop (unat uid_len) t"
    "unat uid_len = length (uid c)"
    by (simp_all add: r flip: trailing_history_iff)
  then show "lists_target response target c"
    using p(4,5) unfolding lists_target_def by blast
next
  assume "lists_target response target c"
  then obtain count s1 s2 sak uid_len rest where
    r: "response = [count, target, s1, s2, sak, uid_len] @ uid c @ rest" "count \<noteq> 0"
    and u: "unat uid_len = length (uid c)" "card_protocol c = IsoDep"
    and h: "trailing_history rest = Ok (historical_bytes c)"
    unfolding lists_target_def by (auto simp flip: trailing_history_iff)
  then show "parse_target_response response = Ok (target, c) \<and> response ! 0 \<noteq> 0"
    by (simp add: parse_target_long)
qed

lemma lists_target_not_empty: "lists_target response target c \<Longrightarrow> response \<noteq> []"
  by (auto simp: lists_target_def)

lemma poll_response_iff:
  "handle_poll_response drv response r =
      (Ok (Some c), r\<lparr>active_target := Some target, cached_card := Some c\<rparr>)
    \<longleftrightarrow> lists_target response target c"
proof (cases "response = [] \<or> response ! 0 = 0")
  case True
  have "fst (try_then (set_rf_field drv False q) (\<lambda>_ r. (Ok None, r))) \<noteq> Ok (Some c)" for q
    by (cases "set_rf_field drv False q"; cases "fst (set_rf_field drv False q)") auto
  then have "fst (handle_poll_response drv response r) \<noteq> Ok (Some c)"
    unfolding handle_poll_response_def if_P [OF True] .
  moreover have "\<not> lists_target response target c"
    using True parse_target_iff lists_target_not_empty by blast
  ultimately show ?thesis by auto
next
  case False
  then have handled: "handle_poll_response drv response r = (case parse_target_response response of
      Err e \<Rightarrow> (Err e, r)
    | Ok (tg, presence) \<Rightarrow>
        (Ok (Some presence), r\<lparr>active_target := Some tg, cached_card := Some presence\<rparr>))"
    unfolding handle_poll_response_def by (rule if_not_P)
  have same: "r\<lparr>active_target := Some tg, cached_card := x\<rparr> = r\<lparr>active_target := Some target, cached_card := x\<rparr>
      \<longleftrightarrow> tg = target" for tg x
    by (cases r) simp
  have "parse_target_response response = Ok (target, c) \<longleftrightarrow> lists_target response target c"
    using parse_target_iff [of response target c] False by blast
  then show ?thesis
    unfolding handled using same by (cases "parse_target_response response") auto
qed

subsection \<open>A failed poll and the cache\<close>

lemma poll_uses_cache:
  assumes "cached_card r = None \<or> active_target r \<noteq> None" "recently_polled r"
  shows "poll_card_now drv r = (Ok (cached_card r), r)"
  using assms by (auto simp: poll_card_now_def can_return_cached_presence_def)

lemma recently_polledI:
  "last_poll r = Some polled \<Longrightarrow> clock_now r - polled < from_millis PN532_POLL_INTERVAL_MS \<Longrightarrow> recently_polled r"
  by (auto simp: recently_polled_def Let_def from_millis_def PN532_POLL_INTERVAL_MS_def
      PN532_ABSENT_POLL_INTERVAL_MS_def)

lemma failed_poll_state:
  assumes "pn532_inv r" "active_target r \<noteq> None" "poll_card_now drv r = (Err e, r')"
  shows "last_poll r' = Some (clock_now r)
    \<and> (cached_card r' = None \<or> active_target r' \<noteq> None \<and> cached_card r' = cached_card r)"
proof -
  have rf: "rf_field_enabled r"
    using assms(1,2) by (simp add: pn532_inv_def)
  from assms(3) show ?thesis
  proof (cases rule: poll_now_cases)
    case (field e')
    then show ?thesis using rf by (simp add: set_rf_field_def)
  next
    case (device r1 w e')
    then show ?thesis using rf assms(2) by (auto simp: set_rf_field_def)
  next
    case (answered r1 w response)
    then have r1: "r1 = r" using rf by (simp add: set_rf_field_def)
    from answered(3) show ?thesis
    proof (cases rule: handle_poll_response_cases)
      case (absent_error e')
      then show ?thesis using set_rf_field_target [OF absent_error(1)] r1 by simp
    next
      case (malformed e')
      then show ?thesis using assms(2) r1 by simp
    qed (use r1 in simp_all)
  qed simp
qed

subsection \<open>A driver over a recorded line\<close>

text \<open>
  A driver whose line is a recorded list of bytes: every request succeeds at once and the bytes
  of the line are the answers. It is the concrete driver of the witnesses.
\<close>

definition recorded_driver :: "byte list pn532_driver" where
  "recorded_driver =
     \<lparr>open_serial = \<lambda>port baud timeout. Ok (0, []),
      send_wakeup_message = \<lambda>p. (Ok (), 0, p),
      drv_send = \<lambda>req p. (Ok (), 1, p),
      drv_receive_ack = \<lambda>p. (Ok (), 1, p),
      drv_process = \<lambda>req len ms p. (Ok (replicate len 0), 1, p),
      bytes_to_read = \<lambda>p. (Ok (length p), 1, p),
      read_exact = \<lambda>n p. (fst (slice_read n p), 1, snd (slice_read n p)),
      oversleep = \<lambda>p. 0, idle = \<lambda>p now. 0,
      sam_configuration = \<lparr>req_command = 0x14, req_data = [0x01, 0x00, 0x00]\<rparr>,
      get_firmware_version = \<lparr>req_command = 0x02, req_data = []\<rparr>,
      inlist_one_iso_a_target = \<lparr>req_command = 0x4a, req_data = [0x01, 0x00]\<rparr>,
      cmd_rf_configuration = 0x32,
      cmd_in_data_exchange = 0x40\<rparr>"

lemma recorded_stream: "stream_port recorded_driver id"
  by (simp add: stream_port_def recorded_driver_def slice_read_def)

definition attached_reader :: "byte list \<Rightarrow> byte list pn532_uart_reader" where
  "attached_reader line =
     \<lparr>config = \<lparr>cfg_port = ''/dev/ttyUSB0'', cfg_baud_rate = 115200\<rparr>, wire = (5000000000, line), idle_time = 0,
      active_target = Some 0x01,
      cached_card = Some \<lparr>uid = [0x04, 0x05], card_protocol = IsoDep, historical_bytes = []\<rparr>,
      last_poll = Some 1000000000, rf_field_enabled = True, firmware_version = []\<rparr>"

lemma recorded_wait:
  "line \<noteq> [] \<Longrightarrow> 0 < ms \<Longrightarrow> wait_serial_ready recorded_driver ms (c, line) = (Ok True, (c + 1, line))"
  using wait_ready_at_once [of recorded_driver line "length line" 1 line ms c]
  by (simp add: recorded_driver_def)

lemma recorded_ops:
  "timed (drv_send recorded_driver req) w = (Ok (), (fst w + 1, snd w))"
  "timed (drv_receive_ack recorded_driver) w = (Ok (), (fst w + 1, snd w))"
  "timed (read_exact recorded_driver n) w = (fst (slice_read n (snd w)), (fst w + 1, snd (slice_read n (snd w))))"
  by (simp_all add: timed_def recorded_driver_def)

lemma attached_reader_inv: "pn532_inv (attached_reader line)"
  by (simp add: pn532_inv_def attached_reader_def clock_now_def)

text \<open>The exchange with a device that answers.\<close>

lemma exchange_answered:
  assumes "stream_port drv content" "active_target r = Some target" "length apdu \<le> 310"
    and "length body \<le> 252"
    and "answers drv content \<lparr>req_command = cmd_in_data_exchange drv, req_data = target # apdu\<rparr>
          (normal_frame (cmd_in_data_exchange drv + 1) (status # body) @ rest) (snd (wire r))"
  shows "\<exists>res r'. pn532_exchange_apdu drv r apdu = (res, r')
    \<and> (if status = 0 then res = Ok body \<and> active_target r' = Some target
        \<and> content (snd (wire r')) = rest
       else (\<exists>m. res = Err (TargetLost m)) \<and> active_target r' = None)"
proof -
  let ?req = "\<lparr>req_command = cmd_in_data_exchange drv, req_data = target # apdu\<rparr>"
  have "receive_dynamic_response_from slice_read (req_command ?req + 1)
      (normal_frame (cmd_in_data_exchange drv + 1) (status # body) @ rest) = (Ok (status # body), rest)"
    using receive_normal_frame [of "status # body"] assms(4) by simp
  then obtain w where w: "process_dynamic_response drv ?req PN532_APDU_TIMEOUT_MS (wire r) =
      (Ok (status # body), w)" "content (snd w) = rest"
    using process_answered [OF assms(1,5), of PN532_APDU_TIMEOUT_MS]
    by (auto simp: PN532_APDU_TIMEOUT_MS_def)
  have "pn532_exchange_apdu drv r apdu =
      handle_exchange_response drv (status # body) (r\<lparr>wire := w\<rparr>)"
    using assms(2,3) w(1)
    by (simp add: pn532_exchange_apdu_def PN532_BUFFER_SIZE_def exchange_with_target_def on_wire_def)
  then show ?thesis
    using w(2) assms(2) deactivate_target_detached [of drv "r\<lparr>wire := w\<rparr>"]
    by (auto simp: handle_exchange_response_def exchange_status_keeps_target_active_def)
qed

subsection \<open>Properties\<close>

lemma pn532_session_inv:
  "pn532_open drv cfg = Ok r0 \<Longrightarrow> reader_reach (pn532_reader_ops drv) r0 r \<Longrightarrow> pn532_inv r"
  using pn532.reach_keeps_ok pn532_open_inv by blast

text \<open>An APDU of at most 310 bytes on an active target is answered by the device's response
  frame: if the device takes the request \<open>InDataExchange\<close> for the target and puts a normal frame
  with a status byte and a body on the line, the exchange returns the body when the status is
  zero, and otherwise reports the target lost and has no active target any more.\<close>

lemma exchange_returns_answer:
  assumes "stream_port drv content" "active_target r = Some target" "length apdu \<le> 310"
    and "length body \<le> 252"
    and "answers drv content \<lparr>req_command = cmd_in_data_exchange drv, req_data = target # apdu\<rparr>
          (normal_frame (cmd_in_data_exchange drv + 1) (status # body) @ rest) (snd (wire r))"
  shows "\<exists>res r'. pn532_exchange_apdu drv r apdu = (res, r')
    \<and> (if status = 0 then res = Ok body \<and> active_target r' = Some target
        \<and> content (snd (wire r')) = rest
       else (\<exists>m. res = Err (TargetLost m)) \<and> active_target r' = None)"
  by (rule exchange_answered [OF assms])

lemma exchange_returns_answer_witness:
  "\<exists>res r'. pn532_exchange_apdu recorded_driver
      (attached_reader (normal_frame 0x41 [0x00, 0x90, 0x00] @ [0x55])) [0x00, 0xa4, 0x04, 0x00] = (res, r')
    \<and> (if (0x00 :: byte) = 0 then res = Ok [0x90, 0x00] \<and> active_target r' = Some 0x01
        \<and> id (snd (wire r')) = [0x55]
       else (\<exists>m. res = Err (TargetLost m)) \<and> active_target r' = None)"
  by (rule exchange_returns_answer [OF recorded_stream])
    (simp_all add: attached_reader_def answers_def recorded_driver_def normal_frame_def)

text \<open>No request outgrows the device.\<close>

lemma long_apdu_refused:
  "310 < length apdu \<Longrightarrow> \<exists>m. pn532_exchange_apdu drv r apdu = (Err (Unsupported m), r)"
  by (simp add: pn532_exchange_apdu_def PN532_BUFFER_SIZE_def)

text \<open>Waiting for the device ends in time: if a query of the line takes at most \<open>d\<close> and a sleep
  overruns by at most \<open>j\<close>, the wait is over at most one query and one sleep after its deadline, and
  it reports that nothing came only once the deadline has passed.\<close>

lemma wait_serial_ready_in_time:
  assumes "wait_serial_ready drv timeout_ms w = (res, w')"
    and "\<forall>p. fst (snd (bytes_to_read drv p)) \<le> d" "\<forall>p. oversleep drv p \<le> j"
  shows "fst w' \<le> fst w + from_millis timeout_ms + d + from_millis 5 + j
    \<and> (res = Ok False \<longrightarrow> fst w + from_millis timeout_ms \<le> fst w')"
  using wait_until_bound [of drv "fst w + from_millis timeout_ms" w res w' d j] assms
  by (simp add: wait_serial_ready_def)

lemma wait_serial_ready_in_time_witness:
  "wait_serial_ready recorded_driver 12 (0, []) = (Ok False, (15000003, []))
    \<and> (15000003 :: nat) \<le> 0 + from_millis 12 + 1 + from_millis 5 + 0
    \<and> 0 + from_millis 12 \<le> (15000003 :: nat)"
proof -
  have "wait_serial_ready recorded_driver 12 (0, []) = (Ok False, (15000003, []))"
    by (simp add: wait_serial_ready_def wait_until.simps recorded_driver_def timed_def sleep_def
        from_millis_def)
  with wait_serial_ready_in_time [OF this, of 1 0] show ?thesis
    by (simp add: recorded_driver_def)
qed

text \<open>C26: The answer to a poll is read exactly. The reader finds a card in a response if and only if the
  count of targets in it is not zero and the response lists a target: its number is then the active
  target, its UID has the announced length and, when bytes follow the UID, they begin with an ATS of
  the length TL, whose historical bytes are what is left of it after TL, T0 and the interface bytes
  that T0 announces. In particular a response that ends early, or whose TL is too small for the
  interface bytes, yields no card.\<close>

theorem target_response_exact:
  "handle_poll_response drv response r =
      (Ok (Some c), r\<lparr>active_target := Some target, cached_card := Some c\<rparr>)
    \<longleftrightarrow> lists_target response target c"
  by (rule poll_response_iff)

text \<open>C39: A poll that fails on a reader with an active target hides the failure from the next one:
  asked again within a second of the first, the reader does not talk to the device and reports what
  its cache holds, as if the failed poll had found it.\<close>

theorem failed_poll_then_cache:
  assumes "pn532_inv r" "active_target r \<noteq> None" "pn532_poll_card drv r = (Err e, r')"
    and "clock_now (read_clock drv r') - clock_now (read_clock drv r) < from_millis PN532_POLL_INTERVAL_MS"
  shows "pn532_poll_card drv r' = (Ok (cached_card r'), read_clock drv r')
    \<and> wire (read_clock drv r') = wire r' \<and> (cached_card r' = cached_card r \<or> cached_card r' = None)"
proof -
  have "pn532_inv (read_clock drv r)"
    using assms(1) by (auto simp: pn532_inv_def)
  note state = failed_poll_state [OF this, of drv e r']
  have failed: "last_poll r' = Some (clock_now (read_clock drv r))"
    "cached_card r' = None \<or> active_target r' \<noteq> None \<and> cached_card r' = cached_card r"
    using state assms(2,3) unfolding pn532_poll_card_def by simp_all
  have "recently_polled (read_clock drv r')"
    using recently_polledI [of "read_clock drv r'"] failed(1) assms(4) by simp
  then show ?thesis
    using poll_uses_cache [of "read_clock drv r'"] failed(2) by (auto simp: pn532_poll_card_def)
qed

theorem failed_poll_then_cache_witness:
  "let r' = attached_reader [1, 2, 3, 4, 5] \<lparr>last_poll := Some 5000000000, wire := (5000000005, [])\<rparr>
   in pn532_poll_card recorded_driver r' = (Ok (cached_card r'), r')
    \<and> (cached_card r' = cached_card (attached_reader [1, 2, 3, 4, 5]) \<or> cached_card r' = None)"
proof -
  let ?r = "attached_reader [1, 2, 3, 4, 5]"
  let ?r' = "?r\<lparr>last_poll := Some 5000000000, wire := (5000000005, [])\<rparr>"
  have no_pause: "read_clock recorded_driver r = r" for r
    by (simp add: read_clock_def recorded_driver_def)
  have "process_dynamic_response recorded_driver req PN532_POLL_TIMEOUT_MS (5000000000, [1, 2, 3, 4, 5])
      = (Err BadResponseFrame, (5000000005, []))" for req
    by (simp add: process_dynamic_response_def Let_def recorded_ops recorded_wait
        PN532_POLL_TIMEOUT_MS_def receive_dynamic_response_def receive_dynamic_response_from_def
        read_buffer_def slice_read_def PREAMBLE_def)
  then have "pn532_poll_card recorded_driver ?r =
      (Err (map_pn532_error ''poll for ISO14443A target'' BadResponseFrame), ?r')"
    by (simp add: pn532_poll_card_def no_pause poll_card_now_def attached_reader_def
        can_return_cached_presence_def clock_now_def
        recently_polled_def from_millis_def PN532_POLL_INTERVAL_MS_def set_rf_field_def on_wire_def)
  from failed_poll_then_cache [OF attached_reader_inv _ this] show ?thesis
    by (simp add: no_pause) (simp add: attached_reader_def clock_now_def from_millis_def PN532_POLL_INTERVAL_MS_def)
qed

end
