(* ===== verification/Application.thy ===== *)
theory Application
  imports Usb_Device Nfc_Dummy Pn532_Reader
begin

text \<open>
  Configuration and start-up: \<open>src/main.rs\<close>, \<open>src/config.rs\<close>, \<open>src/app.rs\<close>, the factories of the two backends and
  \<open>src/usbip/server.rs\<close>, whose server loop is a parameter.

  A \<open>Box<dyn NfcReader>\<close> is a value of the sum type \<open>backend\<close> of the two readers of the program, and
  its methods dispatch on it (\<open>backend_ops\<close>). Command-line text is taken to consist of characters
  up to U+00FF, one \<open>char\<close> each. The argument parser \<open>clap\<close> and the address type are not modelled:
  a parsed \<open>Cli\<close> is the input, and the address is a type parameter.
\<close>

subsection \<open>Configuration\<close>

datatype reader_backend = Pn532UartBackend | DummyBackend

record 'a cli =
  cli_listen_addr :: 'a
  cli_backend :: reader_backend
  cli_serial_port :: string
  cli_serial_baud_rate :: u32

datatype reader_config = Pn532UartReaderConfig pn532_uart_config | DummyReaderConfig

record 'a app_config =
  app_listen_addr :: 'a
  app_reader :: reader_config

text \<open>\<open>str::trim\<close> removes leading and trailing characters with the property \<open>White_Space\<close>.\<close>

definition white_space :: "char \<Rightarrow> bool" where
  "white_space c \<longleftrightarrow> of_char c \<in> {9, 10, 11, 12, 13, 32, 0x85, 0xa0 :: nat}"

definition trim :: "string \<Rightarrow> string" where
  "trim s = rev (dropWhile white_space (rev (dropWhile white_space s)))"

definition missing_port_message :: string where
  "missing_port_message = ''--serial-port must be provided for the pn532-uart backend''"

definition app_config_try_from :: "'a cli \<Rightarrow> ('a app_config, string) result" where
  "app_config_try_from c =
     (let reader =
        (case cli_backend c of
           Pn532UartBackend \<Rightarrow>
             if trim (cli_serial_port c) = [] then Err missing_port_message
             else Ok (Pn532UartReaderConfig
                    \<lparr>cfg_port = cli_serial_port c, cfg_baud_rate = cli_serial_baud_rate c\<rparr>)
         | DummyBackend \<Rightarrow> Ok DummyReaderConfig)
      in case reader of
           Err e \<Rightarrow> Err e
         | Ok r \<Rightarrow> Ok \<lparr>app_listen_addr = cli_listen_addr c, app_reader = r\<rparr>)"

lemma trim_empty_iff: "trim s = [] \<longleftrightarrow> list_all white_space s"
proof (cases "dropWhile white_space s")
  case Nil
  then have "list_all white_space s"
    by (simp add: list_all_iff dropWhile_eq_Nil_conv)
  moreover have "trim s = []"
    by (simp add: trim_def Nil)
  ultimately show ?thesis by simp
next
  case (Cons c cs)
  then have "\<not> white_space c"
    by (metis hd_dropWhile list.distinct(1) list.sel(1))
  moreover have "c \<in> set s"
    using Cons set_dropWhileD [of c white_space s] by simp
  ultimately show ?thesis
    using Cons by (auto simp: trim_def list_all_iff dropWhile_eq_Nil_conv)
qed

subsection \<open>The two backends behind the trait\<close>

datatype 'p backend = Pn532 "'p pn532_uart_reader" | Dummy dummy_reader

text \<open>A method of the reader inside the box, with the box put back.\<close>

definition boxed :: "('r \<Rightarrow> 'b) \<Rightarrow> 'a \<times> 'r \<Rightarrow> 'a \<times> 'b" where
  "boxed f m = (fst m, f (snd m))"

lemma boxed_iff: "boxed f m = (a, b) \<longleftrightarrow> (\<exists>s. m = (a, s) \<and> b = f s)"
  by (cases m) (auto simp: boxed_def)

definition backend_ops :: "'p pn532_driver \<Rightarrow> 'p backend nfc_reader" where
  "backend_ops drv =
     \<lparr>capabilities = \<lambda>r. (case r of
        Pn532 p \<Rightarrow> capabilities (pn532_reader_ops drv) p
      | Dummy d \<Rightarrow> capabilities dummy_reader_ops d),
      poll_card = \<lambda>r. (case r of
        Pn532 p \<Rightarrow> boxed Pn532 (poll_card (pn532_reader_ops drv) p)
      | Dummy d \<Rightarrow> boxed Dummy (poll_card dummy_reader_ops d)),
      power_off = \<lambda>r. (case r of
        Pn532 p \<Rightarrow> boxed Pn532 (power_off (pn532_reader_ops drv) p)
      | Dummy d \<Rightarrow> boxed Dummy (power_off dummy_reader_ops d)),
      exchange_apdu = \<lambda>r a. (case r of
        Pn532 p \<Rightarrow> boxed Pn532 (exchange_apdu (pn532_reader_ops drv) p a)
      | Dummy d \<Rightarrow> boxed Dummy (exchange_apdu dummy_reader_ops d a))\<rparr>"

primrec backend_ok :: "'p backend \<Rightarrow> bool" where
  "backend_ok (Pn532 r) = pn532_inv r"
| "backend_ok (Dummy d) = True"

primrec backend_attached :: "'p backend \<Rightarrow> bool" where
  "backend_attached (Pn532 r) = target_attached r"
| "backend_attached (Dummy d) = dummy_card_present d"

interpretation backend: reader_contract "backend_ops drv" backend_ok backend_attached
  for drv :: "'p pn532_driver"
proof unfold_locales
  fix r r' :: "'p backend" and a res pres eres m c
  note defs = backend_ops_def boxed_iff
  note contract = pn532.poll_ok pn532.power_off_ok pn532.exchange_ok pn532.poll_caps
    pn532.power_off_caps pn532.exchange_caps pn532.poll_card_attached pn532.exchange_keeps_attached
    dummy_contract.poll_caps dummy_contract.power_off_caps dummy_contract.exchange_caps
    dummy_contract.poll_card_attached dummy_contract.exchange_keeps_attached
  note lost = pn532.poll_none_detached pn532.exchange_lost_detached
    dummy_contract.poll_none_detached [OF TrueI] dummy_contract.exchange_lost_detached [OF TrueI]
  note [simp del] = pn532_reader_ops_sel dummy_reader_ops_sel
  show "backend_ok r'" if "backend_ok r" "poll_card (backend_ops drv) r = (res, r')"
    using that by (cases r) (auto simp: defs intro: contract)
  show "backend_ok r'" if "backend_ok r" "power_off (backend_ops drv) r = (pres, r')"
    using that by (cases r) (auto simp: defs intro: contract)
  show "backend_ok r'" if "backend_ok r" "exchange_apdu (backend_ops drv) r a = (eres, r')"
    using that by (cases r) (auto simp: defs intro: contract)
  show "capabilities (backend_ops drv) r' = capabilities (backend_ops drv) r"
    if "poll_card (backend_ops drv) r = (res, r')"
    using that by (cases r) (auto simp: defs intro: contract)
  show "capabilities (backend_ops drv) r' = capabilities (backend_ops drv) r"
    if "power_off (backend_ops drv) r = (pres, r')"
    using that by (cases r) (auto simp: defs intro: contract)
  show "capabilities (backend_ops drv) r' = capabilities (backend_ops drv) r"
    if "exchange_apdu (backend_ops drv) r a = (eres, r')"
    using that by (cases r) (auto simp: defs intro: contract)
  show "backend_attached r'"
    if "backend_ok r" "poll_card (backend_ops drv) r = (Ok (Some c), r')"
    using that by (cases r) (auto simp: defs intro: contract)
  show "\<not> backend_attached r'"
    if "backend_ok r" "poll_card (backend_ops drv) r = (Ok None, r')"
    using that by (cases r) (auto simp: defs dest: lost)
  show "\<not> backend_attached r'"
    if "backend_ok r" "exchange_apdu (backend_ops drv) r a = (Err (TargetLost m), r')"
    using that by (cases r) (auto simp: defs dest: lost)
  show "backend_attached r'"
    if "backend_ok r" "backend_attached r" "exchange_apdu (backend_ops drv) r a = (eres, r')"
      "\<forall>m. eres \<noteq> Err (TargetLost m)"
    using that by (cases r) (auto simp: defs intro: contract)
qed

subsection \<open>Start-up\<close>

record 'b reader_factory =
  backend_name :: string
  factory_open :: "('b, reader_error) result"

definition map_ok :: "('a \<Rightarrow> 'b) \<Rightarrow> ('a, 'e) result \<Rightarrow> ('b, 'e) result" where
  "map_ok f r = (case r of Err e \<Rightarrow> Err e | Ok a \<Rightarrow> Ok (f a))"

lemma map_ok_iff: "map_ok f r = Ok b \<longleftrightarrow> (\<exists>a. r = Ok a \<and> b = f a)"
  by (auto simp: map_ok_def split: sum.splits)

definition pn532_uart_factory ::
    "'p pn532_driver \<Rightarrow> pn532_uart_config \<Rightarrow> 'p backend reader_factory" where
  "pn532_uart_factory drv cfg =
     \<lparr>backend_name = ''pn532-uart'', factory_open = map_ok Pn532 (pn532_open drv cfg)\<rparr>"

definition dummy_reader_factory :: "'p backend reader_factory" where
  "dummy_reader_factory = \<lparr>backend_name = ''dummy'', factory_open = map_ok Dummy dummy_open\<rparr>"

text \<open>
  \<open>UsbIpServer\<close>. The server loop of the crate \<open>usbip\<close> is the parameter \<open>serve\<close>: it gets the address and
  the list of devices it simulates, and what comes of it is a value of the type \<open>'w\<close>.
\<close>

record ('a, 'b) usb_ip_server =
  server_listen_addr :: 'a
  server_bridge :: "'b bridge"

definition new_server :: "'a \<Rightarrow> 'b bridge \<Rightarrow> ('a, 'b) usb_ip_server" where
  "new_server addr b = \<lparr>server_listen_addr = addr, server_bridge = b\<rparr>"

definition server_run ::
    "usb_crate \<Rightarrow> ('a \<Rightarrow> 'b virtual_device list \<Rightarrow> 'w) \<Rightarrow> ('a, 'b) usb_ip_server \<Rightarrow> 'w" where
  "server_run usb serve s =
     (let device = build_virtual_ccid_device usb (server_bridge s)
      in serve (server_listen_addr s) [device])"

record 'a application =
  application_config :: "'a app_config"

definition new_application :: "'a app_config \<Rightarrow> 'a application" where
  "new_application cfg = \<lparr>application_config = cfg\<rparr>"

definition application_run ::
    "'p pn532_driver \<Rightarrow> usb_crate \<Rightarrow> ('a \<Rightarrow> 'p backend virtual_device list \<Rightarrow> 'w) \<Rightarrow> 'a application
      \<Rightarrow> ('w, reader_error) result" where
  "application_run drv usb serve app =
     (let reader =
        (case app_reader (application_config app) of
           Pn532UartReaderConfig uart \<Rightarrow> factory_open (pn532_uart_factory drv uart)
         | DummyReaderConfig \<Rightarrow> factory_open dummy_reader_factory)
      in case reader of
           Err e \<Rightarrow> Err e
         | Ok r \<Rightarrow>
             let server = new_server (app_listen_addr (application_config app))
                            (new_bridge (backend_ops drv) r)
             in Ok (server_run usb serve server))"

text \<open>
  The program after its arguments are parsed: an error is the text that \<open>main\<close> returns, and a
  start-up without an error runs the server loop.
\<close>

definition daemon_main ::
    "'p pn532_driver \<Rightarrow> usb_crate \<Rightarrow> ('a \<Rightarrow> 'p backend virtual_device list \<Rightarrow> 'w) \<Rightarrow> 'a cli
      \<Rightarrow> ('w, string) result" where
  "daemon_main drv usb serve c =
     (case app_config_try_from c of
        Err message \<Rightarrow> Err message
      | Ok cfg \<Rightarrow>
          (case application_run drv usb serve (new_application cfg) of
             Err error \<Rightarrow> Err (reader_error_display error)
           | Ok served \<Rightarrow> Ok served))"

lemmas start_up_defs =
  daemon_main_def application_run_def new_application_def server_run_def new_server_def

text \<open>A reader as one of the factories has just opened it.\<close>

definition opened_backend :: "'p pn532_driver \<Rightarrow> 'p backend \<Rightarrow> bool" where
  "opened_backend drv r \<longleftrightarrow>
     (\<exists>uart. factory_open (pn532_uart_factory drv uart) = Ok r) \<or> factory_open dummy_reader_factory = Ok r"

lemma opened_backend_ok: "opened_backend drv r \<Longrightarrow> backend_ok r"
  by (auto simp: opened_backend_def pn532_uart_factory_def dummy_reader_factory_def map_ok_iff
      dest: pn532_open_inv)

text \<open>A start-up without an error serves the one device over the reader that was opened.\<close>

lemma daemon_main_reader:
  fixes serve0 :: "'a \<Rightarrow> 'p backend virtual_device list \<Rightarrow> 'w"
  assumes "daemon_main drv usb serve0 c = Ok served"
  obtains r where "opened_backend drv r"
    "\<forall>serve :: 'a \<Rightarrow> 'p backend virtual_device list \<Rightarrow> 'w. daemon_main drv usb serve c =
      Ok (serve (cli_listen_addr c) [build_virtual_ccid_device usb (new_bridge (backend_ops drv) r)])"
proof -
  obtain cfg where cfg: "app_config_try_from c = Ok cfg"
    using assms by (auto simp: daemon_main_def split: sum.splits)
  have addr: "app_listen_addr cfg = cli_listen_addr c"
    using cfg by (auto simp: app_config_try_from_def Let_def split: sum.splits reader_backend.splits if_splits)
  define opened where "opened = (case app_reader cfg of
      Pn532UartReaderConfig uart \<Rightarrow> factory_open (pn532_uart_factory drv uart)
    | DummyReaderConfig \<Rightarrow> factory_open dummy_reader_factory)"
  have run: "daemon_main drv usb serve c =
      (case opened of Err e \<Rightarrow> Err (reader_error_display e)
       | Ok r \<Rightarrow> Ok (serve (cli_listen_addr c)
           [build_virtual_ccid_device usb (new_bridge (backend_ops drv) r)]))"
    for serve :: "'a \<Rightarrow> 'p backend virtual_device list \<Rightarrow> 'w"
    by (cases opened) (simp_all add: start_up_defs cfg addr opened_def)
  obtain r where r: "opened = Ok r"
    using assms unfolding run by (auto split: sum.splits)
  then have "opened_backend drv r"
    unfolding opened_def opened_backend_def by (cases "app_reader cfg") auto
  then show ?thesis using that run r by simp
qed

text \<open>The options that are not given take the defaults of the command line; the address is parsed.\<close>

definition default_cli :: "(string \<Rightarrow> 'a) \<Rightarrow> 'a cli" where
  "default_cli parse_addr =
     \<lparr>cli_listen_addr = parse_addr ''127.0.0.1:13240'', cli_backend = Pn532UartBackend,
      cli_serial_port = [], cli_serial_baud_rate = 115200\<rparr>"

lemma default_command_line_refused:
  "daemon_main drv usb serve (default_cli parse_addr) = Err missing_port_message"
  by (simp add: daemon_main_def app_config_try_from_def default_cli_def trim_def)

text \<open>Opening a device with a port path never fails for its configuration.\<close>

lemma try_not_configuration:
  assumes "\<And>m. fst x \<noteq> Err (Configuration m)" "\<And>a s m. fst (f a s) \<noteq> Err (Configuration m)"
  shows "fst (try_then x f) \<noteq> Err (Configuration m)"
  using assms by (cases x; cases "fst x") auto

lemma map_err_not_configuration:
  "(\<And>e. g e \<noteq> Configuration m) \<Longrightarrow> fst (map_err g x) \<noteq> Err (Configuration m)"
  by (cases x; cases "fst x") auto

lemma map_pn532_error_not_configuration [simp]: "map_pn532_error action e \<noteq> Configuration m"
  by (simp add: map_pn532_error_def split: pn532_error.split)

lemma open_not_configuration:
  assumes "cfg_port cfg \<noteq> []"
  shows "pn532_open drv cfg \<noteq> Err (Configuration m)"
proof (cases "open_serial drv (cfg_port cfg) (cfg_baud_rate cfg) (from_millis PN532_APDU_TIMEOUT_MS)")
  case (Inl e)
  then show ?thesis using assms by (simp add: pn532_open_def)
next
  case (Inr w)
  show ?thesis
    unfolding pn532_open_def Let_def Inr if_not_P [OF assms] sum.case
    by (intro try_not_configuration map_err_not_configuration) simp_all
qed

text \<open>
  With the PN532 backend a port that is empty or blank is refused with the documented message, every
  other port is passed on unchanged with the baud rate, and opening it never fails for its
  configuration.
\<close>

lemma configuration_outcomes:
  "(cli_backend c = DummyBackend \<longrightarrow>
      app_config_try_from c = Ok \<lparr>app_listen_addr = cli_listen_addr c, app_reader = DummyReaderConfig\<rparr>)
   \<and> (cli_backend c = Pn532UartBackend \<and> list_all white_space (cli_serial_port c) \<longrightarrow>
        app_config_try_from c = Err missing_port_message)
   \<and> (cli_backend c = Pn532UartBackend \<and> \<not> list_all white_space (cli_serial_port c) \<longrightarrow>
        (\<exists>cfg. app_config_try_from c =
            Ok \<lparr>app_listen_addr = cli_listen_addr c, app_reader = Pn532UartReaderConfig cfg\<rparr>
         \<and> cfg_port cfg = cli_serial_port c \<and> cfg_baud_rate cfg = cli_serial_baud_rate c
         \<and> (\<forall>m. pn532_open drv cfg \<noteq> Err (Configuration m))))"
proof -
  have "pn532_open drv \<lparr>cfg_port = cli_serial_port c, cfg_baud_rate = cli_serial_baud_rate c\<rparr>
      \<noteq> Err (Configuration m)" if "\<not> list_all white_space (cli_serial_port c)" for m
    by (rule open_not_configuration) (use that in auto)
  then show ?thesis
    by (cases "cli_backend c") (simp_all add: app_config_try_from_def trim_empty_iff)
qed

subsection \<open>Properties\<close>

text \<open>C5: The whole program keeps its invariants. Start-up without an error runs the server loop on
  the address it was given and one device; from this device, for either backend, whatever control
  requests and URBs the host sends, in any order, and whatever the NFC hardware answers, the
  transport's queues, framing and abort state, the slot's state and the reader's own state stay
  consistent.\<close>

theorem program_invariant:
  fixes serve0 :: "'a \<Rightarrow> 'p backend virtual_device list \<Rightarrow> 'w"
  assumes "daemon_main drv usb serve0 c = Ok served"
  shows "\<exists>d0. (\<forall>serve :: 'a \<Rightarrow> 'p backend virtual_device list \<Rightarrow> 'w.
        daemon_main drv usb serve c = Ok (serve (cli_listen_addr c) [d0]))
    \<and> (\<forall>d. device_reach usb (backend_ops drv) d0 d \<longrightarrow>
        transport_inv (dev_transport d) \<and> bridge_ok (backend_ops drv) backend_ok (bridge (dev_transport d)))"
proof -
  obtain r where r: "opened_backend drv r"
    "\<forall>serve :: 'a \<Rightarrow> 'p backend virtual_device list \<Rightarrow> 'w. daemon_main drv usb serve c =
      Ok (serve (cli_listen_addr c) [build_virtual_ccid_device usb (new_bridge (backend_ops drv) r)])"
    by (rule daemon_main_reader [OF assms])
  then show ?thesis
    using backend.device_session [OF opened_backend_ok] by blast
qed

theorem program_invariant_witness:
  "\<exists>d0. (13240, [build_virtual_ccid_device standard_usb (new_bridge (backend_ops recorded_driver) (Dummy fresh_dummy))])
      = ((13240 :: nat), [d0])
    \<and> transport_inv (dev_transport d0)
    \<and> bridge_ok (backend_ops recorded_driver) backend_ok (bridge (dev_transport d0))"
proof -
  let ?cli = "\<lparr>cli_listen_addr = (13240 :: nat), cli_backend = DummyBackend,
      cli_serial_port = [], cli_serial_baud_rate = 115200\<rparr>"
  have run: "daemon_main recorded_driver standard_usb Pair ?cli = Ok (13240,
      [build_virtual_ccid_device standard_usb (new_bridge (backend_ops recorded_driver) (Dummy fresh_dummy))])"
    by (simp add: start_up_defs app_config_try_from_def dummy_reader_factory_def map_ok_def
        dummy_open_def fresh_dummy_def)
  from program_invariant [OF run] obtain d0 where
    "daemon_main recorded_driver standard_usb Pair ?cli = Ok (13240, [d0])"
    "transport_inv (dev_transport d0)"
    "bridge_ok (backend_ops recorded_driver) backend_ok (bridge (dev_transport d0))"
    using reach_start by fastforce
  then show ?thesis
    unfolding run by blast
qed

text \<open>C18: The bridge never believes in a target that the reader has lost: if the slot is powered, the
  reader holds an activated target, and every command keeps it so, except a power-off that the
  reader failed to carry out.\<close>

theorem powered_slot_has_target:
  assumes "bridge_ok (backend_ops drv) backend_ok b" "powered_attached backend_attached b"
    and "handle_command (backend_ops drv) c b = (resp, b')" "\<not> power_off_failed c resp"
  shows "powered_attached backend_attached b'"
  using backend.powered_attached_handle_command assms by blast

theorem powered_slot_has_target_witness:
  "powered_attached backend_attached
     (snd (handle_command (backend_ops recorded_driver) (IccPowerOn 0 1 0)
        (new_bridge (backend_ops recorded_driver) (Dummy fresh_dummy))))"
  by (rule powered_slot_has_target [OF _ _ prod.collapse [symmetric]])
    (simp_all add: backend.bridge_ok_new powered_attached_def power_off_failed_def,
      simp add: new_bridge_def)

end
