(* ===== verification/Pn532_Latency.thy ===== *)
theory Pn532_Latency
  imports Application
begin

text \<open>
  How long the daemon is busy with one command on the PN532. A command holds the lock of the bridge
  and stops the URBs of the host until the reader has answered, so this is the longest time for
  which the virtual device does not respond. The bounds are composed along the calls: one lemma
  for each operation of \<open>Pn532_Reader\<close>, up to \<open>handle_command\<close>.
\<close>

subsection \<open>Operations of bounded duration\<close>

text \<open>
  \<open>takes clk n f\<close>: the operation \<open>f\<close> advances the clock \<open>clk\<close> of its state by at most \<open>n\<close>
  nanoseconds. A driver is prompt when each of its calls takes at most \<open>d\<close> and a sleep overruns by
  at most \<open>j\<close>. The port is opened with a timeout (\<open>open_serial\<close>) and \<open>drv_process\<close> is given one, so
  \<open>d\<close> is the larger of the two.
\<close>

definition takes :: "('s \<Rightarrow> nat) \<Rightarrow> nat \<Rightarrow> ('s \<Rightarrow> 'a \<times> 's) \<Rightarrow> bool" where
  "takes clk n f \<longleftrightarrow> (\<forall>s a s'. f s = (a, s') \<longrightarrow> clk s' \<le> clk s + n)"

definition prompt_driver :: "'p pn532_driver \<Rightarrow> nat \<Rightarrow> nat \<Rightarrow> bool" where
  "prompt_driver drv d j \<longleftrightarrow>
     (\<forall>req p. fst (snd (drv_send drv req p)) \<le> d)
   \<and> (\<forall>p. fst (snd (drv_receive_ack drv p)) \<le> d)
   \<and> (\<forall>req n ms p. fst (snd (drv_process drv req n ms p)) \<le> d)
   \<and> (\<forall>p. fst (snd (bytes_to_read drv p)) \<le> d)
   \<and> (\<forall>n p. fst (snd (read_exact drv n p)) \<le> d)
   \<and> (\<forall>p. oversleep drv p \<le> j)"

lemma takesI: "(\<And>s a s'. f s = (a, s') \<Longrightarrow> clk s' \<le> clk s + n) \<Longrightarrow> takes clk n f"
  unfolding takes_def by blast

lemma takesD: "takes clk n f \<Longrightarrow> f s = (a, s') \<Longrightarrow> clk s' \<le> clk s + n"
  unfolding takes_def by blast

lemma takes_const: "takes clk n (\<lambda>s. (a, s))"
  by (simp add: takes_def)

lemma takes_timed: "(\<And>p. fst (snd (f p)) \<le> n) \<Longrightarrow> takes fst n (timed f)"
  by (auto simp: takes_def timed_def Let_def split: prod.splits) (metis fst_conv snd_conv)

lemma takes_if: "takes clk n f \<Longrightarrow> takes clk n g \<Longrightarrow> takes clk n (\<lambda>s. if b then f s else g s)"
  by (simp add: takes_def)

lemma takes_map_err: "takes clk n f \<Longrightarrow> takes clk n (\<lambda>s. map_err g (f s))"
  by (fastforce simp: takes_def elim: map_err_cases)

lemma takes_try:
  assumes "takes clk m f" "\<And>a. takes clk n (g a)"
  shows "takes clk (m + n) (\<lambda>s. try_then (f s) g)"
proof (rule takesI)
  fix s a s'
  assume "try_then (f s) g = (a, s')"
  then show "clk s' \<le> clk s + (m + n)"
  proof (cases rule: try_then_cases)
    case (ok b s1)
    then show ?thesis
      using takesD [OF assms(1) ok(1)] takesD [OF assms(2) ok(2)] by linarith
  qed (use takesD [OF assms(1)] in fastforce)
qed

lemma takes_le: "takes clk m f \<Longrightarrow> m \<le> n \<Longrightarrow> takes clk n f"
  unfolding takes_def by (meson add_left_mono le_trans)

lemma takes_after: "takes clk n f \<Longrightarrow> (\<And>s. clk (g s) = clk s) \<Longrightarrow> takes clk n (\<lambda>s. f (g s))"
  by (fastforce simp: takes_def)

lemmas takes_rules = takes_const takes_if takes_map_err

subsection \<open>Reading a response frame\<close>

lemma takes_read_buffer: "(\<And>n. takes fst d (rd n)) \<Longrightarrow> takes fst d (read_buffer rd n)"
  by (fastforce simp: takes_def read_buffer_def split: prod.splits sum.splits)

lemma takes_frame_len:
  assumes "\<And>n. takes fst d (rd n)"
  shows "takes fst d (receive_frame_len rd hdr)"
proof (rule takesI)
  fix w res w'
  assume step: "receive_frame_len rd hdr w = (res, w')"
  obtain r w1 where ext: "read_buffer rd 3 w = (r, w1)"
    by (cases "read_buffer rd 3 w")
  have "w' \<in> {w, w1}"
    using step ext by (auto simp: receive_frame_len_def split: sum.splits if_splits)
  then show "fst w' \<le> fst w + d"
    using takesD [OF takes_read_buffer ext] assms by auto
qed

lemma takes_receive:
  assumes "\<And>n. takes fst d (rd n)"
  shows "takes fst (3 * d) (receive_dynamic_response_from rd cmd)"
proof (rule takesI)
  fix w res w'
  assume step: "receive_dynamic_response_from rd cmd w = (res, w')"
  obtain r1 w1 where h: "read_buffer rd 5 w = (r1, w1)"
    by (cases "read_buffer rd 5 w")
  obtain r2 w2 where l: "receive_frame_len rd (projr r1) w1 = (r2, w2)"
    by (cases "receive_frame_len rd (projr r1) w1")
  obtain r3 w3 where f: "read_buffer rd (projr r2 + 2) w2 = (r3, w3)"
    by (cases "read_buffer rd (projr r2 + 2) w2")
  have "w' \<in> {w1, w2, w3}"
    using step h l f
    by (auto simp: receive_dynamic_response_from_def split: sum.splits if_splits)
  moreover have "fst w1 \<le> fst w + d" "fst w2 \<le> fst w1 + d" "fst w3 \<le> fst w2 + d"
    using takesD [OF takes_read_buffer h] takesD [OF takes_frame_len l] takesD [OF takes_read_buffer f]
      assms by blast+
  ultimately show "fst w' \<le> fst w + 3 * d"
    by auto
qed

subsection \<open>The request and response exchange\<close>

text \<open>
  The longest time for an exchange with the waiting time \<open>ms\<close>: both waits run out, one query and one
  sleep late, and the seven other calls take \<open>d\<close> each.
\<close>

definition exchange_time :: "nat \<Rightarrow> nat \<Rightarrow> nat \<Rightarrow> nat" where
  "exchange_time d j ms = 2 * (from_millis ms + from_millis 5 + j) + 7 * d"

lemma prompt_timed:
  assumes "prompt_driver drv d j"
  shows "takes fst d (timed (drv_send drv req))" "takes fst d (timed (drv_receive_ack drv))"
    "takes fst d (timed (drv_process drv req n ms))" "takes fst d (timed (read_exact drv n))"
  using assms by (auto simp: prompt_driver_def intro!: takes_timed)

lemma takes_wait:
  assumes "prompt_driver drv d j"
  shows "takes fst (from_millis ms + d + from_millis 5 + j) (wait_serial_ready drv ms)"
proof (rule takesI)
  fix w res w'
  assume "wait_serial_ready drv ms w = (res, w')"
  then have "fst w' \<le> max (fst w) (fst w + from_millis ms + d + from_millis 5 + j)"
    using assms wait_until_bound [of drv "fst w + from_millis ms" w res w' d j]
    by (simp add: wait_serial_ready_def prompt_driver_def)
  then show "fst w' \<le> fst w + (from_millis ms + d + from_millis 5 + j)"
    by linarith
qed

lemma takes_process:
  assumes "prompt_driver drv d j"
  shows "takes fst (exchange_time d j ms) (process_dynamic_response drv req ms)"
proof -
  let ?wait = "from_millis ms + d + from_millis 5 + j"
  have receive: "takes fst (3 * d) (receive_dynamic_response drv cmd)" for cmd
    unfolding receive_dynamic_response_def
    by (rule takes_receive [OF prompt_timed(4) [OF assms]])
  have "takes fst (d + (?wait + (d + (?wait + 3 * d)))) (process_dynamic_response drv req ms)"
    unfolding process_dynamic_response_def Let_def
    by (intro takes_try takes_rules takes_wait [OF assms] prompt_timed [OF assms] receive)
  then show ?thesis
    by (rule takes_le) (simp add: exchange_time_def)
qed

subsection \<open>The reader\<close>

definition clock :: "'p pn532_uart_reader \<Rightarrow> nat" where
  "clock r = fst (wire r)"

lemma takes_on_wire: "takes fst n f \<Longrightarrow> takes clock n (on_wire f)"
  by (rule takesI) (auto simp: on_wire_def clock_def Let_def split: prod.splits dest: takesD)

lemma takes_set_rf_field:
  assumes "prompt_driver drv d j"
  shows "takes clock d (set_rf_field drv enabled)"
proof -
  have "takes clock (d + 0) (\<lambda>r. try_then (map_err g (on_wire (timed (drv_process drv req n ms)) r))
      (\<lambda>_ r. (Ok (), r\<lparr>rf_field_enabled := e\<rparr>)))" for g req n ms e
    by (intro takes_try takes_map_err takes_on_wire prompt_timed [OF assms])
      (simp add: takes_def clock_def)
  note asked = this [unfolded add_0_right]
  show ?thesis
    unfolding set_rf_field_def Let_def
    by (rule takesI) (auto dest: takesD [OF asked] split: if_splits)
qed

lemma takes_handle_poll_response:
  assumes "prompt_driver drv d j"
  shows "takes clock d (handle_poll_response drv response)"
proof -
  have "takes clock (d + 0) (\<lambda>r. try_then
      (set_rf_field drv False (r\<lparr>active_target := None, cached_card := None\<rparr>)) (\<lambda>_ r. (Ok None, r)))"
    by (intro takes_try takes_const takes_after [OF takes_set_rf_field [OF assms]]) (simp add: clock_def)
  then have "takes clock d (\<lambda>r. try_then
      (set_rf_field drv False (r\<lparr>active_target := None, cached_card := None\<rparr>)) (\<lambda>_ r. (Ok None, r)))"
    by simp
  moreover have "takes clock d (\<lambda>r. case parse_target_response response of Err e \<Rightarrow> (Err e, r)
      | Ok (target, presence) \<Rightarrow>
          (Ok (Some presence), r\<lparr>active_target := Some target, cached_card := Some presence\<rparr>))"
    by (auto simp: takes_def clock_def split: sum.splits)
  ultimately show ?thesis
    unfolding handle_poll_response_def by (rule takes_if)
qed

lemma takes_handle_exchange_response:
  assumes "prompt_driver drv d j"
  shows "takes clock d (handle_exchange_response drv response)"
proof -
  have "takes clock d (deactivate_target drv)"
    unfolding deactivate_target_def
    by (rule takes_after [OF takes_set_rf_field [OF assms]]) (simp add: clock_def)
  then have "clock (snd (deactivate_target drv r)) \<le> clock r + d" for r
    using takesD by (metis prod.collapse)
  then show ?thesis
    by (auto simp: takes_def handle_exchange_response_def split: if_splits)
qed

definition poll_time :: "nat \<Rightarrow> nat \<Rightarrow> nat" where
  "poll_time d j = exchange_time d j PN532_POLL_TIMEOUT_MS + 2 * d"

lemma takes_poll_now:
  assumes "prompt_driver drv d j"
  shows "takes clock (poll_time d j) (poll_card_now drv)"
proof (rule takesI)
  fix r res r'
  assume poll: "poll_card_now drv r = (res, r')"
  have asked: "takes clock (d + (exchange_time d j PN532_POLL_TIMEOUT_MS + d)) (\<lambda>r.
      try_then (set_rf_field drv True r) (\<lambda>_ r.
      try_then (map_err g (on_wire (process_dynamic_response drv req PN532_POLL_TIMEOUT_MS)
        (r\<lparr>last_poll := Some now\<rparr>))) (handle_poll_response drv)))" for g req now
    by (intro takes_try takes_map_err takes_after [OF takes_on_wire [OF takes_process [OF assms]]]
        takes_set_rf_field [OF assms] takes_handle_poll_response [OF assms]) (simp add: clock_def)
  show "clock r' \<le> clock r + poll_time d j"
  proof (cases "can_return_cached_presence (cached_card r \<noteq> None) (active_target r \<noteq> None)
      (recently_polled r)")
    case False
    show ?thesis
      using takesD [OF asked poll [unfolded poll_card_now_def Let_def if_not_P [OF False]]]
      by (simp add: poll_time_def)
  qed (use poll in \<open>simp add: poll_card_now_def\<close>)
qed

lemma takes_poll:
  assumes "prompt_driver drv d j"
  shows "takes clock (poll_time d j) (pn532_poll_card drv)"
  using takes_after [OF takes_poll_now [OF assms], of "read_clock drv"]
  by (simp add: pn532_poll_card_def [abs_def] clock_def)

definition apdu_time :: "nat \<Rightarrow> nat \<Rightarrow> nat" where
  "apdu_time d j = exchange_time d j PN532_APDU_TIMEOUT_MS + d"

lemma takes_exchange_with_target:
  assumes "prompt_driver drv d j"
  shows "takes clock (apdu_time d j) (exchange_with_target drv apdu target)"
  unfolding exchange_with_target_def apdu_time_def
  by (intro takes_try takes_map_err takes_on_wire takes_process [OF assms]
      takes_handle_exchange_response [OF assms])

text \<open>A method call takes longest when an exchange has to poll for its target first.\<close>

definition call_time :: "nat \<Rightarrow> nat \<Rightarrow> nat" where
  "call_time d j = poll_time d j + apdu_time d j"

lemma call_time_value: "call_time d j = from_millis 11020 + 4 * j + 17 * d"
  by (simp add: call_time_def poll_time_def apdu_time_def exchange_time_def from_millis_def
      PN532_POLL_TIMEOUT_MS_def PN532_APDU_TIMEOUT_MS_def)

lemma call_time_ge: "d \<le> call_time d j" "poll_time d j \<le> call_time d j"
  by (simp_all add: call_time_value) (simp add: call_time_def flip: call_time_value)

lemma pn532_exchange_time:
  assumes "prompt_driver drv d j" "pn532_exchange_apdu drv r apdu = (res, r')"
  shows "clock r' \<le> clock r + call_time d j"
proof -
  note poll = takesD [OF takes_poll [OF assms(1)]]
  note exchange = takesD [OF takes_exchange_with_target [OF assms(1)]]
  from assms(2) show ?thesis
  proof (cases rule: pn532_exchange_cases)
    case (active target)
    then show ?thesis using exchange [OF active(2)] by (simp add: call_time_def)
  next
    case (poll_error e)
    then show ?thesis using poll [OF poll_error(1)] by (simp add: call_time_def)
  next
    case (polled r1 presence target)
    then show ?thesis
      using poll [OF polled(2)] exchange [OF polled(4)] by (simp add: call_time_def)
  next
    case (no_card m)
    then show ?thesis using poll [OF no_card(2)] by (simp add: call_time_def)
  qed simp
qed

lemma takes_power_off:
  "prompt_driver drv d j \<Longrightarrow> takes clock d (pn532_power_off drv)"
  unfolding pn532_power_off_def by (rule takes_after [OF takes_set_rf_field]) (simp_all add: clock_def)

subsection \<open>Commands and URBs\<close>

primrec backend_clock :: "'p backend \<Rightarrow> nat" where
  "backend_clock (Pn532 r) = clock r"
| "backend_clock (Dummy d) = 0"

lemma backend_ops_dummy:
  "poll_card (backend_ops drv) (Dummy d) = (res, r') \<Longrightarrow> backend_clock r' = 0"
  "power_off (backend_ops drv) (Dummy d) = (pres, r') \<Longrightarrow> backend_clock r' = 0"
  "exchange_apdu (backend_ops drv) (Dummy d) a = (eres, r') \<Longrightarrow> backend_clock r' = 0"
  by (auto simp: backend_ops_def boxed_iff)

lemma backend_ops_pn532:
  "poll_card (backend_ops drv) (Pn532 r) = boxed Pn532 (pn532_poll_card drv r)"
  "power_off (backend_ops drv) (Pn532 r) = boxed Pn532 (pn532_power_off drv r)"
  "exchange_apdu (backend_ops drv) (Pn532 r) a = boxed Pn532 (pn532_exchange_apdu drv r a)"
  by (simp_all add: backend_ops_def)

lemma reader_call_time:
  assumes "prompt_driver drv d j" "reader_call (backend_ops drv) r r'"
  shows "backend_clock r' \<le> backend_clock r + call_time d j"
proof (cases r)
  case (Pn532 p)
  show ?thesis
    using assms(2) call_time_ge [of d j] takesD [OF takes_poll [OF assms(1)], of p]
      takesD [OF takes_power_off [OF assms(1)], of p] pn532_exchange_time [OF assms(1), of p]
    unfolding reader_call_def Pn532 backend_ops_pn532 boxed_iff
    by (fastforce intro: order_trans)
next
  case (Dummy e)
  then show ?thesis
    using assms(2) by (auto simp: reader_call_def dest: backend_ops_dummy)
qed

text \<open>In a bridge that keeps its invariant a command calls the reader at most once.\<close>

lemma handle_command_one_call:
  assumes "bridge_inv b" "handle_command rd c b = (resp, b')"
  shows "reader_call rd (reader b) (reader b')"
proof (cases c)
  case (XfrBlock slot seq bwi level payload)
  show ?thesis
  proof (cases "current_icc_status b = Active")
    case True
    then show ?thesis
      using assms XfrBlock xfr_active_exchanges [OF assms(1)]
      by (auto simp: exchange_powered_def intro: reader_call_intros split: result_splits option.splits)
  next
    case False
    then show ?thesis
      using assms(2) XfrBlock xfr_blocked_unless_active [OF assms(1) False]
        reader_call_intros(1) [OF prod.collapse [symmetric]]
      by fastforce
  qed
next
  case (GetSlotStatus slot seq)
  with assms(2) show ?thesis
    by (auto simp: handle_get_slot_status_def Let_def split: result_splits dest!: refresh_calls)
qed (use assms(2) in \<open>auto simp: handle_power_on_def handle_power_off_def handle_reset_parameters_def
      handle_set_parameters_def Let_def split: result_splits intro: reader_call_intros\<close>)

abbreviation transport_clock :: "'p backend transport \<Rightarrow> nat" where
  "transport_clock t \<equiv> backend_clock (reader (bridge t))"

lemma command_time:
  assumes "prompt_driver drv d j" "bridge_inv b" "handle_command (backend_ops drv) c b = (resp, b')"
  shows "backend_clock (reader b') \<le> backend_clock (reader b) + call_time d j"
  using reader_call_time [OF assms(1)] handle_command_one_call [OF assms(2,3)] by blast

lemma finish_abort_bridge: "bridge (snd (finish_abort rd slot seq t)) = bridge t"
  by (cases t) (simp add: finish_abort_def Let_def)

lemma process_command_time:
  assumes "prompt_driver drv d j" "transport_inv t"
    and "process_command (backend_ops drv) c t = (res, t')"
  shows "transport_clock t' \<le> transport_clock t + call_time d j"
proof (cases "control_abort t")
  case (Some p)
  then show ?thesis
    using assms(3) finish_abort_bridge [of "backend_ops drv" "fst p" "snd p" t]
    by (auto simp: process_command_def queue_aborted_response_def Let_def
        split: prod.splits if_splits)
next
  case None
  obtain resp b where h: "handle_command (backend_ops drv) c (bridge t) = (resp, b)"
    by (cases "handle_command (backend_ops drv) c (bridge t)")
  have "bridge_inv (bridge t)"
    using assms(2) by (simp add: transport_inv_defs)
  from command_time [OF assms(1) this h] show ?thesis
    using None h assms(3)
    by (cases c) (auto simp: process_command_def Let_def simp del: handle_command.simps
        split: if_splits option.splits)
qed

lemma process_frame_time:
  assumes "prompt_driver drv d j" "transport_inv t"
    and "process_frame (backend_ops drv) frame t = (res, t')"
  shows "transport_clock t' \<le> transport_clock t + call_time d j"
  using process_command_time [OF assms(1,2)] assms(3)
  by (fastforce simp: process_frame_def split: sum.splits)

lemma try_take_bridge: "try_take_complete_frame t = (res, t') \<Longrightarrow> bridge t' = bridge t"
  by (auto simp: try_take_complete_frame_def Let_def split: if_splits option.splits)

text \<open>The number of frames that a buffer holds completely before one that is partial or too long.\<close>

function complete_frames :: "byte list \<Rightarrow> nat" where
  "complete_frames buf =
     (if frame_complete buf \<and> \<not> frame_oversize buf
      then Suc (complete_frames (drop (10 + frame_payload_len buf) buf)) else 0)"
  by auto
termination
  by (relation "measure length") (auto simp: frame_complete_def)

declare complete_frames.simps [simp del]

lemma complete_frames_empty: "complete_frames [] = 0"
  by (simp add: complete_frames.simps [of "[]"] frame_complete_def)

lemma complete_frames_le: "complete_frames buf \<le> length buf div 10"
proof (induction buf rule: complete_frames.induct)
  case (1 buf)
  show ?case
  proof (cases "frame_complete buf \<and> \<not> frame_oversize buf")
    case True
    let ?rest = "drop (10 + frame_payload_len buf) buf"
    have "length ?rest + 10 \<le> length buf"
      using True by (simp add: frame_complete_def)
    then have "length ?rest div 10 + 1 \<le> length buf div 10"
      by simp
    moreover have "complete_frames buf = Suc (complete_frames ?rest)"
      using True complete_frames.simps [of buf] by simp
    ultimately show ?thesis
      using 1 True by simp
  qed (auto simp: complete_frames.simps [of buf])
qed

lemma process_frames_time:
  assumes "prompt_driver drv d j"
  shows "transport_inv t \<Longrightarrow> process_frames (backend_ops drv) t = (res, t') \<Longrightarrow>
    transport_clock t' \<le> transport_clock t + complete_frames (pending_out_buffer t) * call_time d j"
proof (induction "length (pending_out_buffer t)" arbitrary: t rule: less_induct)
  case less
  let ?T = "call_time d j" and ?buf = "pending_out_buffer t"
  obtain r t1 where take: "try_take_complete_frame t = (r, t1)" by fastforce
  have inv1: "transport_inv t1" and same: "bridge t1 = bridge t"
    using try_take_inv [OF less.prems(1) take] try_take_bridge [OF take] .
  note framing = framing_invD [OF less.prems(1)]
  show ?case
  proof (cases "frame_complete ?buf \<and> \<not> frame_oversize ?buf")
    case False
    then have "\<nexists>frame. r = Ok (Some frame)"
      using take try_take_short [of t] try_take_oversize [OF framing] try_take_incomplete [OF framing]
      by (cases rule: take_cases [of ?buf]) auto
    then show ?thesis
      using less.prems(2) take same
      by (subst (asm) process_frames.simps) (auto split: sum.splits option.splits)
  next
    case True
    let ?rest = "drop (10 + frame_payload_len ?buf) ?buf"
    obtain frame where r: "r = Ok (Some frame)" and rest: "pending_out_buffer t1 = ?rest"
      using take try_take_complete [OF framing] True by auto
    have count: "complete_frames ?buf = Suc (complete_frames ?rest)"
      using True complete_frames.simps [of ?buf] by simp
    obtain r2 t2 where step: "process_frame (backend_ops drv) frame t1 = (r2, t2)" by fastforce
    note time = process_frame_time [OF assms inv1 step]
    note unfold = less.prems(2) [unfolded process_frames.simps [of _ t] take r, simplified, unfolded step]
    show ?thesis
    proof (cases r2)
      case (Inl e)
      then have "transport_clock t' \<le> transport_clock t + ?T"
        using unfold time same by simp
      then show ?thesis by (simp add: count)
    next
      case (Inr u)
      have "complete_frames (pending_out_buffer t2) \<le> complete_frames ?rest"
        using process_frame_buffer_eq [OF step] rest by (auto simp: complete_frames_empty)
      then have "complete_frames (pending_out_buffer t2) * ?T \<le> complete_frames ?rest * ?T"
        by (rule mult_le_mono1)
      moreover have "length (pending_out_buffer t2) < length ?buf"
        using process_frame_buffer [OF step [unfolded Inr]] try_take_buffer [OF take [unfolded r]] by simp
      then have "transport_clock t' \<le> transport_clock t2 + complete_frames (pending_out_buffer t2) * ?T"
        using less.hyps [of t2] transport_inv_process_frame [OF inv1 step] unfold Inr by simp
      moreover have "transport_clock t2 \<le> transport_clock t + ?T"
        using time same by simp
      ultimately show ?thesis
        unfolding count mult_Suc by linarith
    qed
  qed
qed

lemma bulk_out_time:
  assumes "prompt_driver drv d j" "transport_inv t"
    and "handle_bulk_out (backend_ops drv) payload t = (res, t')"
  shows "transport_clock t' \<le> transport_clock t
    + complete_frames (pending_out_buffer t @ payload) * call_time d j"
proof -
  let ?u = "update_state (t\<lparr>pending_out_buffer := pending_out_buffer t @ payload\<rparr>)"
  have "transport_inv ?u"
    using assms(2) framing_inv_append [of t payload]
    by (intro transport_inv_update_state) (simp add: transport_inv_def core_inv_def queues_inv_def abort_inv_def)
  from process_frames_time [OF assms(1) this] show ?thesis
    using assms(3) by (simp add: handle_bulk_out_def)
qed

lemma interrupt_in_time:
  assumes "prompt_driver drv d j"
  shows "transport_clock (snd (handle_interrupt_in (backend_ops drv) t)) \<le> transport_clock t + call_time d j"
proof (cases "poisoned t")
  case False
  obtain res b where r: "refresh_card_presence (backend_ops drv) (bridge t) = (res, b)"
    by (cases "refresh_card_presence (backend_ops drv) (bridge t)")
  have "backend_clock (reader b) \<le> transport_clock t + call_time d j"
    using reader_call_time [OF assms] refresh_calls [OF r] by blast
  then show ?thesis
    using False r by (auto simp: handle_interrupt_in_def Let_def split: sum.splits)
qed (simp add: handle_interrupt_in_def)

lemma control_request_bridge:
  "handle_control_request rd rt rq v t = (res, t') \<Longrightarrow> bridge t' = bridge t"
  by (auto simp: handle_control_request_def expect_abort_def finish_abort_bridge Let_def split: if_splits)

lemma recorded_prompt: "prompt_driver recorded_driver 1 0"
  by (simp add: prompt_driver_def recorded_driver_def)

text \<open>C11: No URB keeps the virtual device busy for long. If a call of the driver takes at most \<open>d\<close> and a
  sleep overruns by at most \<open>j\<close>, a URB takes at most 11.02 seconds, 17 calls and 4 overruns for each
  frame that is complete with its bytes, at most once that when it polls for a notification, and none
  when it is for any other endpoint; so a host that waits this long for every command it has sent has
  an answer, even when the card or the PN532 has gone.\<close>

theorem urb_time_bounded:
  assumes "prompt_driver drv d j" "transport_inv (handler_transport h)"
    and "interface_handle_urb usb (backend_ops drv) ep len packet req h = (res, h')"
  shows "transport_clock (handler_transport h') \<le> transport_clock (handler_transport h)
    + (if ep_address ep = CCID_BULK_OUT_ENDPOINT
       then complete_frames (pending_out_buffer (handler_transport h) @ req)
       else if ep_address ep = CCID_INTERRUPT_IN_ENDPOINT then 1 else 0)
      * (from_millis 11020 + 4 * j + 17 * d)"
proof -
  let ?t = "handler_transport h"
  note bulk = bulk_out_time [OF assms(1,2), of req]
  show ?thesis
    using assms(3) interrupt_in_time [OF assms(1), of ?t] handle_bulk_in_path [of "unat len" ?t]
    by (cases "handle_bulk_out (backend_ops drv) req ?t")
      (auto simp: interface_handle_urb_def interface_bulk_out_def interface_bulk_in_def endpoint_defs
        interface_interrupt_in_def Let_def try_then_def call_time_value dest: control_request_bridge bulk
        split: prod.splits sum.splits if_splits)
qed

theorem urb_time_bounded_witness:
  "let h = \<lparr>handler_transport = new_transport (new_bridge (backend_ops recorded_driver) (Pn532 (attached_reader [])))\<rparr>
   in transport_clock (handler_transport (snd (interface_handle_urb standard_usb (backend_ops recorded_driver)
        (endpoints standard_usb ! 0) 10 \<lparr>setup_request_type = 0, setup_request = 0, setup_value = 0, setup_index = 0, setup_length = 0\<rparr> (encode_command (IccPowerOn 0 1 0)) h)))
      \<le> 5000000000 + 11020000017"
proof -
  let ?h = "\<lparr>handler_transport = new_transport
    (new_bridge (backend_ops recorded_driver) (Pn532 (attached_reader [])))\<rparr>"
  have inv: "transport_inv (handler_transport ?h)"
    by (simp add: transport_inv_new bridge_inv_new)
  have "complete_frames (encode_command (IccPowerOn 0 1 0)) \<le> 1"
    using complete_frames_le [of "encode_command (IccPowerOn 0 1 0)"] by simp
  then have "complete_frames (encode_command (IccPowerOn 0 1 0)) * 11020000017 \<le> 11020000017"
    by simp
  then show ?thesis
    using urb_time_bounded [OF recorded_prompt inv prod.collapse [symmetric], of standard_usb
        "endpoints standard_usb ! 0" 10 "\<lparr>setup_request_type = 0, setup_request = 0, setup_value = 0, setup_index = 0, setup_length = 0\<rparr>" "encode_command (IccPowerOn 0 1 0)"]
    by (simp add: Let_def from_millis_def attached_reader_def clock_def new_transport_def new_bridge_def
        endpoints_def endpoint_defs del: encode_command.simps)
qed

end
