(* ===== verification/Pn532_Session.thy ===== *)
theory Pn532_Session
  imports Usb_Host Application
begin

text \<open>
  A session of the host with a card on the PN532, through the whole program. The device is a script
  of requests it expects and payloads it answers (\<open>scripted_device\<close>); the session of URBs that powers
  the card on and sends APDUs gets back the ATR of the card that the device lists and the answers
  of the script. The first part shows that every answer of the PN532 reader fits a CCID response,
  whatever the device sends.
\<close>

subsection \<open>Every answer fits\<close>

definition yields :: "('a \<Rightarrow> bool) \<Rightarrow> ('s \<Rightarrow> ('a, 'e) result \<times> 's) \<Rightarrow> bool" where
  "yields Q f \<longleftrightarrow> (\<forall>s a s'. f s = (Ok a, s') \<longrightarrow> Q a)"

lemma yields_try: "(\<And>a. yields Q (g a)) \<Longrightarrow> yields Q (\<lambda>s. try_then (f s) g)"
  by (fastforce simp: yields_def elim: try_then_cases)

lemma yields_if: "yields Q f \<Longrightarrow> yields Q g \<Longrightarrow> yields Q (\<lambda>s. if b then f s else g s)"
  by (simp add: yields_def)

lemma yields_err: "yields Q (\<lambda>s. (Err e, s))"
  by (simp add: yields_def)

lemma read_buffer_length: "read_buffer rd n p = (Ok bs, p') \<Longrightarrow> length bs = n"
  by (auto simp: read_buffer_def fill_buffer_def split: prod.splits sum.splits)

lemma frame_len_bound: "receive_frame_len rd hdr p = (Ok n, p') \<Longrightarrow> n \<le> 65535"
proof -
  have "unat (w :: u16) \<le> 65535" for w
    using unsigned_less [of w, where ?'a = nat] by simp
  moreover have "unat (b :: byte) \<le> 65535" for b
    using unat_byte_le [of b] by linarith
  ultimately show "receive_frame_len rd hdr p = (Ok n, p') \<Longrightarrow> n \<le> 65535"
    by (auto simp: receive_frame_len_def split: prod.splits sum.splits if_splits)
qed

lemma check_frame_length: "check_frame cmd frame = Ok payload \<Longrightarrow> length payload \<le> length frame - 4"
  by (auto simp: check_frame_def split: if_splits)

lemma receive_length: "yields (\<lambda>payload. length payload \<le> 65533) (receive_dynamic_response_from rd cmd)"
  unfolding yields_def receive_dynamic_response_from_def
  by (fastforce split: prod.splits sum.splits if_splits
      dest: read_buffer_length check_frame_length frame_len_bound)

lemma process_length: "yields (\<lambda>payload. length payload \<le> 65533) (process_dynamic_response drv req ms)"
  unfolding process_dynamic_response_def receive_dynamic_response_def Let_def
  by (intro yields_try yields_if yields_err receive_length)

lemma exchange_with_target_length: "yields (\<lambda>answer. length answer \<le> 65533) (exchange_with_target drv apdu target)"
proof -
  have "yields (\<lambda>answer. length answer \<le> 65533) (\<lambda>r. try_then (map_err g
      (on_wire (process_dynamic_response drv req ms) r)) (handle_exchange_response drv))" for g req ms
    unfolding yields_def
  proof (intro allI impI)
    fix r a r'
    assume "try_then (map_err g (on_wire (process_dynamic_response drv req ms) r))
        (handle_exchange_response drv) = (Ok a, r')"
    then show "length a \<le> 65533"
    proof (cases rule: try_then_cases)
      case (ok response r1)
      from ok(1) obtain w where "process_dynamic_response drv req ms (wire r) = (Ok response, w)"
        by (cases rule: map_err_cases) (auto simp: on_wire_def split: prod.splits)
      then have "length response \<le> 65533"
        using process_length unfolding yields_def by blast
      then show ?thesis
        using ok(2) by (auto simp: handle_exchange_response_def split: if_splits)
    qed simp
  qed
  then show ?thesis by (simp add: exchange_with_target_def [abs_def])
qed

lemma history_length: "ats_historical_bytes ats = Ok hist \<Longrightarrow> length hist \<le> length ats"
  by (auto simp: ats_historical_bytes_def Let_def split: if_splits)

lemma parsed_history_length:
  assumes "parse_target_response response = Ok (target, c)"
  shows "length (historical_bytes c) \<le> 255"
proof -
  consider "historical_bytes c = []"
    | n ats where "ats_historical_bytes (take (unat (n :: byte)) ats) = Ok (historical_bytes c)"
    using assms by (auto simp: parse_target_response_def Let_def split: if_splits sum.splits)
  then show ?thesis
  proof cases
    case (2 n ats)
    have "length (historical_bytes c) \<le> unat n"
      using history_length [OF 2] by simp
    then show ?thesis
      using unat_byte_le le_trans by blast
  qed simp
qed

definition card_fits :: "'p pn532_uart_reader \<Rightarrow> bool" where
  "card_fits r \<longleftrightarrow> (\<forall>c. cached_card r = Some c \<longrightarrow> length (historical_bytes c) \<le> 255)"

lemma poll_card_fits:
  assumes "pn532_poll_card drv r = (res, r')" "card_fits r"
  shows "card_fits r' \<and> (\<forall>c. res = Ok (Some c) \<longrightarrow> length (historical_bytes c) \<le> 255)"
  using assms(1) [unfolded pn532_poll_card_def]
proof (cases rule: poll_now_cases)
  case (field e)
  then show ?thesis using set_rf_field_target [OF field(1)] assms(2) by (simp add: card_fits_def)
next
  case (device r1 w e)
  then show ?thesis using set_rf_field_target [OF device(1)] assms(2) by (simp add: card_fits_def)
next
  case (answered r1 w response)
  from answered(3) show ?thesis
  proof (cases rule: handle_poll_response_cases)
    case absent
    then show ?thesis using set_rf_field_target [OF absent(1)] by (simp add: card_fits_def)
  next
    case (absent_error e)
    then show ?thesis using set_rf_field_target [OF absent_error(1)] by (simp add: card_fits_def)
  next
    case (malformed e)
    then show ?thesis using set_rf_field_target [OF answered(1)] assms(2) by (simp add: card_fits_def)
  next
    case (found target presence)
    then show ?thesis
      using parsed_history_length by (auto simp: card_fits_def)
  qed
qed (use assms(2) in \<open>simp add: card_fits_def\<close>)

lemma exchange_with_target_card_fits:
  assumes "exchange_with_target drv apdu target r = (res, r')" "card_fits r"
  shows "card_fits r'"
  using assms(1)
proof (cases rule: exchange_with_target_cases)
  case (answered w response)
  have "cached_card (snd (deactivate_target drv r1)) = None" for r1
    by (cases "deactivate_target drv r1") (auto simp: deactivate_target_def dest: set_rf_field_target)
  then show ?thesis
    using answered(2) assms(2) by (auto simp: handle_exchange_response_def card_fits_def split: if_splits)
qed (use assms(2) in \<open>simp add: card_fits_def\<close>)

lemma exchange_card_fits:
  assumes "pn532_exchange_apdu drv r apdu = (res, r')" "card_fits r"
  shows "card_fits r' \<and> (\<forall>a. res = Ok a \<longrightarrow> length a \<le> 65533)"
  using assms(1)
proof (cases rule: pn532_exchange_cases)
  case (active target)
  then show ?thesis
    using exchange_with_target_card_fits [OF active(2) assms(2)] exchange_with_target_length
    unfolding yields_def by blast
next
  case (polled r1 presence target)
  then show ?thesis
    using exchange_with_target_card_fits [OF polled(4)] poll_card_fits [OF polled(2) assms(2)]
      exchange_with_target_length unfolding yields_def by blast
qed (use assms(2) in \<open>auto dest: poll_card_fits\<close>)

lemma power_off_card_fits: "pn532_power_off drv r = (res, r') \<Longrightarrow> card_fits r \<Longrightarrow> card_fits r'"
  by (auto simp: pn532_power_off_def card_fits_def dest: set_rf_field_target)

lemma pn532_answers_fit: "answers_fit (backend_ops drv) (\<lambda>r. \<exists>p. r = Pn532 p \<and> card_fits p)"
  unfolding answers_fit_def reader_call_def
  by (auto simp: backend_ops_def boxed_iff dest!: poll_card_fits exchange_card_fits power_off_card_fits)

subsection \<open>A device that follows a script\<close>

text \<open>The frame in which the PN532 sends a payload: a normal frame if it fits, else an extended one.\<close>

definition pn532_frame :: "byte \<Rightarrow> byte list \<Rightarrow> byte list" where
  "pn532_frame cmd payload =
     (if length payload \<le> 253 then normal_frame cmd payload else extended_frame cmd payload)"

lemma receive_pn532_frame:
  "length payload \<le> 65533 \<Longrightarrow>
     receive_dynamic_response_from slice_read cmd (pn532_frame cmd payload) = (Ok payload, [])"
  using receive_normal_frame [of payload cmd "[]"] receive_extended_frame [of payload cmd "[]"]
  by (simp add: pn532_frame_def)

text \<open>
  \<open>script p\<close> is what the device still expects and answers in the state \<open>p\<close>, and \<open>content p\<close> the bytes on
  the line. Reading takes bytes from the line and leaves the script; configuring the RF field
  succeeds; and when the line is empty the next request of the script is accepted, acknowledged and
  answered with one frame.
\<close>

type_synonym exchange_script = "(request \<times> byte list) list"

definition scripted_device ::
    "'p pn532_driver \<Rightarrow> ('p \<Rightarrow> byte list) \<Rightarrow> ('p \<Rightarrow> exchange_script) \<Rightarrow> bool" where
  "scripted_device drv content script \<longleftrightarrow>
     stream_port drv content
   \<and> (\<forall>n p. script (snd (snd (read_exact drv n p))) = script p)
   \<and> (\<forall>data n ms p. \<exists>bs d p'.
        drv_process drv \<lparr>req_command = cmd_rf_configuration drv, req_data = data\<rparr> n ms p = (Ok bs, d, p')
      \<and> content p' = content p \<and> script p' = script p)
   \<and> (\<forall>req payload rest p. content p = [] \<and> script p = (req, payload) # rest \<longrightarrow>
        (\<exists>d1 p1 n1 d2 p2 d3 p3 n2 d4 p4.
           drv_send drv req p = (Ok (), d1, p1) \<and> bytes_to_read drv p1 = (Ok n1, d2, p2) \<and> 0 < n1
         \<and> drv_receive_ack drv p2 = (Ok (), d3, p3) \<and> bytes_to_read drv p3 = (Ok n2, d4, p4) \<and> 0 < n2
         \<and> content p4 = pn532_frame (req_command req + 1) payload \<and> script p4 = rest))"

text \<open>The line is empty and the script is at \<open>xs\<close>.\<close>

definition script_at :: "('p \<Rightarrow> byte list) \<Rightarrow> ('p \<Rightarrow> exchange_script) \<Rightarrow> exchange_script \<Rightarrow> 'p wire \<Rightarrow> bool" where
  "script_at content script xs w \<longleftrightarrow> content (snd w) = [] \<and> script (snd w) = xs"

lemma read_buffer_keeps:
  "(\<And>n p. Q (snd (rd n p)) = Q p) \<Longrightarrow> read_buffer rd n p = (res, p') \<Longrightarrow> Q p' = Q p"
  by (auto simp: read_buffer_def split: prod.splits sum.splits) (metis snd_conv)+

lemma frame_len_keeps:
  assumes "\<And>n p. Q (snd (rd n p)) = Q p" "receive_frame_len rd hdr p = (res, p')"
  shows "Q p' = Q p"
  using assms(2) read_buffer_keeps [of Q rd, OF assms(1)]
  by (auto simp: receive_frame_len_def split: prod.splits sum.splits if_splits)

lemma receive_keeps:
  assumes keeps: "\<And>n p. Q (snd (rd n p)) = Q p"
    and step: "receive_dynamic_response_from rd cmd p = (res, p')"
  shows "Q p' = Q p"
  using step read_buffer_keeps [of Q rd, OF keeps] frame_len_keeps [of Q rd, OF keeps]
  by (auto simp: receive_dynamic_response_from_def split: prod.splits sum.splits if_splits)

lemma process_scripted:
  assumes dev: "scripted_device drv content script"
    and at: "script_at content script ((req, payload) # rest) w" and fits: "length payload \<le> 65533" "0 < ms"
  obtains w' where "process_dynamic_response drv req ms w = (Ok payload, w')" "script_at content script rest w'"
proof -
  have line: "stream_port drv content"
    and keeps: "\<And>n w. script (snd (snd (timed (read_exact drv n) w))) = script (snd w)"
    using dev by (auto simp: scripted_device_def timed_def Let_def split: prod.split) (metis snd_conv)
  obtain d1 p1 n1 d2 p2 d3 p3 n2 d4 p4 where a:
    "drv_send drv req (snd w) = (Ok (), d1, p1)" "bytes_to_read drv p1 = (Ok n1, d2, p2)" "0 < n1"
    "drv_receive_ack drv p2 = (Ok (), d3, p3)" "bytes_to_read drv p3 = (Ok n2, d4, p4)" "0 < n2"
    "content p4 = pn532_frame (req_command req + 1) payload" "script p4 = rest"
    using dev at unfolding scripted_device_def script_at_def by blast
  let ?w4 = "(fst w + d1 + d2 + d3 + d4, p4)"
  obtain w' where w': "receive_dynamic_response drv (req_command req + 1) ?w4 = (Ok payload, w')"
      "content (snd w') = []"
    using stream_receive [OF line, of "req_command req + 1" ?w4 payload "[]"] a(7)
      receive_pn532_frame [OF fits(1), of "req_command req + 1"] by auto
  have "script (snd w') = script (snd ?w4)"
    using receive_keeps [of "\<lambda>w. script (snd w)" "\<lambda>n. timed (read_exact drv n)", OF keeps] w'(1)
    unfolding receive_dynamic_response_def by blast
  moreover have "process_dynamic_response drv req ms w = (Ok payload, w')"
    using a w'(1) fits(2)
    by (simp add: process_dynamic_response_def Let_def timed_def wait_ready_at_once)
  ultimately show ?thesis
    using that w'(2) a(8) by (simp add: script_at_def)
qed

lemma set_rf_field_scripted:
  assumes "scripted_device drv content script" "script_at content script xs (wire r)"
  obtains w where "set_rf_field drv enabled r = (Ok (), r\<lparr>wire := w, rf_field_enabled := enabled\<rparr>)"
    "script_at content script xs w"
proof (cases "rf_field_enabled r = enabled")
  case True
  then show ?thesis
    using that [of "wire r"] assms(2) by (simp add: set_rf_field_def)
next
  case False
  let ?req = "\<lparr>req_command = cmd_rf_configuration drv,
    req_data = (if enabled then RF_FIELD_ON else RF_FIELD_OFF)\<rparr>"
  obtain bs d p' where step: "drv_process drv ?req 0 PN532_INIT_TIMEOUT_MS (snd (wire r)) = (Ok bs, d, p')"
      "content p' = content (snd (wire r))" "script p' = script (snd (wire r))"
    using assms(1) unfolding scripted_device_def by blast
  show ?thesis
    by (rule that [of "(fst (wire r) + d, p')"])
      (use False step assms(2) in \<open>simp_all add: set_rf_field_def on_wire_def timed_def script_at_def\<close>)
qed

subsection \<open>Power-on and APDUs\<close>

lemma poll_scripted:
  assumes "scripted_device drv content script" "\<not> recently_polled (read_clock drv r)"
    and "script_at content script ((inlist_one_iso_a_target drv, response) # rest) (wire r)"
    and "lists_target response target c" "length response \<le> 65533"
  obtains r' where "pn532_poll_card drv r = (Ok (Some c), r')" "active_target r' = Some target"
    "script_at content script rest (wire r')"
proof -
  let ?r = "read_clock drv r"
  have "script_at content script ((inlist_one_iso_a_target drv, response) # rest) (wire ?r)"
    using assms(3) by simp
  then obtain w where rf: "set_rf_field drv True ?r = (Ok (), ?r\<lparr>wire := w, rf_field_enabled := True\<rparr>)"
    and w: "script_at content script ((inlist_one_iso_a_target drv, response) # rest) w"
    using set_rf_field_scripted [OF assms(1)] by metis
  obtain w' where w': "process_dynamic_response drv (inlist_one_iso_a_target drv) PN532_POLL_TIMEOUT_MS w
      = (Ok response, w')" "script_at content script rest w'"
    by (rule process_scripted [OF assms(1) w assms(5), of PN532_POLL_TIMEOUT_MS])
      (simp_all add: PN532_POLL_TIMEOUT_MS_def)
  have found: "handle_poll_response drv response q =
      (Ok (Some c), q\<lparr>active_target := Some target, cached_card := Some c\<rparr>)" for q
    using assms(4) by (simp add: poll_response_iff)
  then have "pn532_poll_card drv r = (Ok (Some c), ?r\<lparr>rf_field_enabled := True,
      last_poll := Some (clock_now ?r), wire := w', active_target := Some target, cached_card := Some c\<rparr>)"
    using assms(2) rf w'(1)
    by (simp add: pn532_poll_card_def poll_card_now_def can_return_cached_presence_def Let_def on_wire_def)
  then show ?thesis
    using that w'(2) by simp
qed

lemma exchange_scripted:
  assumes "scripted_device drv content script" "active_target r = Some target"
    and "script_at content script ((\<lparr>req_command = cmd_in_data_exchange drv, req_data = target # apdu\<rparr>,
          0x00 # answer) # rest) (wire r)"
    and "length apdu \<le> 310" "length answer \<le> 65532"
  obtains r' where "pn532_exchange_apdu drv r apdu = (Ok answer, r')" "active_target r' = Some target"
    "script_at content script rest (wire r')"
proof -
  obtain w' where "process_dynamic_response drv
      \<lparr>req_command = cmd_in_data_exchange drv, req_data = target # apdu\<rparr> PN532_APDU_TIMEOUT_MS (wire r)
      = (Ok (0x00 # answer), w')" "script_at content script rest w'"
    by (rule process_scripted [OF assms(1,3), of PN532_APDU_TIMEOUT_MS])
      (use assms(5) in \<open>simp_all add: PN532_APDU_TIMEOUT_MS_def\<close>)
  then show ?thesis
    using that [of "r\<lparr>wire := w'\<rparr>"] assms(2,4)
    by (simp add: pn532_exchange_apdu_def PN532_BUFFER_SIZE_def exchange_with_target_def on_wire_def
        handle_exchange_response_def exchange_status_keeps_target_active_def)
qed

text \<open>An APDU of the session: its sequence number, the APDU and the answer of the card.\<close>

type_synonym apdu_exchange = "byte \<times> byte list \<times> byte list"

definition apdu_command :: "apdu_exchange \<Rightarrow> ccid_command" where
  "apdu_command x = xfr_command (fst x, fst (snd x))"

definition apdu_answer :: "apdu_exchange \<Rightarrow> ccid_response" where
  "apdu_answer x = data_answer (fst x) (snd (snd x))"

definition apdu_step :: "'p pn532_driver \<Rightarrow> byte \<Rightarrow> apdu_exchange \<Rightarrow> request \<times> byte list" where
  "apdu_step drv target x =
     (\<lparr>req_command = cmd_in_data_exchange drv,
       req_data = target # normalize_apdu_for_exchange (fst (snd x))\<rparr>, 0x00 # snd (snd x))"

definition apdu_sized :: "apdu_exchange \<Rightarrow> bool" where
  "apdu_sized x \<longleftrightarrow> length (fst (snd x)) \<le> 310 \<and> length (snd (snd x)) \<le> 65532"

lemma pn532_bridge_session:
  assumes "scripted_device drv content script"
  shows "bridge_inv b \<Longrightarrow> current_icc_status b = Active \<Longrightarrow> reader b = Pn532 r \<Longrightarrow>
    active_target r = Some target \<Longrightarrow> script_at content script (map (apdu_step drv target) xs) (wire r) \<Longrightarrow>
    list_all apdu_sized xs \<Longrightarrow> list_all (\<lambda>x. \<not> aid_overruns (fst (snd x))) xs \<Longrightarrow>
    fst (bridge_session (backend_ops drv) (map apdu_command xs) b) = map apdu_answer xs"
proof (induction xs arbitrary: b r)
  case (Cons x xs)
  obtain r' where r': "pn532_exchange_apdu drv r (normalize_apdu_for_exchange (fst (snd x))) = (Ok (snd (snd x)), r')"
    "active_target r' = Some target" "script_at content script (map (apdu_step drv target) xs) (wire r')"
    by (rule exchange_scripted [OF assms Cons.prems(4), of "normalize_apdu_for_exchange (fst (snd x))"
        "snd (snd x)" "map (apdu_step drv target) xs"])
      (use Cons.prems(5,6) in \<open>simp_all add: apdu_step_def [of _ _ x] apdu_sized_def\<close>)
  let ?b = "b\<lparr>reader := Pn532 r'\<rparr>"
  obtain aid where select: "select_aid (fst (snd x)) = Some aid"
    using select_aid_returns [of "fst (snd x)"] Cons.prems(7) by auto
  have h: "handle_command (backend_ops drv) (apdu_command x) b = (Some (apdu_answer x), ?b)"
    using select xfr_active_exchanges [OF Cons.prems(1,2)] Cons.prems(3) r'(1)
    by (simp add: apdu_command_def xfr_command_def apdu_answer_def data_answer_def exchange_powered_def
        backend_ops_def boxed_def)
  have "bridge_inv ?b" "current_icc_status ?b = Active"
    using Cons.prems by (auto simp: bridge_inv_def current_icc_status_def split: if_splits)
  then show ?case
    using Cons.IH [of ?b r'] Cons.prems(6,7) r'(2,3) by (auto simp: h split: prod.split)
qed simp

lemma daemon_main_pn532:
  assumes "cli_backend c = Pn532UartBackend" "\<not> list_all white_space (cli_serial_port c)"
    and "pn532_open drv \<lparr>cfg_port = cli_serial_port c, cfg_baud_rate = cli_serial_baud_rate c\<rparr> = Ok r"
  shows "daemon_main drv usb serve c = Ok (serve (cli_listen_addr c)
    [build_virtual_ccid_device usb (new_bridge (backend_ops drv) (Pn532 r))])"
  using assms
  by (simp add: start_up_defs app_config_try_from_def trim_empty_iff pn532_uart_factory_def map_ok_def)

lemma pn532_open_fresh:
  "pn532_open drv cfg = Ok r \<Longrightarrow> active_target r = None \<and> cached_card r = None \<and> last_poll r = None"
  by (auto simp: pn532_open_def try_then_def Let_def split: if_splits sum.splits prod.splits)

text \<open>C2: A host talks to a card on the PN532 through the whole program. When the device opens and then
  follows its script, which lists a target with the card and answers each APDU of at most 310 bytes
  with status zero, and none of the APDUs is a SELECT whose length byte overruns its data, start-up serves one device; on it a session of URBs that powers the card on and
  sends the APDUs reads the ATR made from the historical bytes of the listed card and then, for each
  APDU, a successful data block with its sequence number and exactly the answer of the card. On the
  serial line the requests are those of the script, in this order.\<close>

theorem pn532_card_end_to_end:
  fixes drv :: "'p pn532_driver" and c :: "'a cli"
  assumes "usb_standard usb" "0 < n" "scripted_device drv content script"
    and "cli_backend c = Pn532UartBackend" "\<not> list_all white_space (cli_serial_port c)"
    and "pn532_open drv \<lparr>cfg_port = cli_serial_port c, cfg_baud_rate = cli_serial_baud_rate c\<rparr> = Ok r"
    and "script_at content script
           ((inlist_one_iso_a_target drv, response) # map (apdu_step drv target) xs) (wire r)"
    and "lists_target response target crd" "length response \<le> 65533"
    and "list_all apdu_sized xs" "list_all (\<lambda>x. \<not> aid_overruns (fst (snd x))) xs"
  shows "\<exists>d h. (\<forall>serve :: 'a \<Rightarrow> 'p backend virtual_device list \<Rightarrow> 'w.
        daemon_main drv usb serve c = Ok (serve (cli_listen_addr c) [d]))
    \<and> urb_session usb (backend_ops drv) n (IccPowerOn 0 seq p # map apdu_command xs) (intf_handler d) =
    Some (map Some (data_answer seq (build_pseudo_atr crd) # map apdu_answer xs), h)"
proof -
  let ?b = "new_bridge (backend_ops drv) (Pn532 r)"
  let ?cs = "IccPowerOn 0 seq p # map apdu_command xs"
  have fresh: "cached_card r = None" "\<not> recently_polled (read_clock drv r)"
    using pn532_open_fresh [OF assms(6)] by (simp_all add: recently_polled_def)
  have sendable: "list_all (\<lambda>c. sendable c \<and> \<not> is_abort c) ?cs"
    using assms(10,11)
    by (auto simp: list_all_iff sendable_iff overruns_select_def is_abort_def apdu_command_def xfr_command_def apdu_sized_def
        CCID_MAX_MESSAGE_LENGTH_def)
  have fits: "\<exists>p. reader (bridge (new_transport ?b)) = Pn532 p \<and> card_fits p"
    by (simp add: new_bridge_def card_fits_def fresh)
  obtain t where session: "urb_session usb (backend_ops drv) n ?cs (intf_handler (build_virtual_ccid_device usb ?b)) =
      Some (map Some (fst (bridge_session (backend_ops drv) ?cs ?b)), \<lparr>handler_transport = t\<rparr>)"
    using urb_session_refines [OF assms(1) pn532_answers_fit assms(2) host_ready_new [OF bridge_inv_new]
        fits sendable] unfolding build_intf_handler new_transport_bridge by blast
  obtain r' where r': "pn532_poll_card drv r = (Ok (Some crd), r')" "active_target r' = Some target"
    "script_at content script (map (apdu_step drv target) xs) (wire r')"
    using poll_scripted [OF assms(3) fresh(2) assms(7-9)] by metis
  let ?b1 = "?b\<lparr>reader := Pn532 r', current_card := Some crd, slot_powered := True\<rparr>"
  have on: "handle_command (backend_ops drv) (IccPowerOn 0 seq p) ?b =
      (Some (data_answer seq (build_pseudo_atr crd)), ?b1)"
    using r'(1) by (simp add: handle_power_on_def new_bridge_def backend_ops_def boxed_def data_answer_def)
  have "current_icc_status ?b1 = Active"
    by (simp add: current_icc_status_def)
  from pn532_bridge_session [OF assms(3) bridge_inv_handle_command [OF bridge_inv_new on] this _ r'(2,3) assms(10,11)]
  have "fst (bridge_session (backend_ops drv) ?cs ?b) =
      data_answer seq (build_pseudo_atr crd) # map apdu_answer xs"
    by (simp only: bridge_session.simps on) (auto split: prod.split)
  with session show ?thesis
    using daemon_main_pn532 [OF assms(4-6)] by (metis (no_types))
qed

text \<open>A driver over a script, for the witness: the state is the line and the script.\<close>

definition script_driver :: "exchange_script \<Rightarrow> (byte list \<times> exchange_script) pn532_driver" where
  "script_driver s0 =
     \<lparr>open_serial = \<lambda>port baud timeout. Ok (0, ([], s0)),
      send_wakeup_message = \<lambda>p. (Ok (), 0, p),
      drv_send = \<lambda>req p. (case snd p of
          [] \<Rightarrow> (Err BadAck, 1, p)
        | x # rest \<Rightarrow>
            if fst x = req then (Ok (), 1, (fst p @ pn532_frame (req_command req + 1) (snd x), rest))
            else (Err BadAck, 1, p)),
      drv_receive_ack = \<lambda>p. (Ok (), 1, p),
      drv_process = \<lambda>req len ms p. (Ok (replicate len 0), 1, p),
      bytes_to_read = \<lambda>p. (Ok (length (fst p)), 1, p),
      read_exact = \<lambda>n p. (fst (slice_read n (fst p)), 1, (snd (slice_read n (fst p)), snd p)),
      oversleep = \<lambda>p. 0, idle = \<lambda>p now. 0,
      sam_configuration = \<lparr>req_command = 0x14, req_data = [0x01, 0x00, 0x00]\<rparr>,
      get_firmware_version = \<lparr>req_command = 0x02, req_data = []\<rparr>,
      inlist_one_iso_a_target = \<lparr>req_command = 0x4a, req_data = [0x01, 0x00]\<rparr>,
      cmd_rf_configuration = 0x32,
      cmd_in_data_exchange = 0x40\<rparr>"

lemma pn532_frame_nonempty: "0 < length (pn532_frame cmd payload)"
  by (simp add: pn532_frame_def normal_frame_def extended_frame_def Let_def)

lemma script_driver_scripted: "scripted_device (script_driver s0) fst snd"
  using pn532_frame_nonempty
  by (auto simp: scripted_device_def stream_port_def script_driver_def slice_read_def)

lemma script_driver_open:
  assumes "port \<noteq> []"
  obtains r where "pn532_open (script_driver s0) \<lparr>cfg_port = port, cfg_baud_rate = baud\<rparr> = Ok r"
    "snd (wire r) = ([], s0)"
  using assms by (simp add: pn532_open_def script_driver_def timed_def)

definition listed_response :: "byte list" where
  "listed_response = [0x01, 0x01, 0x44, 0x00, 0x20, 0x04, 0xde, 0xad, 0xbe, 0xef, 0x04, 0x00, 0x80, 0x73]"

lemma listed_response_lists:
  "lists_target listed_response 0x01
     \<lparr>uid = [0xde, 0xad, 0xbe, 0xef], card_protocol = IsoDep, historical_bytes = [0x80, 0x73]\<rparr>"
  unfolding parse_target_iff [symmetric]
  by (simp add: listed_response_def parse_target_response_def
      ats_historical_bytes_def ATS_T0_TA_PRESENT_def ATS_T0_TB_PRESENT_def ATS_T0_TC_PRESENT_def)

theorem pn532_card_end_to_end_witness:
  "\<exists>drv d h. daemon_main drv standard_usb Pair \<lparr>cli_listen_addr = (13240 :: nat),
       cli_backend = Pn532UartBackend, cli_serial_port = ''/dev/ttyUSB0'', cli_serial_baud_rate = 115200\<rparr>
        = Ok (13240, [d])
   \<and> urb_session standard_usb (backend_ops (drv :: (byte list \<times> exchange_script) pn532_driver)) 64
      [IccPowerOn 0 1 0, XfrBlock 0 2 0 0 [0x00, 0xa4, 0x04, 0x00]] (intf_handler d) =
    Some ([Some (DataBlock 0 1 (status_ok Active) 0 0 [0x3b, 0x82, 0x80, 0x01, 0x80, 0x73, 0xf0]),
      Some (DataBlock 0 2 (status_ok Active) 0 0 [0x90, 0x00])], h)"
proof -
  let ?cli = "\<lparr>cli_listen_addr = (13240 :: nat), cli_backend = Pn532UartBackend,
    cli_serial_port = ''/dev/ttyUSB0'', cli_serial_baud_rate = 115200\<rparr>"
  let ?crd = "\<lparr>uid = [0xde, 0xad, 0xbe, 0xef], card_protocol = IsoDep, historical_bytes = [0x80, 0x73]\<rparr>"
  let ?xs = "[(2, [0x00, 0xa4, 0x04, 0x00], [0x90, 0x00])] :: apdu_exchange list"
  define s0 where "s0 = (inlist_one_iso_a_target (script_driver []), listed_response)
      # map (apdu_step (script_driver []) 0x01) ?xs"
  let ?drv = "script_driver s0"
  have same: "inlist_one_iso_a_target ?drv = inlist_one_iso_a_target (script_driver [])"
    "apdu_step ?drv = apdu_step (script_driver [])"
    by (simp_all add: script_driver_def apdu_step_def [abs_def])
  obtain r where r: "pn532_open ?drv \<lparr>cfg_port = cli_serial_port ?cli,
      cfg_baud_rate = cli_serial_baud_rate ?cli\<rparr> = Ok r" "snd (wire r) = ([], s0)"
    using script_driver_open [of "cli_serial_port ?cli" s0 115200] by auto
  have at: "script_at fst snd ((inlist_one_iso_a_target ?drv, listed_response)
      # map (apdu_step ?drv 0x01) ?xs) (wire r)"
    unfolding same by (simp only: script_at_def r(2) fst_conv snd_conv s0_def)
  have facts: "cli_backend ?cli = Pn532UartBackend" "\<not> list_all white_space (cli_serial_port ?cli)"
    "(0 :: u32) < 64" "length listed_response \<le> 65533" "list_all apdu_sized ?xs"
    "list_all (\<lambda>x. \<not> aid_overruns (fst (snd x))) ?xs"
    by (simp_all add: white_space_def listed_response_def apdu_sized_def)
  have atr: "build_pseudo_atr ?crd = [0x3b, 0x82, 0x80, 0x01, 0x80, 0x73, 0xf0]"
    by (simp add: build_pseudo_atr_def bridge_consts)
  from pn532_card_end_to_end [OF standard_usb_standard facts(3) script_driver_scripted facts(1,2) r(1) at
      listed_response_lists facts(4-6), of 1 0,
      where 'w = "nat \<times> (byte list \<times> exchange_script) backend virtual_device list"]
  obtain d h where main: "\<forall>serve :: nat \<Rightarrow> (byte list \<times> exchange_script) backend virtual_device list \<Rightarrow>
        nat \<times> (byte list \<times> exchange_script) backend virtual_device list.
      daemon_main ?drv standard_usb serve ?cli = Ok (serve (cli_listen_addr ?cli) [d])"
    and session: "urb_session standard_usb (backend_ops ?drv) 64 (IccPowerOn 0 1 0 # map apdu_command ?xs)
      (intf_handler d) = Some (map Some (data_answer 1 (build_pseudo_atr ?crd) # map apdu_answer ?xs), h)"
    by (elim exE conjE)
  have texts: "map apdu_command ?xs = [XfrBlock 0 2 0 0 [0x00, 0xa4, 0x04, 0x00]]"
    "map Some (data_answer 1 (build_pseudo_atr ?crd) # map apdu_answer ?xs) =
      [Some (DataBlock 0 1 (status_ok Active) 0 0 [0x3b, 0x82, 0x80, 0x01, 0x80, 0x73, 0xf0]),
       Some (DataBlock 0 2 (status_ok Active) 0 0 [0x90, 0x00])]"
    by (simp_all only: atr) (simp_all add: apdu_command_def xfr_command_def apdu_answer_def data_answer_def)
  show ?thesis
    using main session unfolding texts
    by (intro exI [of _ ?drv] exI [of _ d] exI [of _ h]) (simp del: urb_session.simps)
qed

end
