(* ===== verification/Pn532_Example.thy ===== *)
theory Pn532_Example
  imports Pn532_Reader
begin

text \<open>
  The diagnostic program \<open>examples/pn532_list_passive_target.rs\<close>: it opens a PN532 on a serial
  port, waits for an ISO 14443-A target, describes it, selects the CTAP applet and reports the
  status word. It has its own copies of several routines of \<open>src/nfc/pn532.rs\<close>, which carry the
  suffix \<open>_ex\<close> here.

  The state of a run is the \<open>console\<close>: the wire to the device and the lines written to standard
  output so far. An \<open>anyhow::Error\<close> is the datatype \<open>anyhow\<close> of a message, a message that ends in the
  \<open>Debug\<close> text of a device error, or an error with a context. The command-line arguments are a list of
  strings, the program's name first.
\<close>

definition BAUD_RATE :: u32 where "BAUD_RATE = 115200"
definition INIT_TIMEOUT_MS :: nat where "INIT_TIMEOUT_MS = 1000"
definition POLL_TIMEOUT_MS :: nat where "POLL_TIMEOUT_MS = 3000"
definition APDU_TIMEOUT_MS :: nat where "APDU_TIMEOUT_MS = 1000"
definition TOTAL_POLL_TIMEOUT_MS :: nat where "TOTAL_POLL_TIMEOUT_MS = 60000"
definition DEFAULT_PORT :: string where "DEFAULT_PORT = ''COM6''"
definition CTAP_AID :: "byte list" where
  "CTAP_AID = [0xa0, 0x00, 0x00, 0x06, 0x47, 0x2f, 0x00, 0x01]"
definition SELECT_CTAP_AID_APDU :: "byte list" where
  "SELECT_CTAP_AID_APDU =
     [0x00, 0xa4, 0x04, 0x00, 0x08, 0xa0, 0x00, 0x00, 0x06, 0x47, 0x2f, 0x00, 0x01, 0x00]"
definition RF_MAX_RETRIES_ex :: "byte list" where "RF_MAX_RETRIES_ex = [0x05, 0x00, 0x00, 0x02]"
definition PREAMBLE_ex :: "byte list" where "PREAMBLE_ex = [0x00, 0x00, 0xff]"
definition PN532_TO_HOST_ex :: byte where "PN532_TO_HOST_ex = 0xd5"
definition POSTAMBLE_ex :: byte where "POSTAMBLE_ex = 0x00"

datatype anyhow = Message string | DeviceError string pn532_error | Context string anyhow

type_synonym 'p console = "'p wire \<times> string list"

definition println :: "string \<Rightarrow> 'p console \<Rightarrow> 'p console" where
  "println line s = (fst s, snd s @ [line])"

text \<open>An operation on the wire, run within the console.\<close>

definition at_wire :: "('p wire \<Rightarrow> 'a \<times> 'p wire) \<Rightarrow> 'p console \<Rightarrow> 'a \<times> 'p console" where
  "at_wire f s = (let (a, w) = f (fst s) in (a, (w, snd s)))"

subsection \<open>Text\<close>

definition hex_digit_upper :: "nat \<Rightarrow> char" where
  "hex_digit_upper n = ''0123456789ABCDEF'' ! n"

text \<open>The format \<open>{:02X}\<close> of a byte, \<open>join\<close> of slices, and the program's printer of byte strings.\<close>

definition fmt_02X :: "byte \<Rightarrow> string" where
  "fmt_02X b = [hex_digit_upper (unat b div 16), hex_digit_upper (unat b mod 16)]"

fun join :: "string \<Rightarrow> string list \<Rightarrow> string" where
  "join sep [] = []"
| "join sep [s] = s"
| "join sep (s # ss) = s @ sep @ join sep ss"

definition hex_ex :: "byte list \<Rightarrow> string" where
  "hex_ex bytes = join '' '' (map fmt_02X bytes)"

subsection \<open>Requests and responses\<close>

definition receive_dynamic_response_ex ::
    "'p pn532_driver \<Rightarrow> byte \<Rightarrow> 'p wire \<Rightarrow> (byte list, pn532_error) result \<times> 'p wire" where
  "receive_dynamic_response_ex drv expected_response_command w =
     try_then (read_buffer (\<lambda>n. timed (read_exact drv n)) 5 w) (\<lambda>header w.
       if take 3 header \<noteq> PREAMBLE_ex then (Err BadResponseFrame, w)
       else
         let frame_len = header ! 3 in
         if frame_len + header ! 4 \<noteq> 0 then (Err CrcError, w)
         else if frame_len = 0 then (Err BadResponseFrame, w)
         else if frame_len = 1 then (Err Syntax, w)
         else
           try_then (read_buffer (\<lambda>n. timed (read_exact drv n)) (unat frame_len + 2) w) (\<lambda>frame w.
             if frame ! (length frame - 1) \<noteq> POSTAMBLE_ex then (Err BadResponseFrame, w)
             else if frame ! 0 \<noteq> PN532_TO_HOST_ex \<or> frame ! 1 \<noteq> expected_response_command then
               (Err BadResponseFrame, w)
             else
               let checksum = foldl (\<lambda>sum b. sum + b) 0 (take (length frame - 1) frame) in
               if checksum \<noteq> 0 then (Err CrcError, w)
               else (Ok (take (length frame - 2 - 2) (drop 2 frame)), w)))"

text \<open>The loop of \<open>wait_serial_ready\<close>; running out of time is an error here.\<close>

function wait_until_ex ::
    "'p pn532_driver \<Rightarrow> nat \<Rightarrow> 'p wire \<Rightarrow> (unit, io_error) result \<times> 'p wire" where
  "wait_until_ex drv deadline w =
     (if fst w < deadline then
        case timed (bytes_to_read drv) w of
          (Err e, w1) \<Rightarrow> (Err e, w1)
        | (Ok n, w1) \<Rightarrow>
            if n > 0 then (Ok (), w1) else wait_until_ex drv deadline (sleep drv 5 w1)
      else (Err (IoError TimedOut_Kind ''timed out waiting for PN532 serial data''), w))"
  by pat_completeness auto
termination
  by (relation "measure (\<lambda>(drv, deadline, w). deadline - fst w)")
    (auto simp: timed_def sleep_def from_millis_def split: prod.splits)

declare wait_until_ex.simps [simp del]

definition wait_serial_ready_ex ::
    "'p pn532_driver \<Rightarrow> nat \<Rightarrow> 'p wire \<Rightarrow> (unit, io_error) result \<times> 'p wire" where
  "wait_serial_ready_ex drv timeout_ms w = wait_until_ex drv (fst w + from_millis timeout_ms) w"

definition process_dynamic_response_ex ::
    "'p pn532_driver \<Rightarrow> request \<Rightarrow> nat \<Rightarrow> 'p wire \<Rightarrow> (byte list, pn532_error) result \<times> 'p wire" where
  "process_dynamic_response_ex drv request timeout_ms w =
     (let expected_response_command = req_command request + 1 in
      try_then (timed (drv_send drv request) w) (\<lambda>_ w.
      try_then (map_err (\<lambda>_. TimeoutAck) (wait_serial_ready_ex drv timeout_ms w)) (\<lambda>_ w.
      try_then (timed (drv_receive_ack drv) w) (\<lambda>_ w.
      try_then (map_err (\<lambda>_. TimeoutResponse) (wait_serial_ready_ex drv timeout_ms w)) (\<lambda>_ w.
      receive_dynamic_response_ex drv expected_response_command w)))))"

subsection \<open>Waiting for a target\<close>

text \<open>\<open>u64::div_ceil\<close>.\<close>

definition div_ceil :: "nat \<Rightarrow> nat \<Rightarrow> nat" where
  "div_ceil a b = (if a mod b > 0 then a div b + 1 else a div b)"

definition retry_line :: "string \<Rightarrow> nat \<Rightarrow> nat \<Rightarrow> string" where
  "retry_line what attempt attempts =
     what @ ''; retrying ('' @ fmt_nat attempt @ ''/'' @ fmt_nat attempts @ '')''"

text \<open>The loop over \<open>attempt..=attempts\<close>.\<close>

function poll_attempts ::
    "'p pn532_driver \<Rightarrow> string \<Rightarrow> nat \<Rightarrow> nat \<Rightarrow> 'p console \<Rightarrow> (byte list, anyhow) result \<times> 'p console" where
  "poll_attempts drv port_name attempt attempts s =
     (if attempt \<le> attempts then
        case at_wire (process_dynamic_response_ex drv (inlist_one_iso_a_target drv) POLL_TIMEOUT_MS) s of
          (Ok response, s1) \<Rightarrow>
            if (case response of [] \<Rightarrow> 0 | b # _ \<Rightarrow> b) \<noteq> 0 then (Ok response, s1)
            else poll_attempts drv port_name (attempt + 1) attempts
                   (println (retry_line ''No ISO14443-A target yet'' attempt attempts) s1)
        | (Err TimeoutResponse, s1) \<Rightarrow>
            poll_attempts drv port_name (attempt + 1) attempts
              (println (retry_line ''No target response yet'' attempt attempts) s1)
        | (Err error, s1) \<Rightarrow> (Err (DeviceError ''failed to run InListPassiveTarget: '' error), s1)
      else (Err (Message (''timed out waiting for an ISO14443-A target on '' @ port_name)), s))"
  by pat_completeness auto
termination
  by (relation "measure (\<lambda>(drv, port_name, attempt, attempts, s). attempts + 1 - attempt)") auto

declare poll_attempts.simps [simp del]

definition poll_iso_a_target ::
    "'p pn532_driver \<Rightarrow> string \<Rightarrow> 'p console \<Rightarrow> (byte list, anyhow) result \<times> 'p console" where
  "poll_iso_a_target drv port_name s =
     (let attempts = div_ceil TOTAL_POLL_TIMEOUT_MS POLL_TIMEOUT_MS
      in poll_attempts drv port_name 1 attempts s)"

subsection \<open>Describing the target\<close>

text \<open>The lines for what follows the UID.\<close>

definition print_ats :: "byte list \<Rightarrow> nat \<Rightarrow> 'p console \<Rightarrow> 'p console" where
  "print_ats response uid_end s =
     (if length response > uid_end then
        let ats_len = unat (response ! uid_end);
            ats_start = uid_end + 1;
            ats_end = ats_start + ats_len
        in if length response \<ge> ats_end then
             let s1 = println (''ISO-DEP activation completed; ATS: ''
                        @ hex_ex (take (ats_end - ats_start) (drop ats_start response))) s
             in if length response > ats_end then
                  println (''Target extra: '' @ hex_ex (drop ats_end response)) s1
                else s1
           else println (''ATS/extra: '' @ hex_ex (drop uid_end response)) s
      else s)"

definition print_iso_type_a_target ::
    "byte list \<Rightarrow> 'p console \<Rightarrow> (byte option, anyhow) result \<times> 'p console" where
  "print_iso_type_a_target response s =
     (if response = [] \<or> response ! 0 = 0 then
        (Ok None, println ''No ISO14443-A target found'' s)
      else if length response < 6 then
        (Err (Message (''InListPassiveTarget response too short: '' @ fmt_nat (length response)
           @ '' bytes'')), s)
      else
        let target_count = response ! 0;
            target_number = response ! 1;
            sens_res = take 2 (drop 2 response);
            sel_res = response ! 4;
            uid_len = unat (response ! 5);
            uid_start = 6;
            uid_end = uid_start + uid_len
        in if length response < uid_end then
             (Err (Message (''InListPassiveTarget response ended before UID: ''
                @ fmt_nat (length response) @ '' bytes'')), s)
           else
             let s = println (''Targets: '' @ fmt_nat (unat target_count)) s;
                 s = println (''Target number: '' @ fmt_nat (unat target_number)) s;
                 s = println (''SENS_RES: '' @ hex_ex sens_res) s;
                 s = println (''SEL_RES: '' @ fmt_02X sel_res) s;
                 s = println (''UID: '' @ hex_ex (take (uid_end - uid_start) (drop uid_start response))) s
             in (Ok (Some target_number), print_ats response uid_end s))"

subsection \<open>Selecting the applet\<close>

definition exchange_apdu_ex ::
    "'p pn532_driver \<Rightarrow> byte \<Rightarrow> byte list \<Rightarrow> 'p console \<Rightarrow> (byte list, anyhow) result \<times> 'p console" where
  "exchange_apdu_ex drv target apdu s =
     try_then
       (map_err (DeviceError ''PN532 InDataExchange failed: '')
         (at_wire (process_dynamic_response_ex drv
            \<lparr>req_command = cmd_in_data_exchange drv, req_data = target # apdu\<rparr> APDU_TIMEOUT_MS) s))
       (\<lambda>response s.
          if response = [] then
            (Err (Message ''PN532 returned an empty InDataExchange response''), s)
          else if response ! 0 \<noteq> 0x00 then
            (Err (Message (''PN532 InDataExchange status 0x'' @ fmt_02X (response ! 0))), s)
          else (Ok (drop 1 response), s))"

definition print_apdu_status :: "byte list \<Rightarrow> 'p console \<Rightarrow> (unit, anyhow) result \<times> 'p console" where
  "print_apdu_status response s =
     (if length response < 2 then
        (Err (Message (''APDU response too short for SW1/SW2: '' @ fmt_nat (length response)
           @ '' bytes'')), s)
      else
        let sw1 = response ! (length response - 2);
            sw2 = response ! (length response - 1);
            payload = take (length response - 2) response;
            s = (if payload \<noteq> [] then println (''APDU data: '' @ hex_ex payload) s else s);
            s = println (''SW1/SW2: '' @ fmt_02X sw1 @ '' '' @ fmt_02X sw2) s
        in if (sw1, sw2) = (0x90, 0x00) then
             (Ok (), println ''CTAP AID selected successfully'' s)
           else
             (Err (Message (''CTAP AID select failed with SW1/SW2 '' @ fmt_02X sw1 @ '' ''
                @ fmt_02X sw2)), s))"

subsection \<open>The program\<close>

text \<open>What \<open>run\<close> does once the device is configured.\<close>

definition run_configured :: "'p pn532_driver \<Rightarrow> string \<Rightarrow> 'p console \<Rightarrow> (unit, anyhow) result \<times> 'p console" where
  "run_configured drv port_name s =
     try_then (poll_iso_a_target drv port_name s) (\<lambda>response s.
     try_then (print_iso_type_a_target response s) (\<lambda>found s.
       case found of
         None \<Rightarrow> (Ok (), s)
       | Some target \<Rightarrow>
           let s = println (''Selecting CTAP AID: '' @ hex_ex CTAP_AID) s;
               s = println (''APDU command: '' @ hex_ex SELECT_CTAP_AID_APDU) s
           in try_then
                (map_err (Context ''failed to select CTAP AID'')
                  (exchange_apdu_ex drv target SELECT_CTAP_AID_APDU s)) (\<lambda>response s.
              print_apdu_status response (println (''APDU response: '' @ hex_ex response) s))))"

definition port_argument :: "string list \<Rightarrow> string" where
  "port_argument args = (case drop 1 args of [] \<Rightarrow> DEFAULT_PORT | p # _ \<Rightarrow> p)"

text \<open>The port is opened with nothing printed; without a port there is no wire to return.\<close>

definition run_ex :: "'p pn532_driver \<Rightarrow> string list \<Rightarrow> (unit, anyhow) result \<times> string list" where
  "run_ex drv args =
     (let port_name = port_argument args in
      case open_serial drv port_name BAUD_RATE (from_millis INIT_TIMEOUT_MS) of
        Err error \<Rightarrow>
          (Err (Context (''failed to open PN532 UART port '' @ port_name) (Message error)), [])
      | Ok w0 \<Rightarrow>
          (case
             try_then
               (map_err (\<lambda>error. Context ''failed to send PN532 wakeup message'' (Message error))
                 (at_wire (timed (send_wakeup_message drv)) (w0, []))) (\<lambda>_ s.
             try_then
               (map_err (DeviceError ''failed to configure PN532 SAM: '')
                 (at_wire (timed (drv_process drv (sam_configuration drv) 0 INIT_TIMEOUT_MS)) s)) (\<lambda>_ s.
             try_then
               (map_err (DeviceError ''failed to configure PN532 RF retries: '')
                 (at_wire (timed (drv_process drv
                    \<lparr>req_command = cmd_rf_configuration drv, req_data = RF_MAX_RETRIES_ex\<rparr>
                    0 INIT_TIMEOUT_MS)) s)) (\<lambda>_ s.
             run_configured drv port_name s)))
           of (res, s) \<Rightarrow> (res, snd s)))"

datatype exit_code = SUCCESS | FAILURE anyhow

text \<open>\<open>FAILURE\<close> carries the error that is written to standard error.\<close>

definition main_ex :: "'p pn532_driver \<Rightarrow> string list \<Rightarrow> exit_code \<times> string list" where
  "main_ex drv args =
     (case run_ex drv args of
        (Ok _, out) \<Rightarrow> (SUCCESS, out)
      | (Err error, out) \<Rightarrow> (FAILURE error, out))"

subsection \<open>The receiver and the library's\<close>

lemma read_buffer_cases:
  obtains e w' where "read_buffer rd n w = (Err e, w')"
  | bs w' where "read_buffer rd n w = (Ok bs, w')" "length bs = n"
  by (cases "rd n w"; cases "fst (rd n w)") (auto simp: read_buffer_def)

lemma frame_constants:
  "PREAMBLE_ex = PREAMBLE" "POSTAMBLE_ex = POSTAMBLE" "PN532_TO_HOST_ex = PN532_TO_HOST"
  by (simp_all add: PREAMBLE_ex_def POSTAMBLE_ex_def PN532_TO_HOST_ex_def frame_defs)

text \<open>After the header the two receivers do the same, unless the header announces an extended frame.\<close>

lemma receive_ex_header:
  assumes "read_buffer (\<lambda>n. timed (read_exact drv n)) 5 w = (Ok header, w1)" "length header = 5"
    and "take 2 (drop 3 header) \<noteq> EXTENDED_FRAME_MARKER"
  shows "receive_dynamic_response_ex drv cmd w = receive_dynamic_response drv cmd w"
proof -
  have byte: "unat l = 0 \<longleftrightarrow> l = 0" "unat l = Suc 0 \<longleftrightarrow> l = 1" for l :: byte
    by (simp_all add: word_unat_eq_iff)
  show ?thesis
    using assms
    by (cases rule: read_buffer_cases
          [of "\<lambda>n. timed (read_exact drv n)" "unat (header ! 3) + 2" w1])
      (simp_all add: receive_dynamic_response_ex_def receive_dynamic_response_def Let_def
        receive_dynamic_response_from_def receive_frame_len_def check_frame_def frame_constants byte)
qed

lemma receive_ex_extended:
  assumes "read_buffer (\<lambda>n. timed (read_exact drv n)) 5 w = (Ok header, w1)" "length header = 5"
    and "take 2 (drop 3 header) = EXTENDED_FRAME_MARKER" "take 3 header = PREAMBLE"
  shows "receive_dynamic_response_ex drv cmd w = (Err CrcError, w1)"
proof -
  obtain a b c l k where h: "header = [a, b, c, l, k]"
    using assms(2) by (auto simp: numeral_eq_Suc length_Suc_conv)
  then show ?thesis
    using assms by (simp add: receive_dynamic_response_ex_def frame_constants EXTENDED_FRAME_MARKER_def)
qed

lemma receive_ex_other:
  assumes "read_buffer (\<lambda>n. timed (read_exact drv n)) 5 w = (Ok header, w1)"
    and "take 3 header \<noteq> PREAMBLE"
  shows "receive_dynamic_response_ex drv cmd w = receive_dynamic_response drv cmd w"
  using assms
  by (simp add: receive_dynamic_response_ex_def receive_dynamic_response_def
      receive_dynamic_response_from_def frame_constants)

subsection \<open>The attempts of the poll\<close>

text \<open>The wire after a number of attempts, and the outcome of the next one.\<close>

primrec wire_after :: "'p pn532_driver \<Rightarrow> nat \<Rightarrow> 'p wire \<Rightarrow> 'p wire" where
  "wire_after drv 0 w = w"
| "wire_after drv (Suc k) w = wire_after drv k
     (snd (process_dynamic_response_ex drv (inlist_one_iso_a_target drv) POLL_TIMEOUT_MS w))"

definition attempt_outcome :: "'p pn532_driver \<Rightarrow> nat \<Rightarrow> 'p wire \<Rightarrow> (byte list, pn532_error) result" where
  "attempt_outcome drv k w = fst (process_dynamic_response_ex drv (inlist_one_iso_a_target drv)
     POLL_TIMEOUT_MS (wire_after drv k w))"

definition lists_any :: "byte list \<Rightarrow> bool" where
  "lists_any response \<longleftrightarrow> response \<noteq> [] \<and> response ! 0 \<noteq> 0"

text \<open>An attempt that the program repeats: the device listed no target or did not respond.\<close>

definition no_target_yet :: "(byte list, pn532_error) result \<Rightarrow> bool" where
  "no_target_yet outcome \<longleftrightarrow>
     (case outcome of Ok response \<Rightarrow> \<not> lists_any response | Err e \<Rightarrow> e = TimeoutResponse)"

lemma lists_any_case: "(case response of [] \<Rightarrow> 0 | b # _ \<Rightarrow> b) \<noteq> (0 :: byte) \<longleftrightarrow> lists_any response"
  by (cases response) (simp_all add: lists_any_def)

lemma attempt_outcome_Suc:
  "attempt_outcome drv (Suc k) w = attempt_outcome drv k
     (snd (process_dynamic_response_ex drv (inlist_one_iso_a_target drv) POLL_TIMEOUT_MS w))"
  by (simp add: attempt_outcome_def)

text \<open>One round of the loop, by the outcome of the attempt.\<close>

lemma poll_attempts_round:
  assumes "attempt \<le> attempts"
  obtains (again) line where "no_target_yet (attempt_outcome drv 0 (fst s))"
      "poll_attempts drv port attempt attempts s =
         poll_attempts drv port (attempt + 1) attempts (wire_after drv 1 (fst s), snd s @ [line])"
  | (found) response where "attempt_outcome drv 0 (fst s) = Ok response" "lists_any response"
      "poll_attempts drv port attempt attempts s = (Ok response, (wire_after drv 1 (fst s), snd s))"
  | (failed) e m where "attempt_outcome drv 0 (fst s) = Err e" "e \<noteq> TimeoutResponse"
      "poll_attempts drv port attempt attempts s = (Err (DeviceError m e), (wire_after drv 1 (fst s), snd s))"
proof -
  obtain res w where p: "process_dynamic_response_ex drv (inlist_one_iso_a_target drv)
      POLL_TIMEOUT_MS (fst s) = (res, w)"
    by (cases "process_dynamic_response_ex drv (inlist_one_iso_a_target drv) POLL_TIMEOUT_MS (fst s)")
  note step = poll_attempts.simps [of drv port attempt attempts s] lists_any_case at_wire_def
    println_def attempt_outcome_def no_target_yet_def p assms
  show ?thesis
  proof (cases res)
    case (Inr response)
    then show ?thesis
      by (cases "lists_any response") (auto simp: step intro: again found)
  next
    case (Inl e)
    then show ?thesis
    proof (cases "e = TimeoutResponse")
      case True
      then show ?thesis using Inl by (auto simp: step intro: again)
    next
      case False
      then show ?thesis using Inl by (cases e) (auto simp: step intro: failed)
    qed
  qed
qed

lemma poll_attempts_over:
  "attempts < attempt \<Longrightarrow> \<exists>m. poll_attempts drv port attempt attempts s = (Err (Message m), s)"
  by (simp add: poll_attempts.simps)

lemma poll_attempts_Ok:
  "attempt + n = attempts + 1 \<Longrightarrow>
     fst (poll_attempts drv port attempt attempts s) = Ok response \<longleftrightarrow>
       (\<exists>k<n. (\<forall>j<k. no_target_yet (attempt_outcome drv j (fst s)))
          \<and> attempt_outcome drv k (fst s) = Ok response \<and> lists_any response)"
proof (induction n arbitrary: attempt s)
  case 0
  then show ?case using poll_attempts_over [of attempts attempt drv port s] by auto
next
  case (Suc n)
  then have "attempt \<le> attempts" by simp
  then show ?case
  proof (cases rule: poll_attempts_round [of attempt attempts drv s port])
    case (again line)
    then have "attempt_outcome drv 0 (fst s) \<noteq> Ok response \<or> \<not> lists_any response"
      by (auto simp: no_target_yet_def)
    moreover have "fst (poll_attempts drv port (attempt + 1) attempts (wire_after drv 1 (fst s), snd s @ [line]))
        = Ok response \<longleftrightarrow> (\<exists>k<n. (\<forall>j<k. no_target_yet (attempt_outcome drv (Suc j) (fst s)))
          \<and> attempt_outcome drv (Suc k) (fst s) = Ok response \<and> lists_any response)"
      using Suc.IH [of "attempt + 1" "(wire_after drv 1 (fst s), snd s @ [line])"] Suc.prems
      by (simp add: attempt_outcome_Suc)
    ultimately show ?thesis
      using again by (auto simp: Ex_less_Suc2 All_less_Suc2)
  next
    case (found r)
    then show ?thesis by (auto simp: Ex_less_Suc2 All_less_Suc2 no_target_yet_def)
  next
    case (failed e m)
    then show ?thesis by (auto simp: Ex_less_Suc2 All_less_Suc2 no_target_yet_def)
  qed
qed

lemma poll_attempts_timed_out:
  "attempt + n = attempts + 1 \<Longrightarrow>
     (\<exists>m. fst (poll_attempts drv port attempt attempts s) = Err (Message m)) \<longleftrightarrow>
       (\<forall>j<n. no_target_yet (attempt_outcome drv j (fst s)))"
proof (induction n arbitrary: attempt s)
  case 0
  then show ?case using poll_attempts_over [of attempts attempt drv port s] by auto
next
  case (Suc n)
  then have "attempt \<le> attempts" by simp
  then show ?case
  proof (cases rule: poll_attempts_round [of attempt attempts drv s port])
    case (again line)
    then show ?thesis
      using Suc.IH [of "attempt + 1" "(wire_after drv 1 (fst s), snd s @ [line])"] Suc.prems
      by (simp add: attempt_outcome_Suc All_less_Suc2)
  qed (auto simp: All_less_Suc2 no_target_yet_def)
qed

lemma poll_attempts_message:
  "fst (poll_attempts drv port attempt attempts s) = Err (Message m) \<Longrightarrow>
     m = ''timed out waiting for an ISO14443-A target on '' @ port"
proof (induction drv port attempt attempts s rule: poll_attempts.induct)
  case (1 drv port attempt attempts s)
  show ?case
    using "1.prems"
    by (subst (asm) poll_attempts.simps)
      (auto split: if_splits prod.splits sum.splits pn532_error.splits dest: "1.IH")
qed

subsection \<open>A device that answers at once that it found nothing\<close>

definition no_target_frame :: "byte list" where
  "no_target_frame = normal_frame 0x4b [0x00]"

lemma length_no_target_frame: "length no_target_frame = 10"
  by (simp add: no_target_frame_def normal_frame_facts)

lemma wait_ready_at_once_ex:
  assumes "bytes_to_read drv p = (Ok n, d, p')" "0 < n" "0 < ms"
  shows "wait_serial_ready_ex drv ms (c, p) = (Ok (), (c + d, p'))"
  using assms
  by (simp add: wait_serial_ready_ex_def wait_until_ex.simps [of drv _ "(c, p)"] timed_def from_millis_def)

lemma recorded_wait_ex:
  "line \<noteq> [] \<Longrightarrow> 0 < ms \<Longrightarrow> wait_serial_ready_ex recorded_driver ms (c, line) = (Ok (), (c + 1, line))"
  using wait_ready_at_once_ex [of recorded_driver line "length line" 1 line ms c]
  by (simp add: recorded_driver_def)

lemma recorded_cmd: "req_command (inlist_one_iso_a_target recorded_driver) + 1 = 0x4b"
  by (simp add: recorded_driver_def)

lemma recorded_no_target:
  "process_dynamic_response_ex recorded_driver (inlist_one_iso_a_target recorded_driver) POLL_TIMEOUT_MS
     (c, no_target_frame @ rest) = (Ok [0x00], (c + 6, rest))"
  by (simp add: process_dynamic_response_ex_def recorded_ops recorded_wait_ex POLL_TIMEOUT_MS_def recorded_cmd
      no_target_frame_def normal_frame_def response_body_def receive_dynamic_response_ex_def
      read_buffer_def slice_read_def frame_constants frame_defs)

lemma recorded_no_targets:
  "j \<le> n \<Longrightarrow> wire_after recorded_driver j (c, concat (replicate n no_target_frame)) =
     (c + 6 * j, concat (replicate (n - j) no_target_frame))"
proof (induction j arbitrary: c n)
  case (Suc j)
  then obtain m where "n = Suc m" "j \<le> m"
    by (cases n) auto
  then show ?case
    using Suc.IH [of m "c + 6"] by (simp add: recorded_no_target)
qed simp

lemma poll_attempts_all_missed:
  assumes "attempt + n = attempts + 1" "\<forall>j<n. no_target_yet (attempt_outcome drv j (fst s))"
  shows "\<exists>m out. poll_attempts drv port attempt attempts s =
    (Err (Message m), (wire_after drv n (fst s), snd s @ out)) \<and> length out = n"
  using assms
proof (induction n arbitrary: attempt s)
  case 0
  then show ?case using poll_attempts_over [of attempts attempt drv port s] by (cases s) auto
next
  case (Suc n)
  then have "attempt \<le> attempts" by simp
  then show ?case
  proof (cases rule: poll_attempts_round [of attempt attempts drv s port])
    case (again line)
    then show ?thesis
      using Suc.IH [of "attempt + 1" "(wire_after drv 1 (fst s), snd s @ [line])"] Suc.prems
      by (fastforce simp: attempt_outcome_Suc All_less_Suc2)
  qed (use Suc.prems in \<open>auto simp: All_less_Suc2 no_target_yet_def\<close>)
qed

lemma recorded_attempts_missed:
  "j < n \<Longrightarrow> no_target_yet (attempt_outcome recorded_driver j (c, concat (replicate n no_target_frame)))"
proof -
  assume "j < n"
  then obtain m where "n - j = Suc m"
    by (metis Suc_diff_Suc)
  then show ?thesis
    using \<open>j < n\<close>
    by (simp add: attempt_outcome_def recorded_no_targets recorded_no_target no_target_yet_def lists_any_def)
qed

text \<open>
  The 60 seconds of \<open>TOTAL_POLL_TIMEOUT_MS\<close> only fix the number of attempts: a device that answers
  every request at once that it sees no target uses up the attempts in no time.
\<close>

lemma polling_gives_up_early:
  "\<exists>m out. poll_iso_a_target recorded_driver port ((c, concat (replicate 20 no_target_frame)), []) =
     (Err (Message m), ((c + 120, []), out)) \<and> c + 120 < c + from_millis TOTAL_POLL_TIMEOUT_MS"
  using poll_attempts_all_missed [of 1 20 20 recorded_driver
      "((c, concat (replicate 20 no_target_frame)), [])" port]
  by (auto simp: poll_iso_a_target_def div_ceil_def TOTAL_POLL_TIMEOUT_MS_def POLL_TIMEOUT_MS_def
      recorded_attempts_missed recorded_no_targets from_millis_def)

subsection \<open>Success\<close>

lemma print_apdu_status_Ok:
  assumes "print_apdu_status response s = (Ok u, s')"
  shows "(\<exists>pre. response = pre @ [0x90, 0x00])
    \<and> (\<exists>out. snd s' = out @ [''SW1/SW2: 90 00'', ''CTAP AID selected successfully''])"
proof -
  have len: "2 \<le> length response"
    and sw: "response ! (length response - 2) = 0x90" "response ! (length response - 1) = 0x00"
    using assms by (auto simp: print_apdu_status_def Let_def split: if_splits)
  obtain pre a b where r: "response = pre @ [a, b]"
    using len by (cases response rule: rev_cases; cases "butlast response" rule: rev_cases) auto
  then have "a = 0x90" "b = 0x00"
    using sw by (simp_all add: nth_append)
  moreover have "fmt_02X 0x90 = ''90''" "fmt_02X 0x00 = ''00''"
    by (simp_all add: fmt_02X_def hex_digit_upper_def)
  ultimately show ?thesis
    using assms r by (auto simp: print_apdu_status_def Let_def println_def nth_append split: if_splits)
qed

lemma poll_iso_a_target_Ok:
  assumes "poll_iso_a_target drv port s = (Ok response, s')"
  shows "lists_any response"
  using poll_attempts_Ok [of 1 20 20 drv port s response] assms
  by (auto simp: poll_iso_a_target_def div_ceil_def TOTAL_POLL_TIMEOUT_MS_def POLL_TIMEOUT_MS_def)

lemma print_target_found:
  "lists_any response \<Longrightarrow> print_iso_type_a_target response s \<noteq> (Ok None, s')"
  by (auto simp: lists_any_def print_iso_type_a_target_def Let_def)

text \<open>The device confirmed the selection, and the program said so last.\<close>

definition selection_confirmed :: "'p pn532_driver \<Rightarrow> string list \<Rightarrow> bool" where
  "selection_confirmed drv out \<longleftrightarrow>
     (\<exists>target w payload.
        fst (process_dynamic_response_ex drv
               \<lparr>req_command = cmd_in_data_exchange drv, req_data = target # SELECT_CTAP_AID_APDU\<rparr>
               APDU_TIMEOUT_MS w) = Ok (0x00 # payload @ [0x90, 0x00]))
   \<and> (\<exists>pre. out = pre @ [''SW1/SW2: 90 00'', ''CTAP AID selected successfully''])"

lemma exchange_apdu_ex_Ok:
  assumes "exchange_apdu_ex drv target apdu s = (Ok answer, s')"
  shows "fst (process_dynamic_response_ex drv
    \<lparr>req_command = cmd_in_data_exchange drv, req_data = target # apdu\<rparr> APDU_TIMEOUT_MS (fst s))
    = Ok (0x00 # answer)"
  using assms unfolding exchange_apdu_ex_def
proof (cases rule: try_then_cases)
  case (ok response s1)
  from ok(2) have "response = 0x00 # answer"
    by (cases response) (auto split: if_splits)
  with ok(1) show ?thesis
    by (auto simp: at_wire_def split: prod.splits elim!: map_err_cases)
qed simp

lemma select_confirmed:
  assumes "try_then (map_err f (exchange_apdu_ex drv target SELECT_CTAP_AID_APDU s))
      (\<lambda>response s. print_apdu_status response (println (line response) s)) = (Ok u, s')"
  shows "selection_confirmed drv (snd s')"
  using assms
proof (cases rule: try_then_cases)
  case (ok answer s1)
  have "exchange_apdu_ex drv target SELECT_CTAP_AID_APDU s = (Ok answer, s1)"
    using ok(1) by (cases rule: map_err_cases) auto
  from exchange_apdu_ex_Ok [OF this] print_apdu_status_Ok [OF ok(2)] show ?thesis
    unfolding selection_confirmed_def by blast
qed simp

lemma run_configured_Ok:
  assumes "run_configured drv port s = (Ok u, s')"
  shows "selection_confirmed drv (snd s')"
  using assms unfolding run_configured_def
proof (cases rule: try_then_cases)
  case polled: (ok response s1)
  from polled(2) show ?thesis
  proof (cases rule: try_then_cases)
    case printed: (ok found s2)
    obtain target where "found = Some target"
      using printed(1) print_target_found [OF poll_iso_a_target_Ok [OF polled(1)], of s1 s2]
      by (cases found) simp_all
    with printed(2) show ?thesis
      by (auto simp: Let_def intro: select_confirmed)
  qed simp
qed simp

lemma run_ex_Ok:
  assumes "run_ex drv args = (Ok u, out)"
  shows "selection_confirmed drv out"
  using assms
  by (auto simp: run_ex_def Let_def dest!: run_configured_Ok elim!: try_then_cases
      split: sum.splits prod.splits)

subsection \<open>The answer to select\<close>

lemma print_ats_complete:
  assumes "ats \<noteq> []" "unat (hd ats) = length ats"
  shows "print_ats (pre @ ats) (length pre) s = println (''ATS/extra: '' @ hex_ex ats) s"
proof -
  have "(pre @ ats) ! length pre = hd ats"
    using assms(1) by (simp add: nth_append hd_conv_nth)
  then show ?thesis
    using assms by (simp add: print_ats_def)
qed

lemma print_target_lines:
  fixes w :: "'p wire"
  assumes "response = [count, target, s1, s2, sak, uid_len] @ u @ ats" "count \<noteq> 0"
    and "unat uid_len = length u" "ats \<noteq> []" "unat (hd ats) = length ats"
  shows "print_iso_type_a_target response (w, out) = (Ok (Some target), (w, out @
    [''Targets: '' @ fmt_nat (unat count), ''Target number: '' @ fmt_nat (unat target),
     ''SENS_RES: '' @ hex_ex [s1, s2], ''SEL_RES: '' @ fmt_02X sak, ''UID: '' @ hex_ex u,
     ''ATS/extra: '' @ hex_ex ats]))"
proof -
  have "length ([count, target, s1, s2, sak, uid_len] @ u) = 6 + length u"
    by simp
  then have "print_ats response (6 + length u) s = println (''ATS/extra: '' @ hex_ex ats) s"
    for s :: "'p console"
    using print_ats_complete [OF assms(4,5), of "[count, target, s1, s2, sak, uid_len] @ u" s] assms(1)
    by (simp only: append_assoc)
  then show ?thesis
    using assms(1-3) by (simp add: print_iso_type_a_target_def println_def)
qed

subsection \<open>A device that answers\<close>

lemma receive_ex_normal_frame:
  assumes "stream_port drv content" "length payload \<le> 253"
    and "content (snd w) = normal_frame cmd payload @ rest"
  shows "\<exists>w'. receive_dynamic_response_ex drv cmd w = (Ok payload, w') \<and> content (snd w') = rest"
proof -
  let ?n = "of_nat (length payload + 2) :: byte"
  have frame: "normal_frame cmd payload @ rest =
      [0x00, 0x00, 0xff, ?n, - ?n] @ response_body cmd payload
        @ [- sum_list (response_body cmd payload), 0x00] @ rest"
    by (simp add: normal_frame_def Let_def)
  then obtain w1 where header: "read_buffer (\<lambda>n. timed (read_exact drv n)) 5 w =
      (Ok [0x00, 0x00, 0xff, ?n, - ?n], w1)"
    using stream_read_buffer [OF assms(1), of 5 w "[0x00, 0x00, 0xff, ?n, - ?n]"] assms(3)
    by (auto simp del: of_nat_add)
  have "take 2 (drop 3 [0x00, 0x00, 0xff, ?n, - ?n]) \<noteq> EXTENDED_FRAME_MARKER"
    using neg_len_not_marker [of "length payload + 2"] assms(2)
    by (simp add: EXTENDED_FRAME_MARKER_def del: of_nat_add)
  from receive_ex_header [OF header _ this] show ?thesis
    using stream_receive [OF assms(1), of cmd w payload rest] receive_normal_frame [OF assms(2)]
      assms(3) by simp
qed

lemma process_answered_ex:
  assumes "stream_port drv content" "0 < ms" "length payload \<le> 253"
    and "answers drv content req (normal_frame (req_command req + 1) payload @ rest) (snd w)"
  shows "\<exists>w'. process_dynamic_response_ex drv req ms w = (Ok payload, w') \<and> content (snd w') = rest"
proof -
  obtain d1 p1 n1 d2 p2 d3 p3 n2 d4 p4 where
    a: "drv_send drv req (snd w) = (Ok (), d1, p1)" "bytes_to_read drv p1 = (Ok n1, d2, p2)" "0 < n1"
      "drv_receive_ack drv p2 = (Ok (), d3, p3)" "bytes_to_read drv p3 = (Ok n2, d4, p4)" "0 < n2"
      "content p4 = normal_frame (req_command req + 1) payload @ rest"
    using assms(4) unfolding answers_def by blast
  obtain w' where w': "receive_dynamic_response_ex drv (req_command req + 1)
      (fst w + d1 + d2 + d3 + d4, p4) = (Ok payload, w')" "content (snd w') = rest"
    using receive_ex_normal_frame [OF assms(1,3), where w = "(fst w + d1 + d2 + d3 + d4, p4)"
        and cmd = "req_command req + 1" and rest = rest] a(7) by auto
  have "process_dynamic_response_ex drv req ms w = (Ok payload, w')"
    using a w' assms(2)
    by (simp add: process_dynamic_response_ex_def Let_def timed_def wait_ready_at_once_ex)
  then show ?thesis using w'(2) by blast
qed

lemma poll_first:
  assumes "process_dynamic_response_ex drv (inlist_one_iso_a_target drv) POLL_TIMEOUT_MS (fst s) = (Ok response, w)"
    and "lists_any response"
  shows "poll_iso_a_target drv port s = (Ok response, (w, snd s))"
proof -
  have outcome: "attempt_outcome drv 0 (fst s) = Ok response" "wire_after drv 1 (fst s) = w"
    using assms(1) by (simp_all add: attempt_outcome_def)
  have "poll_attempts drv port 1 20 s = (Ok response, (w, snd s))"
    by (cases rule: poll_attempts_round [of 1 20 drv s port])
      (use outcome assms(2) in \<open>auto simp: no_target_yet_def\<close>)
  then show ?thesis
    by (simp add: poll_iso_a_target_def div_ceil_def TOTAL_POLL_TIMEOUT_MS_def POLL_TIMEOUT_MS_def)
qed

text \<open>A driver whose port opens on a recorded line, and a line with a card that takes the SELECT.\<close>

definition opened_on :: "byte list \<Rightarrow> byte list pn532_driver" where
  "opened_on line = recorded_driver\<lparr>open_serial := \<lambda>port baud timeout. Ok (0, line)\<rparr>"

definition one_target_response :: "byte list" where
  "one_target_response = [0x01, 0x01, 0x00, 0x04, 0x20, 0x04, 0xde, 0xad, 0xbe, 0xef]"

definition selecting_line :: "byte list" where
  "selecting_line = normal_frame 0x4b one_target_response @ normal_frame 0x41 [0x00, 0x90, 0x00]"

lemma normal_frame_not_Nil [simp]: "normal_frame cmd payload \<noteq> []"
  by (simp add: normal_frame_def Let_def)

lemma opened_stream: "stream_port (opened_on line) id"
  by (simp add: stream_port_def opened_on_def recorded_driver_def slice_read_def)

lemma opened_answers: "line \<noteq> [] \<Longrightarrow> answers (opened_on l) id req line line"
  by (simp add: answers_def opened_on_def recorded_driver_def)

lemma opened_process:
  assumes "req_command req + 1 = cmd" "length payload \<le> 253" "0 < ms"
  shows "\<exists>c'. process_dynamic_response_ex (opened_on l) req ms (c, normal_frame cmd payload @ rest)
    = (Ok payload, (c', rest))"
  using process_answered_ex [OF opened_stream assms(3,2), where req = req and rest = rest
      and w = "(c, normal_frame cmd payload @ rest)"]
    opened_answers [of "normal_frame cmd payload @ rest" l req] assms(1)
  by auto

lemma opened_ops:
  "open_serial (opened_on line) port baud ms = Ok (0, line)"
  "timed (send_wakeup_message (opened_on line)) w = (Ok (), w)"
  "timed (drv_process (opened_on line) req n ms) w = (Ok (replicate n 0), (fst w + 1, snd w))"
  "req_command (inlist_one_iso_a_target (opened_on line)) + 1 = 0x4b"
  "cmd_in_data_exchange (opened_on line) + 1 = 0x41"
  by (simp_all add: opened_on_def recorded_driver_def timed_def)

lemma one_target_found:
  "lists_any one_target_response"
  "\<exists>lines. print_iso_type_a_target one_target_response (w, out) = (Ok (Some 0x01), (w, lines))"
  by (simp_all add: lists_any_def one_target_response_def print_iso_type_a_target_def print_ats_def println_def)

lemma selecting_run_configured:
  "\<exists>s'. run_configured (opened_on l) port ((c, selecting_line), []) = (Ok (), s')"
proof -
  let ?drv = "opened_on l"
  let ?frame = "normal_frame 0x41 [0x00, 0x90, 0x00]"
  obtain c1 where poll: "process_dynamic_response_ex ?drv (inlist_one_iso_a_target ?drv) POLL_TIMEOUT_MS
      (c, selecting_line) = (Ok one_target_response, (c1, ?frame))"
    using opened_process [of "inlist_one_iso_a_target ?drv" "0x4b" one_target_response POLL_TIMEOUT_MS l c ?frame]
    by (auto simp: selecting_line_def opened_ops one_target_response_def POLL_TIMEOUT_MS_def)
  obtain lines where print: "print_iso_type_a_target one_target_response ((c1, ?frame), [])
      = (Ok (Some 0x01), ((c1, ?frame), lines))"
    using one_target_found(2) by blast
  obtain c2 where "process_dynamic_response_ex ?drv
      \<lparr>req_command = cmd_in_data_exchange ?drv, req_data = 0x01 # SELECT_CTAP_AID_APDU\<rparr>
      APDU_TIMEOUT_MS (c1, ?frame) = (Ok [0x00, 0x90, 0x00], (c2, []))"
    using opened_process [of "\<lparr>req_command = cmd_in_data_exchange ?drv, req_data = 0x01 # SELECT_CTAP_AID_APDU\<rparr>"
        "0x41" "[0x00, 0x90, 0x00]" APDU_TIMEOUT_MS l c1 "[]"]
    by (auto simp: opened_ops APDU_TIMEOUT_MS_def)
  then have "exchange_apdu_ex ?drv 0x01 SELECT_CTAP_AID_APDU ((c1, ?frame), out) = (Ok [0x90, 0x00], ((c2, []), out))"
    for out
    by (simp add: exchange_apdu_ex_def at_wire_def)
  moreover have "\<exists>s'. print_apdu_status [0x90, 0x00] s = (Ok (), s')" for s :: "byte list console"
    by (simp add: print_apdu_status_def)
  ultimately show ?thesis
    using poll_first [of ?drv "((c, selecting_line), [])", OF _ one_target_found(1)] poll print
    by (simp add: run_configured_def println_def)
qed

lemma selecting_run: "\<exists>out. main_ex (opened_on selecting_line) [''list'', ''/dev/ttyUSB0''] = (SUCCESS, out)"
proof -
  obtain s where "run_configured (opened_on selecting_line) ''/dev/ttyUSB0'' ((2, selecting_line), []) = (Ok (), s)"
    using selecting_run_configured by blast
  then show ?thesis
    by (simp add: main_ex_def run_ex_def port_argument_def opened_ops at_wire_def numeral_2_eq_2)
qed

subsection \<open>Properties\<close>

text \<open>C19: The program finds a target if and only if the device lists one within 20 requests, each
  request before it having been answered with no target or with no response in time; it gives up
  with its timeout message if and only if all 20 requests went that way.\<close>

theorem example_polling_exact:
  "(fst (poll_iso_a_target drv port s) = Ok response \<longleftrightarrow>
      (\<exists>k<20. (\<forall>j<k. no_target_yet (attempt_outcome drv j (fst s)))
         \<and> attempt_outcome drv k (fst s) = Ok response \<and> lists_any response))
   \<and> ((\<exists>m. fst (poll_iso_a_target drv port s) = Err (Message m)) \<longleftrightarrow>
      (\<forall>j<20. no_target_yet (attempt_outcome drv j (fst s))))"
  using poll_attempts_Ok [of 1 20 20 drv port s response]
    poll_attempts_timed_out [of 1 20 20 drv port s]
  by (simp add: poll_iso_a_target_def div_ceil_def TOTAL_POLL_TIMEOUT_MS_def POLL_TIMEOUT_MS_def)

theorem example_polling_exact_witness:
  "fst (poll_iso_a_target recorded_driver ''COM6''
      ((0, no_target_frame @ no_target_frame @ normal_frame 0x4b one_target_response), [])) = Ok one_target_response"
proof -
  have "process_dynamic_response_ex recorded_driver (inlist_one_iso_a_target recorded_driver) POLL_TIMEOUT_MS
      (c, normal_frame 0x4b one_target_response) = (Ok one_target_response, (c + 6, []))" for c
    by (simp add: process_dynamic_response_ex_def recorded_ops recorded_wait_ex POLL_TIMEOUT_MS_def
        recorded_cmd one_target_response_def normal_frame_def response_body_def
        receive_dynamic_response_ex_def read_buffer_def slice_read_def frame_constants frame_defs)
  then have "attempt_outcome recorded_driver 2
      (0, no_target_frame @ no_target_frame @ normal_frame 0x4b one_target_response) = Ok one_target_response"
    "\<forall>j<2. no_target_yet (attempt_outcome recorded_driver j
      (0, no_target_frame @ no_target_frame @ normal_frame 0x4b one_target_response))"
    by (simp_all add: attempt_outcome_def numeral_2_eq_2 recorded_no_target All_less_Suc2
        no_target_yet_def lists_any_def)
  moreover have "lists_any one_target_response"
    by (simp add: lists_any_def one_target_response_def)
  moreover have "(2 :: nat) < 20"
    by simp
  ultimately have "\<exists>k<20. (\<forall>j<k. no_target_yet (attempt_outcome recorded_driver j
        (0, no_target_frame @ no_target_frame @ normal_frame 0x4b one_target_response)))
      \<and> attempt_outcome recorded_driver k
        (0, no_target_frame @ no_target_frame @ normal_frame 0x4b one_target_response) = Ok one_target_response
      \<and> lists_any one_target_response"
    by blast
  then show ?thesis
    using example_polling_exact [of recorded_driver "''COM6''"
        "((0, no_target_frame @ no_target_frame @ normal_frame 0x4b one_target_response), [])"
        one_target_response]
    by simp
qed

text \<open>C31: When the program exits with success, the device took the SELECT of the CTAP applet for a
  target and answered it with the status word 9000, and the program's last two lines say so.\<close>

theorem example_success_means_selected:
  assumes "main_ex drv args = (SUCCESS, out)"
  shows "selection_confirmed drv out"
proof -
  obtain u where "run_ex drv args = (Ok u, out)"
    using assms by (auto simp: main_ex_def split: prod.splits sum.splits)
  then show ?thesis by (rule run_ex_Ok)
qed

theorem example_success_means_selected_witness:
  "\<exists>out. main_ex (opened_on selecting_line) [''list'', ''/dev/ttyUSB0''] = (SUCCESS, out)
     \<and> selection_confirmed (opened_on selecting_line) out"
  using selecting_run example_success_means_selected by blast

text \<open>The receiver of the program is the library's for every device, except that it does not know
  extended frames: after their header it reports a checksum error.\<close>

lemma example_receiver_agrees:
  "receive_dynamic_response_ex drv cmd w =
     (case read_buffer (\<lambda>n. timed (read_exact drv n)) 5 w of
        (Err e, w1) \<Rightarrow> (Err e, w1)
      | (Ok header, w1) \<Rightarrow>
          if take 3 header = PREAMBLE \<and> take 2 (drop 3 header) = EXTENDED_FRAME_MARKER
          then (Err CrcError, w1) else receive_dynamic_response drv cmd w)"
proof (cases rule: read_buffer_cases [of "\<lambda>n. timed (read_exact drv n)" 5 w])
  case (1 e w1)
  then show ?thesis by (simp add: receive_dynamic_response_ex_def)
next
  case (2 header w1)
  then show ?thesis
    using receive_ex_header [OF 2, of cmd] receive_ex_extended [OF 2, of cmd] receive_ex_other [OF 2(1), of cmd]
    by auto
qed

text \<open>C32: The program misreads the answer to select. When the response of the device ends with its ATS,
  as the reader of the daemon requires and parses it, the program counts the length byte of the ATS
  twice, takes the ATS for incomplete and prints it as bytes of unknown meaning.\<close>

theorem example_misreads_ats:
  assumes "response = [count, target, s1, s2, sak, uid_len] @ u @ ats" "count \<noteq> 0"
    and "unat uid_len = length u" "ats_historical_bytes ats = Ok hist"
  shows "parse_target_response response =
      Ok (target, \<lparr>uid = u, card_protocol = IsoDep, historical_bytes = hist\<rparr>)
    \<and> print_iso_type_a_target response (w, out) = (Ok (Some target), (w, out @
        [''Targets: '' @ fmt_nat (unat count), ''Target number: '' @ fmt_nat (unat target),
         ''SENS_RES: '' @ hex_ex [s1, s2], ''SEL_RES: '' @ fmt_02X sak, ''UID: '' @ hex_ex u,
         ''ATS/extra: '' @ hex_ex ats]))"
proof -
  have ats: "ats \<noteq> []" "unat (hd ats) = length ats"
    using assms(4) by (auto simp: ats_historical_iff)
  have "trailing_history ats = Ok hist"
    using ats assms(4) by (simp add: trailing_history_def)
  then have "parse_target_response response =
      Ok (target, \<lparr>uid = u, card_protocol = IsoDep, historical_bytes = hist\<rparr>)"
    using assms(1,3) by (simp add: parse_target_long)
  then show ?thesis
    using print_target_lines [OF assms(1-3) ats] by simp
qed

theorem example_misreads_ats_witness:
  "parse_target_response ([0x01, 0x01, 0x03, 0x44, 0x20, 0x02] @ [0x04, 0x05] @ [0x05, 0x78, 0x80, 0x02, 0x00])
      = Ok (0x01, \<lparr>uid = [0x04, 0x05], card_protocol = IsoDep, historical_bytes = []\<rparr>)
   \<and> print_iso_type_a_target
       ([0x01, 0x01, 0x03, 0x44, 0x20, 0x02] @ [0x04, 0x05] @ [0x05, 0x78, 0x80, 0x02, 0x00])
       ((0, [] :: byte list), [])
      = (Ok (Some 0x01), ((0, []), [''Targets: 1'', ''Target number: 1'', ''SENS_RES: 03 44'', ''SEL_RES: 20'',
           ''UID: 04 05'', ''ATS/extra: 05 78 80 02 00'']))"
  using example_misreads_ats [where count = 1 and target = 1 and ?s1.0 = "0x03" and ?s2.0 = "0x44" and sak = "0x20"
      and uid_len = 2 and u = "[0x04, 0x05]" and ats = "[0x05, 0x78, 0x80, 0x02, 0x00]" and hist = "[]"
      and w = "(0, [] :: byte list)" and out = "[]", OF refl]
  by (simp add: ats_historical_bytes_def ATS_T0_TA_PRESENT_def ATS_T0_TB_PRESENT_def ATS_T0_TC_PRESENT_def
      fmt_nat.simps fmt_02X_def hex_digit_def hex_digit_upper_def hex_ex_def)

end
