(* ===== verification/Source_Tests.thy ===== *)
theory Source_Tests
  imports Usb_Host Application
begin

text \<open>
  The unit tests of the repository, run on the model. Each \<open>#[test]\<close> function is a boolean of the
  same name: its assertions, with an \<open>expect\<close> that fails or a \<open>panic!\<close> counting as false. The last
  section evaluates them all. The two \<open>FakeReader\<close> types of the tests are the readers here; the
  requests of the crate usbip are those of \<open>standard_usb\<close>.
\<close>

text \<open>\<open>expect\<close> on the result of an operation, followed by the rest of the test.\<close>

definition expect :: "('a, 'e) result \<times> 's \<Rightarrow> ('a \<Rightarrow> 's \<Rightarrow> bool) \<Rightarrow> bool" where
  "expect m k = (case m of (Ok a, s) \<Rightarrow> k a s | (Err _, _) \<Rightarrow> False)"

definition ends_with :: "byte list \<Rightarrow> byte list \<Rightarrow> bool" where
  "ends_with suffix xs \<longleftrightarrow> drop (length xs - length suffix) xs = suffix"

definition has_window :: "byte list \<Rightarrow> byte list \<Rightarrow> bool" where
  "has_window v xs \<longleftrightarrow>
     list_ex (\<lambda>i. take (length v) (drop i xs) = v) [0..<length xs + 1 - length v]"

type_synonym poll_result = "(card_presence option, reader_error) result"

definition fake_capabilities :: reader_capabilities where
  "fake_capabilities = \<lparr>cap_name = ''fake'', supports_iso_dep = True, supports_apdu_exchange = True\<rparr>"

definition next_poll :: "poll_result list \<Rightarrow> poll_result \<times> poll_result list" where
  "next_poll polls = (case polls of [] \<Rightarrow> (Ok None, []) | p # ps \<Rightarrow> (p, ps))"

subsection \<open>Messages\<close>

definition decode_xfr_block_command :: bool where
  "decode_xfr_block_command \<longleftrightarrow>
     decode [PC_TO_RDR_XFR_BLOCK, 0x04, 0x00, 0x00, 0x00, 0x00, 0x22, 0x00, 0x34, 0x12,
             0x00, 0xa4, 0x04, 0x00] =
       Ok (XfrBlock 0 0x22 0 0x1234 [0x00, 0xa4, 0x04, 0x00])"

definition encode_data_block_response :: bool where
  "encode_data_block_response \<longleftrightarrow>
     (let frame = encode (DataBlock 0 1 \<lparr>icc = Active, command = NoError\<rparr> 0 0 [0x90, 0x00])
      in frame ! 0 = RDR_TO_PC_DATA_BLOCK
       \<and> take 4 (drop 1 frame) = [0x02, 0x00, 0x00, 0x00]
       \<and> drop 10 frame = [0x90, 0x00])"

definition decode_get_parameters_command :: bool where
  "decode_get_parameters_command \<longleftrightarrow>
     decode [PC_TO_RDR_GET_PARAMETERS, 0, 0, 0, 0, 0, 9, 0, 0, 0] = Ok (GetParameters 0 9)"

definition decode_set_parameters_command :: bool where
  "decode_set_parameters_command \<longleftrightarrow>
     decode [PC_TO_RDR_SET_PARAMETERS, 0x07, 0x00, 0x00, 0x00, 0x00, 0x44, 0x01, 0x00, 0x00,
             0x11, 0x10, 0x00, 0x15, 0x00, 0xfe, 0x00] =
       Ok (SetParameters 0 0x44 0x01 [0x11, 0x10, 0x00, 0x15, 0x00, 0xfe, 0x00])"

definition encode_parameters_response :: bool where
  "encode_parameters_response \<longleftrightarrow>
     (let frame = encode (Parameters 0 1 (status_ok Inactive) 0 1 [0x11, 0x10, 0x00, 0x15, 0x00, 0xfe, 0x00])
      in frame ! 0 = RDR_TO_PC_PARAMETERS
       \<and> take 4 (drop 1 frame) = [0x07, 0x00, 0x00, 0x00]
       \<and> frame ! 9 = 0x01
       \<and> drop 10 frame = [0x11, 0x10, 0x00, 0x15, 0x00, 0xfe, 0x00])"

subsection \<open>The bridge\<close>

record fake_reader =
  poll_results :: "poll_result list"
  exchange_result :: "(byte list, reader_error) result"

definition fake_reader_ops :: "fake_reader nfc_reader" where
  "fake_reader_ops =
     \<lparr>capabilities = \<lambda>r. fake_capabilities,
      poll_card = \<lambda>r. (let (p, ps) = next_poll (poll_results r) in (p, r\<lparr>poll_results := ps\<rparr>)),
      power_off = \<lambda>r. (Ok (), r),
      exchange_apdu = \<lambda>r apdu. (exchange_result r, r)\<rparr>"

definition fake_bridge :: "poll_result list \<Rightarrow> (byte list, reader_error) result \<Rightarrow> fake_reader bridge" where
  "fake_bridge polls exchange =
     new_bridge fake_reader_ops \<lparr>poll_results = polls, exchange_result = exchange\<rparr>"

definition test_card :: "byte list \<Rightarrow> card_presence" where
  "test_card hist = \<lparr>uid = [0x01, 0x02, 0x03, 0x04], card_protocol = IsoDep, historical_bytes = hist\<rparr>"

definition test_atr :: "byte list" where
  "test_atr = [0x3b, 0x68, 0x00, 0xff, 0x38, 0x2b, 0x41, 0x52, 0x44, 0x6e, 0x73, 0x73]"

definition power_on_returns_data_block_when_card_exists :: bool where
  "power_on_returns_data_block_when_card_exists \<longleftrightarrow>
     (let b = fake_bridge [Ok (Some (test_card test_atr))] (Ok [0x90, 0x00]);
          (response, b) = handle_command fake_reader_ops (IccPowerOn 0 7 0) b
      in case response of
           Some (DataBlock _ _ status _ _ payload) \<Rightarrow> status = status_ok Active \<and> payload = test_atr
         | _ \<Rightarrow> False)"

definition power_off_keeps_card_present_but_inactive :: bool where
  "power_off_keeps_card_present_but_inactive \<longleftrightarrow>
     (let b = fake_bridge [Ok (Some (test_card test_atr)), Ok (Some (test_card test_atr))] (Ok [0x90, 0x00]);
          (_, b) = handle_command fake_reader_ops (IccPowerOn 0 1 0) b;
          (response, b) = handle_command fake_reader_ops (IccPowerOff 0 2) b
      in case response of
           Some (SlotStatus _ _ status _ _) \<Rightarrow> status = status_ok Inactive \<and> card_present b
         | _ \<Rightarrow> False)"

definition refresh_does_not_poll_while_powered_card_is_connected :: bool where
  "refresh_does_not_poll_while_powered_card_is_connected \<longleftrightarrow>
     (let b = fake_bridge [Ok (Some (test_card [0x3b, 0x68, 0x00, 0xff])), Ok None] (Ok [0x90, 0x00]);
          (_, b) = handle_command fake_reader_ops (IccPowerOn 0 1 0) b
      in expect (refresh_card_presence fake_reader_ops b) (\<lambda>present b.
           present \<and> card_present b \<and> current_icc_status b = Active))"

definition target_lost_during_apdu_marks_card_not_present :: bool where
  "target_lost_during_apdu_marks_card_not_present \<longleftrightarrow>
     (let b = fake_bridge [Ok (Some (test_card [0x3b, 0x68, 0x00, 0xff]))] (Err (TargetLost ''target lost''));
          (_, b) = handle_command fake_reader_ops (IccPowerOn 0 1 0) b;
          (response, b) = handle_command fake_reader_ops (XfrBlock 0 2 0 0 [0x00, 0xa4, 0x04, 0x00]) b
      in case response of
           Some (SlotStatus _ _ status _ _) \<Rightarrow>
             status = status_failed NotPresent \<and> \<not> card_present b \<and> current_icc_status b = NotPresent
         | _ \<Rightarrow> False)"

definition get_parameters_returns_t1_defaults :: bool where
  "get_parameters_returns_t1_defaults \<longleftrightarrow>
     (let b = fake_bridge [] (Ok [0x90, 0x00]);
          (response, b) = handle_command fake_reader_ops (GetParameters 0 1) b
      in case response of
           Some (Parameters _ _ _ _ protocol payload) \<Rightarrow>
             protocol = 1 \<and> payload = [0x11, 0x10, 0x00, 0x15, 0x00, 0xfe, 0x00]
         | _ \<Rightarrow> False)"

definition build_pseudo_atr_declares_t1_protocol :: bool where
  "build_pseudo_atr_declares_t1_protocol \<longleftrightarrow>
     (let hist = [0x80, 0x73, 0xc0, 0x21, 0xc0, 0x57, 0x59, 0x75, 0x62, 0x69, 0x4b, 0x65, 0x79];
          atr = build_pseudo_atr
            \<lparr>uid = [0x27, 0x9c, 0x8b, 0x22, 0x02, 0x8b, 0x9c], card_protocol = IsoDep,
             historical_bytes = hist\<rparr>
      in atr ! 0 = 0x3b \<and> atr ! 1 = 0x8d \<and> atr ! 2 = 0x80 \<and> atr ! 3 = 0x01
       \<and> take 13 (drop 4 atr) = hist)"

definition select_aid_extracts_df_name :: bool where
  "select_aid_extracts_df_name \<longleftrightarrow>
     select_aid [0x00, 0xa4, 0x04, 0x00, 0x03, 0xa0, 0x00, 0x01, 0x00] = Some (Some [0xa0, 0x00, 0x01])"

definition normalize_get_response_uses_interindustry_cla :: bool where
  "normalize_get_response_uses_interindustry_cla \<longleftrightarrow>
     normalize_apdu_for_exchange [0x80, 0xc0, 0x00, 0x00, 0x7b] = [0x00, 0xc0, 0x00, 0x00, 0x7b]
   \<and> normalize_apdu_for_exchange [0x80, 0x10, 0x00, 0x00, 0x01, 0x04, 0x00] =
       [0x80, 0x10, 0x00, 0x00, 0x01, 0x04, 0x00]"

definition format_hex_returns_lowercase_hex :: bool where
  "format_hex_returns_lowercase_hex \<longleftrightarrow> format_hex [0xa0, 0x00, 0x01] = ''a00001''"

subsection \<open>The transport\<close>

definition transport_fake_ops :: "poll_result list nfc_reader" where
  "transport_fake_ops =
     \<lparr>capabilities = \<lambda>r. fake_capabilities,
      poll_card = next_poll,
      power_off = \<lambda>r. (Ok (), r),
      exchange_apdu = \<lambda>r apdu. (Ok [0x90, 0x00], r)\<rparr>"

definition fake_transport :: "poll_result list \<Rightarrow> poll_result list transport" where
  "fake_transport polls = new_transport (new_bridge transport_fake_ops polls)"

definition one_card :: "poll_result list" where
  "one_card = [Ok (Some \<lparr>uid = [1, 2, 3, 4], card_protocol = IsoDep, historical_bytes = []\<rparr>)]"

definition slot_status_request :: "byte \<Rightarrow> byte list" where
  "slot_status_request seq = [PC_TO_RDR_GET_SLOT_STATUS, 0, 0, 0, 0, 0, seq, 0, 0, 0]"

definition bulk_out_queues_a_response_frame :: bool where
  "bulk_out_queues_a_response_frame \<longleftrightarrow>
     expect (decode (slot_status_request 1), ()) (\<lambda>_ _.
     expect (handle_bulk_out transport_fake_ops (slot_status_request 1) (fake_transport one_card)) (\<lambda>_ t.
       fst (handle_bulk_in 64 t) \<noteq> []))"

definition fragmented_bulk_out_is_buffered_until_complete :: bool where
  "fragmented_bulk_out_is_buffered_until_complete \<longleftrightarrow>
     expect (handle_bulk_out transport_fake_ops (take 4 (slot_status_request 1)) (fake_transport one_card)) (\<lambda>_ t.
       tstate t = Receiving
     \<and> (let (packet, t) = handle_bulk_in 64 t in packet = []
     \<and> expect (handle_bulk_out transport_fake_ops (drop 4 (slot_status_request 1)) t) (\<lambda>_ t.
          tstate t = ReadyToSend \<and> fst (handle_bulk_in 64 t) \<noteq> [])))"

definition slot_change_interrupt_is_generated_when_card_appears :: bool where
  "slot_change_interrupt_is_generated_when_card_appears \<longleftrightarrow>
     (let payload = [PC_TO_RDR_ICC_POWER_ON, 0, 0, 0, 0, 0, 1, 0, 0, 0]
      in expect (decode payload, ()) (\<lambda>_ _.
         expect (handle_bulk_out transport_fake_ops payload (fake_transport one_card)) (\<lambda>_ t.
           fst (handle_interrupt_in transport_fake_ops t) = [0x50, 0x03])))"

definition interrupt_in_returns_empty_when_queue_is_empty :: bool where
  "interrupt_in_returns_empty_when_queue_is_empty \<longleftrightarrow>
     (let (first, t) = handle_interrupt_in transport_fake_ops (fake_transport [Ok None]);
          (second, t) = handle_interrupt_in transport_fake_ops t
      in first = [0x50, 0x00] \<and> second = [0x50, 0x00])"

definition control_abort_requires_matching_bulk_abort :: bool where
  "control_abort_requires_matching_bulk_abort \<longleftrightarrow>
     expect (handle_control_request transport_fake_ops 0x21 0x01 (u16_from_le 0 7) (fake_transport [Ok None])) (\<lambda>_ t.
     expect (handle_bulk_out transport_fake_ops (slot_status_request 9) t) (\<lambda>_ t.
       let response = fst (handle_bulk_in 64 t)
       in response ! 0 = 0x81 \<and> response ! 6 = 9 \<and> drop_bit 6 (response ! 7) = 1 \<and> response ! 8 = 0xff))"

definition matching_bulk_abort_completes_abort_sequence :: bool where
  "matching_bulk_abort_completes_abort_sequence \<longleftrightarrow>
     expect (handle_control_request transport_fake_ops 0x21 0x01 (u16_from_le 0 7) (fake_transport [Ok None])) (\<lambda>_ t.
     expect (handle_bulk_out transport_fake_ops [PC_TO_RDR_ABORT, 0, 0, 0, 0, 0, 7, 0, 0, 0] t) (\<lambda>_ t.
       let response = fst (handle_bulk_in 64 t)
       in response ! 0 = 0x81 \<and> response ! 6 = 7 \<and> drop_bit 6 (response ! 7) = 0 \<and> response ! 8 = 0))"

definition duplicate_slot_status_responses_are_coalesced :: bool where
  "duplicate_slot_status_responses_are_coalesced \<longleftrightarrow>
     expect (handle_bulk_out transport_fake_ops (slot_status_request 1) (fake_transport [Ok None, Ok None])) (\<lambda>_ t.
     expect (handle_bulk_out transport_fake_ops (slot_status_request 1) t) (\<lambda>_ t.
       length (pending_in_frames t) = 1))"

subsection \<open>The readers\<close>

definition ats_historical_bytes_skip_tl_t0_and_interface_bytes :: bool where
  "ats_historical_bytes_skip_tl_t0_and_interface_bytes \<longleftrightarrow>
     ats_historical_bytes [0x12, 0x78, 0xb3, 0x84, 0x00, 0x80, 0x73, 0xc0, 0x21, 0xc0, 0x57, 0x59,
         0x75, 0x62, 0x69, 0x4b, 0x65, 0x79] =
       Ok [0x80, 0x73, 0xc0, 0x21, 0xc0, 0x57, 0x59, 0x75, 0x62, 0x69, 0x4b, 0x65, 0x79]"

definition cached_present_card_requires_active_target :: bool where
  "cached_present_card_requires_active_target \<longleftrightarrow>
     \<not> can_return_cached_presence True False True \<and> can_return_cached_presence True True True
   \<and> can_return_cached_presence False False True \<and> \<not> can_return_cached_presence True True False"

definition nonzero_exchange_status_invalidates_target :: bool where
  "nonzero_exchange_status_invalidates_target \<longleftrightarrow>
     exchange_status_keeps_target_active 0x00 \<and> \<not> exchange_status_keeps_target_active 0x01
   \<and> \<not> exchange_status_keeps_target_active 0x0b"

definition receive_dynamic_response_parses_extended_frames :: bool where
  "receive_dynamic_response_parses_extended_frames \<longleftrightarrow>
     (let expected_command = 0x41;
          payload = replicate 260 0xa5;
          frame_len = length payload + 2;
          frame_len_bytes = rev (u16_to_le (of_nat frame_len));
          frame = [0x00, 0x00, 0xff, 0xff, 0xff] @ frame_len_bytes
            @ [0 - (frame_len_bytes ! 0 + frame_len_bytes ! 1), PN532_TO_HOST, expected_command] @ payload;
          data_checksum = foldl (\<lambda>sum b. sum + b) 0 (drop 8 frame);
          frame = frame @ [0 - data_checksum, 0x00]
      in expect (receive_dynamic_response_from slice_read expected_command frame) (\<lambda>parsed _.
           parsed = payload))"

definition select_fido :: "byte list" where
  "select_fido = [0x00, 0xa4, 0x04, 0x00, 0x08, 0xa0, 0x00, 0x00, 0x06, 0x47, 0x2f, 0x00, 0x01]"

definition select_fido_aid_returns_u2f_v2 :: bool where
  "select_fido_aid_returns_u2f_v2 \<longleftrightarrow>
     expect (dummy_exchange_apdu \<lparr>dummy_card_present = True, selected_applet = NoApplet\<rparr> select_fido)
       (\<lambda>response _. take 6 response = ascii ''U2F_V2'' \<and> ends_with [0x90, 0x00] response)"

definition authenticator_get_info_returns_success_status :: bool where
  "authenticator_get_info_returns_success_status \<longleftrightarrow>
     expect (dummy_exchange_apdu \<lparr>dummy_card_present = True, selected_applet = NoApplet\<rparr> select_fido) (\<lambda>_ d.
     expect (dummy_exchange_apdu d [0x80, 0x10, 0x80, 0x00, 0x01, 0x04]) (\<lambda>response _.
       response ! 0 = 0x00 \<and> has_window FIDO_VERSION_2_0 response \<and> ends_with [0x90, 0x00] response))"

subsection \<open>The USB device\<close>

definition get_status_packet :: setup_packet where
  "get_status_packet = \<lparr>setup_request_type = 0x80, setup_request = std_get_status standard_usb,
     setup_value = 0, setup_index = 0, setup_length = 2\<rparr>"

definition class_specific_descriptor_has_expected_length :: bool where
  "class_specific_descriptor_has_expected_length \<longleftrightarrow> length class_specific_descriptor = 54"

definition device_handler_reports_default_device_status :: bool where
  "device_handler_reports_default_device_status \<longleftrightarrow>
     expect (device_handle_urb standard_usb 64 get_status_packet [] default_device_handler)
       (\<lambda>response _. response = [0x00, 0x00])"

definition device_handler_tracks_remote_wakeup_feature :: bool where
  "device_handler_tracks_remote_wakeup_feature \<longleftrightarrow>
     expect (device_handle_urb standard_usb 0
         \<lparr>setup_request_type = 0x00, setup_request = std_set_feature standard_usb,
          setup_value = USB_FEATURE_REMOTE_WAKEUP, setup_index = 0, setup_length = 0\<rparr>
         [] default_device_handler) (\<lambda>_ h.
     expect (device_handle_urb standard_usb 64 get_status_packet [] h) (\<lambda>response _.
       response = [0x02, 0x00]))"

subsection \<open>Results\<close>

lemma protocol_tests_pass:
  decode_xfr_block_command encode_data_block_response decode_get_parameters_command
  decode_set_parameters_command encode_parameters_response
  by code_simp+

lemma bridge_tests_pass:
  power_on_returns_data_block_when_card_exists power_off_keeps_card_present_but_inactive
  refresh_does_not_poll_while_powered_card_is_connected target_lost_during_apdu_marks_card_not_present
  get_parameters_returns_t1_defaults build_pseudo_atr_declares_t1_protocol
  select_aid_extracts_df_name normalize_get_response_uses_interindustry_cla
  format_hex_returns_lowercase_hex
  by code_simp+

lemma transport_tests_pass:
  bulk_out_queues_a_response_frame fragmented_bulk_out_is_buffered_until_complete
  slot_change_interrupt_is_generated_when_card_appears interrupt_in_returns_empty_when_queue_is_empty
  control_abort_requires_matching_bulk_abort matching_bulk_abort_completes_abort_sequence
  duplicate_slot_status_responses_are_coalesced
  by code_simp+

lemma reader_tests_pass:
  ats_historical_bytes_skip_tl_t0_and_interface_bytes cached_present_card_requires_active_target
  nonzero_exchange_status_invalidates_target receive_dynamic_response_parses_extended_frames
  select_fido_aid_returns_u2f_v2 authenticator_get_info_returns_success_status
  by code_simp+

lemma device_tests_pass:
  class_specific_descriptor_has_expected_length device_handler_reports_default_device_status
  device_handler_tracks_remote_wakeup_feature
  by code_simp+

end
