(* ===== verification/Spec2Isabelle.thy ===== *)
theory Spec2Isabelle
  imports Slot_Device Ccid_Robustness Pn532_Latency Pn532_Session Pn532_Example Source_Tests
begin

text \<open>
  A model of vusbipd-ccid, a daemon that exports a virtual USB CCID smart card reader over USB/IP
  and serves it from an NFC reader.

  \<^bold>\<open>The program and the theories.\<close> A host's URBs reach the program through the \<open>usbip\<close> crate
  and go down these layers, each a theory named after it:

  \<^item> \<open>Usb_Device\<close> (\<open>src/usbip/device.rs\<close>): the device handler with the remote wakeup flag, the
    interface handler that dispatches URBs by endpoint, the endpoints, the class descriptor and the
    device as built. Reachable device states are the inductive relation \<open>device_reach\<close>.
  \<^item> \<open>Ccid_Transport\<close> (\<open>src/ccid/transport.rs\<close>): the record \<open>transport\<close> with the reassembly buffer of
    bulk OUT, the response queue of bulk IN, the notification queue and the abort state;
    \<open>handle_bulk_out\<close> with its frame loop \<open>process_frames\<close>, \<open>handle_bulk_in\<close>, \<open>handle_interrupt_in\<close>,
    \<open>handle_control_request\<close>.
  \<^item> \<open>Ccid_Protocol\<close> (\<open>src/ccid/protocol.rs\<close>): commands and responses as datatypes, \<open>decode\<close> and
    \<open>encode\<close>; the host's inverse functions are the specification side.
  \<^item> \<open>Ccid_Bridge\<close> (\<open>src/ccid/bridge.rs\<close>): the record \<open>bridge\<close> with the slot state, \<open>handle_command\<close>
    with one definition per arm, the pseudo ATR and the APDU helpers.
  \<^item> \<open>Nfc_Reader\<close> (\<open>src/nfc/mod.rs\<close>): the trait \<open>NfcReader\<close> as a record of operations over the
    backend's state, and its contract, the locale \<open>reader_contract\<close>, which the lemmas on the CCID
    layers use; \<open>present_reader\<close> extends it for a reader whose card never leaves.
  \<^item> \<open>Nfc_Dummy\<close> (\<open>src/nfc/dummy.rs\<close>): the built-in FIDO card.
  \<^item> \<open>Pn532_Frame\<close> and \<open>Pn532_Reader\<close> (\<open>src/nfc/pn532.rs\<close>): the response frames and the ATS, and the
    reader with its request/response exchange, waiting loop, RF field, poll cache and time.
  \<^item> \<open>Application\<close> (\<open>src/main.rs\<close>, \<open>src/config.rs\<close>, \<open>src/app.rs\<close>, \<open>src/usbip/server.rs\<close>): configuration with
    its defaults, the two backends behind the trait object, the application and the server, which
    runs the server loop on the configured address and one device.
  \<^item> \<open>Pn532_Example\<close> (\<open>examples/pn532_list_passive_target.rs\<close>): the diagnostic program with its own
    copies of the receiver and the waiting loop, its polling loop, its printed lines and its exit code.
  \<^item> \<open>Ccid_Host\<close> and \<open>Usb_Host\<close>: the host's side of a session, over the transport's operations and
    over URBs, for the refinement of the device to the bridge.
  \<^item> \<open>Slot_Device\<close>: the abstract specification of the device, a slot with a queue of notifications,
    and its refinement by URBs in any order of transactions and notification polls.
  \<^item> \<open>Ccid_Robustness\<close>: pipelined commands, frames over the maximum, and the poisoned lock.
  \<^item> \<open>Pn532_Latency\<close>: the longest time for each operation of the PN532 reader, up to a URB.
  \<^item> \<open>Pn532_Session\<close>: a device that follows a script, and the session of a host with its card.
  \<^item> \<open>Source_Tests\<close>: the unit tests of the repository as executable booleans, all true of the model.
  \<^item> \<open>Prelude\<close>: machine integers and bytes, \<open>Result\<close> and the \<open>?\<close> operator, formatted text.

  \<^bold>\<open>Conventions.\<close> A \<open>&mut self\<close> method is a function that returns its result with the new state.
  \<open>Result\<close> is a sum with the error on the left; a panic, where the source can reach one by its text,
  is \<open>None\<close> of an option. \<open>u8\<close>, \<open>u16\<close>, \<open>u32\<close> are words of their width and wrap; \<open>usize\<close> is \<open>nat\<close>. The
  \<open>Mutex\<close> around the bridge is uncontended here, so a lock is the value, and its poisoning is the
  flag \<open>poisoned\<close> of the transport. Log output is not modelled.

  \<^bold>\<open>Parameters.\<close> The crates are not modelled but taken as parameters: \<open>pn532_driver\<close> (crates \<open>pn532\<close>
  and \<open>serialport\<close>), \<open>usb_crate\<close> (crate \<open>usbip\<close>), and for the CCID layers the reader itself.
  \<open>usb_standard\<close>, \<open>stream_port\<close>, \<open>answers\<close>, \<open>scripted_device\<close>, \<open>prompt_driver\<close> and \<open>answers_fit\<close> are the
  hypotheses on them; each is shown to hold for a concrete instance in the witness of the property
  that uses it, and \<open>answers_fit\<close> for both backends whatever the hardware does. The server loop of
  \<open>usbip\<close> is the function \<open>serve\<close> that \<open>daemon_main\<close> is given; what it may do with the device is
  \<open>device_reach\<close>, any sequence of control requests and URBs.

  \<^bold>\<open>Loops.\<close> \<open>process_frames\<close> ends because every frame takes at least ten bytes from the buffer,
  \<open>read_transfer\<close> because every full packet takes bytes from the queue, \<open>wait_until\<close> because every
  round sleeps while the deadline stays, \<open>poll_attempts\<close> because its attempts are numbered; no fuel is
  used. The host's \<open>urb_read\<close> depends on the crate and is a partial function; that it returns is part of
  what is proved of it. Only the reader of CBOR in \<open>Nfc_Dummy\<close> has fuel, and its property gives the
  fuel that suffices.

  \<^bold>\<open>What is shown.\<close> \<open>Ccid_Protocol\<close>: both directions of the wire format are inverted by the other
  side, and which frames are rejected. \<open>Ccid_Bridge\<close>: the slot invariant, the refinement of the
  abstract slot machine \<open>slot_step\<close>, which commands reach the reader, the ATR. \<open>Ccid_Transport\<close>: the
  invariant of its queues and buffers, independence from packet boundaries, the abort protocol, the
  refinement of the byte level to the command level. \<open>Ccid_Host\<close>: a session of host transactions has
  exactly the answers of the bridge, and \<open>Usb_Host\<close> the same for URBs. \<open>Nfc_Dummy\<close>: the applet's
  state machine over sessions. \<open>Pn532_Frame\<close>: exactly the frames of the PN532 are accepted and any
  damaged byte is detected. \<open>Pn532_Reader\<close>: the reader's invariant and contract, the exchange over a
  serial line, bounded waiting. \<open>Pn532_Example\<close>: when polling succeeds or gives up, how its receiver
  and its reading of an ATS differ from the daemon's, and what its success means. \<open>Application\<close>: the
  invariants of the whole program in every reachable state. \<open>Ccid_Robustness\<close>: exactly which responses a
  pipelining host gets, that a refused frame leaves the state of the good frames before it, and
  that nothing passes a poisoned lock. \<open>Pn532_Latency\<close>: a bound on the time of every URB, composed
  along the calls from the bounds of the driver. \<open>Pn532_Session\<close>: the answers of the daemon over a
  PN532, from opening the port to the last APDU. This theory: the same for the dummy card, the
  refinement of the abstract device by the daemon with either backend, and the way of one APDU to the PN532, also when
  the device reports an error.

  \<^bold>\<open>Not modelled.\<close> The server loop and the descriptors that the crate \<open>usbip\<close> builds and the argument
  parser \<open>clap\<close>, which are not in the repository; logging and its set-up in \<open>init_tracing\<close>, which have no
  effect on the state; \<open>as_any\<close>, which only the crate uses. The \<open>Debug\<close> texts written by hand are
  modelled, the derived ones are not.
\<close>

subsection \<open>The dummy card through the whole stack\<close>

primrec dummy_answers :: "byte list list \<Rightarrow> dummy_reader \<Rightarrow> byte list list" where
  "dummy_answers [] d = []"
| "dummy_answers (a # as) d =
     projr (fst (dummy_exchange_apdu d a)) # dummy_answers as (snd (dummy_exchange_apdu d a))"

lemma length_ctap_msg: "handle_ctap_msg p1 data = Some r \<Longrightarrow> length r \<le> 100"
  by (auto simp: handle_ctap_msg_def append_status_def sw_defs authenticator_get_info_total
      ctap_success_def ctap_error_def get_info_bytes_eq split: if_splits list.splits)

lemma dummy_answer_length:
  assumes "dummy_exchange_apdu d a = (Ok r, d')"
  shows "length r \<le> 100"
proof -
  have "handle_apdu d a = Some (Ok r, d')"
    using assms by (simp add: dummy_exchange_iff)
  then show ?thesis
    by (cases rule: handle_apdu_cases)
      (auto simp: sw_defs FIDO_VERSION_U2F_V2_def dest: length_ctap_msg)
qed

text \<open>The dummy card behind the trait object.\<close>

lemma backend_dummy [simp]:
  "poll_card (backend_ops drv) (Dummy d) = boxed Dummy (dummy_poll_card d)"
  "power_off (backend_ops drv) (Dummy d) = boxed Dummy (dummy_power_off d)"
  "exchange_apdu (backend_ops drv) (Dummy d) a = boxed Dummy (dummy_exchange_apdu d a)"
  by (simp_all add: backend_ops_def)

lemma dummy_answers_fit: "answers_fit (backend_ops drv) (\<lambda>r. \<exists>d. r = Dummy d)"
proof -
  have "length r < 2 ^ 32" if "dummy_exchange_apdu d a = (Ok r, d')" for d a r d'
    using dummy_answer_length [OF that] by simp
  moreover have "length (historical_bytes c) < 2 ^ 31" if "dummy_poll_card d = (Ok (Some c), d')" for d c d'
    using that by (auto simp: dummy_poll_card_def dummy_card_def DUMMY_ATR_def split: if_splits)
  ultimately show ?thesis
    unfolding answers_fit_def reader_call_def by (auto simp: boxed_iff)
qed

lemma dummy_exchange_Ok:
  assumes "dummy_card_present d"
  shows "dummy_exchange_apdu d a =
    (Ok (projr (fst (dummy_exchange_apdu d a))), snd (dummy_exchange_apdu d a))"
proof -
  obtain res d' where h: "handle_apdu d a = Some (res, d')"
    using handle_apdu_total by blast
  then have "\<exists>r. res = Ok r"
    using assms by (cases rule: handle_apdu_cases) auto
  with h show ?thesis by (auto simp: dummy_exchange_apdu_def)
qed

lemma dummy_bridge_session:
  assumes "bridge_inv b" "current_icc_status b = Active" "reader b = Dummy d" "dummy_card_present d"
    and "list_all (\<lambda>qa. \<not> aid_overruns (snd qa)) qas"
  shows "fst (bridge_session (backend_ops drv) (map xfr_command qas) b) =
    map2 data_answer (map fst qas) (dummy_answers (map (normalize_apdu_for_exchange \<circ> snd) qas) d)"
  using assms
proof (induction qas arbitrary: b d)
  case (Cons qa qas)
  let ?a = "normalize_apdu_for_exchange (snd qa)"
  let ?d = "snd (dummy_exchange_apdu d ?a)"
  let ?b = "b\<lparr>reader := Dummy ?d\<rparr>"
  have h: "handle_command (backend_ops drv) (xfr_command qa) b =
      (Some (data_answer (fst qa) (projr (fst (dummy_exchange_apdu d ?a)))), ?b)"
  proof -
    obtain r d' where "dummy_exchange_apdu d ?a = (Ok r, d')"
      using dummy_exchange_Ok [OF Cons.prems(4), of ?a] by blast
    moreover obtain aid where "select_aid (snd qa) = Some aid"
      using select_aid_returns [of "snd qa"] Cons.prems(5) by auto
    ultimately show ?thesis
      using xfr_active_exchanges [OF Cons.prems(1,2)] Cons.prems(3)
      by (simp add: xfr_command_def data_answer_def exchange_powered_def boxed_def)
  qed
  have "dummy_card_present ?d"
    using Cons.prems(4) by simp
  moreover have "bridge_inv ?b" "current_icc_status ?b = Active"
    using Cons.prems by (auto simp: bridge_inv_def current_icc_status_def split: if_splits)
  ultimately show ?case
    using Cons.IH [of ?b ?d] Cons.prems(5) by (auto simp: h split: prod.split)
qed simp

lemma dummy_power_on:
  "\<exists>b. handle_command (backend_ops drv) (IccPowerOn 0 seq p) (new_bridge (backend_ops drv) (Dummy fresh_dummy))
        = (Some (data_answer seq DUMMY_ATR), b)
     \<and> bridge_inv b \<and> current_icc_status b = Active \<and> reader b = Dummy fresh_dummy"
proof -
  let ?b = "new_bridge (backend_ops drv) (Dummy fresh_dummy)"
  let ?b1 = "?b\<lparr>reader := Dummy fresh_dummy, current_card := Some dummy_card, slot_powered := True\<rparr>"
  have on: "handle_command (backend_ops drv) (IccPowerOn 0 seq p) ?b = (Some (data_answer seq DUMMY_ATR), ?b1)"
    by (simp add: handle_power_on_def dummy_poll_card_def fresh_dummy_def new_bridge_def boxed_def
        data_answer_def build_pseudo_atr_def dummy_card_def DUMMY_ATR_def)
  then show ?thesis
    using bridge_inv_handle_command [OF bridge_inv_new on] by (simp add: current_icc_status_def)
qed

lemma daemon_main_dummy:
  assumes "cli_backend c = DummyBackend"
  shows "daemon_main drv usb serve c = Ok (serve (cli_listen_addr c)
    [build_virtual_ccid_device usb (new_bridge (backend_ops drv) (Dummy fresh_dummy))])"
  using assms
  by (simp add: start_up_defs app_config_try_from_def dummy_reader_factory_def map_ok_def
      dummy_open_def fresh_dummy_def)

text \<open>C3: A host talks to the dummy card through the whole program. With the dummy backend start-up
  always succeeds and serves one device on the given address. On it, a session of URBs that powers
  the card on, which returns its ATR, and sends APDUs of at most 3072 bytes in \<open>XfrBlock\<close> commands,
  none of them a SELECT whose length byte overruns its data, gets back for each a successful data block with the slot active, its sequence number and exactly
  the answer that the card gives to the normalised APDUs in this order, for any buffer size.\<close>

theorem dummy_card_end_to_end:
  fixes drv :: "'p pn532_driver" and c :: "'a cli"
  assumes "usb_standard usb" "cli_backend c = DummyBackend"
    and "0 < n" "list_all (\<lambda>qa. length (snd qa) \<le> CCID_MAX_MESSAGE_LENGTH) qas"
    and "list_all (\<lambda>qa. \<not> aid_overruns (snd qa)) qas"
  shows "\<exists>d h. (\<forall>serve :: 'a \<Rightarrow> 'p backend virtual_device list \<Rightarrow> 'w.
        daemon_main drv usb serve c = Ok (serve (cli_listen_addr c) [d]))
    \<and> urb_session usb (backend_ops drv) n (IccPowerOn 0 seq p # map xfr_command qas) (intf_handler d) =
    Some (map Some (data_answer seq DUMMY_ATR # map2 data_answer (map fst qas)
      (dummy_answers (map (normalize_apdu_for_exchange \<circ> snd) qas) fresh_dummy)), h)"
proof -
  let ?b = "new_bridge (backend_ops drv) (Dummy fresh_dummy)"
  let ?cs = "IccPowerOn 0 seq p # map xfr_command qas"
  have sendable: "list_all (\<lambda>c. sendable c \<and> \<not> is_abort c) ?cs"
    using assms(4,5)
    by (auto simp: list_all_iff sendable_iff overruns_select_def is_abort_def xfr_command_def
        CCID_MAX_MESSAGE_LENGTH_def)
  have dummy: "\<exists>d. reader (bridge (new_transport ?b)) = Dummy d"
    by (simp add: new_bridge_def)
  note refines = urb_session_refines [OF assms(1) dummy_answers_fit assms(3)
      host_ready_new [OF bridge_inv_new] dummy sendable]
  obtain t where "urb_session usb (backend_ops drv) n ?cs \<lparr>handler_transport = new_transport ?b\<rparr> =
      Some (map Some (fst (bridge_session (backend_ops drv) ?cs (bridge (new_transport ?b)))),
        \<lparr>handler_transport = t\<rparr>)"
    using refines by blast
  then have session: "urb_session usb (backend_ops drv) n ?cs (intf_handler (build_virtual_ccid_device usb ?b)) =
      Some (map Some (fst (bridge_session (backend_ops drv) ?cs ?b)), \<lparr>handler_transport = t\<rparr>)"
    by (simp only: build_intf_handler new_transport_bridge)
  obtain b where on: "handle_command (backend_ops drv) (IccPowerOn 0 seq p) ?b = (Some (data_answer seq DUMMY_ATR), b)"
      "bridge_inv b" "current_icc_status b = Active" "reader b = Dummy fresh_dummy"
    using dummy_power_on by blast
  have "dummy_card_present fresh_dummy"
    by (simp add: fresh_dummy_def)
  from dummy_bridge_session [OF on(2-4) this assms(5), of drv]
  have "fst (bridge_session (backend_ops drv) ?cs ?b) =
      data_answer seq DUMMY_ATR # map2 data_answer (map fst qas)
        (dummy_answers (map (normalize_apdu_for_exchange \<circ> snd) qas) fresh_dummy)"
    by (simp only: bridge_session.simps on(1)) (auto split: prod.split)
  with session show ?thesis
    using daemon_main_dummy [OF assms(2)] by (metis (no_types))
qed

theorem dummy_card_end_to_end_witness:
  "\<exists>d h. daemon_main recorded_driver standard_usb Pair \<lparr>cli_listen_addr = (13240 :: nat),
       cli_backend = DummyBackend, cli_serial_port = [], cli_serial_baud_rate = 115200\<rparr> = Ok (13240, [d])
   \<and> urb_session standard_usb (backend_ops recorded_driver) 64
      (IccPowerOn 0 1 0 # map xfr_command [(2, encode_short_apdu 0x00 0xa4 0x04 0x00 FIDO_AID None)])
      (intf_handler d) =
    Some ([Some (data_answer 1 DUMMY_ATR),
     Some (data_answer 2 [0x55, 0x32, 0x46, 0x5f, 0x56, 0x32, 0x90, 0x00])], h)"
proof -
  let ?cli = "\<lparr>cli_listen_addr = (13240 :: nat), cli_backend = DummyBackend, cli_serial_port = [],
    cli_serial_baud_rate = 115200\<rparr>"
  let ?qas = "[(2 :: byte, encode_short_apdu 0x00 0xa4 0x04 0x00 FIDO_AID None)]"
  have "dummy_answers (map (normalize_apdu_for_exchange \<circ> snd) ?qas) fresh_dummy =
      [[0x55, 0x32, 0x46, 0x5f, 0x56, 0x32, 0x90, 0x00]]"
    by code_simp
  then have answers: "map Some (data_answer 1 DUMMY_ATR # map2 data_answer (map fst ?qas)
        (dummy_answers (map (normalize_apdu_for_exchange \<circ> snd) ?qas) fresh_dummy)) =
      [Some (data_answer 1 DUMMY_ATR),
       Some (data_answer 2 [0x55, 0x32, 0x46, 0x5f, 0x56, 0x32, 0x90, 0x00])]"
    by (simp only:) simp
  have "cli_backend ?cli = DummyBackend" and pos: "(0 :: u32) < 64"
    and short: "list_all (\<lambda>qa. length (snd qa) \<le> CCID_MAX_MESSAGE_LENGTH) ?qas"
      "list_all (\<lambda>qa. \<not> aid_overruns (snd qa)) ?qas"
    by (simp_all add: encode_short_apdu_def FIDO_AID_def CCID_MAX_MESSAGE_LENGTH_def)
  from dummy_card_end_to_end [OF standard_usb_standard this(1) _ short, of 64 recorded_driver 1 0,
      where 'w = "nat \<times> byte list backend virtual_device list", OF pos]
  obtain d h where "\<forall>serve. daemon_main recorded_driver standard_usb serve ?cli =
      Ok ((serve :: nat \<Rightarrow> byte list backend virtual_device list \<Rightarrow> nat \<times> byte list backend virtual_device list)
        (cli_listen_addr ?cli) [d])"
    "urb_session standard_usb (backend_ops recorded_driver) 64
      (IccPowerOn 0 1 0 # map xfr_command ?qas) (intf_handler d) =
    Some (map Some (data_answer 1 DUMMY_ATR # map2 data_answer (map fst ?qas)
        (dummy_answers (map (normalize_apdu_for_exchange \<circ> snd) ?qas) fresh_dummy)), h)"
    by (elim exE conjE)
  then show ?thesis
    unfolding answers by auto
qed

subsection \<open>Either backend behind the USB interface\<close>

primrec backend_fits :: "'p backend \<Rightarrow> bool" where
  "backend_fits (Pn532 r) = card_fits r"
| "backend_fits (Dummy d) = True"

text \<open>No backend ever gives an answer that a CCID response could not hold.\<close>

lemma backend_answers_fit: "answers_fit (backend_ops drv) backend_fits"
proof -
  note dummy = dummy_answers_fit [of drv, unfolded answers_fit_def]
  note pn532 = pn532_answers_fit [of drv, unfolded answers_fit_def]
  show ?thesis
    unfolding answers_fit_def
  proof (intro conjI allI impI; elim conjE)
    fix r r' :: "'a backend"
    assume "backend_fits r" "reader_call (backend_ops drv) r r'"
    then show "backend_fits r'"
      using dummy pn532 by (cases r) (fastforce, fastforce)
  next
    fix r r' :: "'a backend" and a resp
    assume "backend_fits r" "exchange_apdu (backend_ops drv) r a = (Ok resp, r')"
    then show "length resp < 2 ^ 32"
      using dummy pn532 by (cases r) (fastforce, fastforce)
  next
    fix r r' :: "'a backend" and c
    assume "backend_fits r" "poll_card (backend_ops drv) r = (Ok (Some c), r')"
    then show "length (historical_bytes c) < 2 ^ 31"
      using dummy pn532 by (cases r) (fastforce, fastforce)
  qed
qed

lemma opened_backend_fits: "opened_backend drv r \<Longrightarrow> backend_fits r"
  by (auto simp: opened_backend_def pn532_uart_factory_def dummy_reader_factory_def map_ok_iff
      card_fits_def dest: pn532_open_fresh)

text \<open>C1: The program implements the abstract device. When start-up succeeds, with either backend, the
  host may send URBs of transactions and of notification polls to the device that it serves in any
  order, with any buffer size and whatever the NFC hardware answers: no URB stalls, every transfer
  ends, and the host gets exactly the responses and the notifications of a slot that runs the
  command handler of the bridge over the opened reader.\<close>

theorem daemon_refines_slot_device:
  fixes serve0 :: "'a \<Rightarrow> 'p backend virtual_device list \<Rightarrow> 'w"
  assumes "usb_standard usb" "daemon_main drv usb serve0 c = Ok served" "0 < n"
    and "list_all event_sendable es"
  shows "\<exists>r h. (\<forall>serve :: 'a \<Rightarrow> 'p backend virtual_device list \<Rightarrow> 'w.
      daemon_main drv usb serve c = Ok (serve (cli_listen_addr c)
        [build_virtual_ccid_device usb (new_bridge (backend_ops drv) r)]))
    \<and> urb_events usb (backend_ops drv) n es
        (intf_handler (build_virtual_ccid_device usb (new_bridge (backend_ops drv) r))) =
      Some (fst (slot_device_run (backend_ops drv) es (new_slot_device (new_bridge (backend_ops drv) r))), h)"
proof -
  obtain r where r: "opened_backend drv r" "\<forall>serve :: 'a \<Rightarrow> 'p backend virtual_device list \<Rightarrow> 'w.
      daemon_main drv usb serve c = Ok (serve (cli_listen_addr c)
        [build_virtual_ccid_device usb (new_bridge (backend_ops drv) r)])"
    by (rule daemon_main_reader [OF assms(2)])
  have "backend_fits (reader (bridge (new_transport (new_bridge (backend_ops drv) r))))"
    using opened_backend_fits [OF r(1)] by (simp add: new_bridge_def)
  from urb_events_refine [OF assms(1) backend_answers_fit assms(3) host_ready_new [OF bridge_inv_new] this assms(4)]
  show ?thesis
    using r(2) unfolding build_intf_handler slot_device_of_new by blast
qed

theorem daemon_refines_slot_device_witness:
  "\<exists>r h. daemon_main recorded_driver standard_usb Pair \<lparr>cli_listen_addr = (13240 :: nat),
       cli_backend = DummyBackend, cli_serial_port = [], cli_serial_baud_rate = 115200\<rparr> = Ok (13240,
        [build_virtual_ccid_device standard_usb (new_bridge (backend_ops recorded_driver) r)])
   \<and> urb_events standard_usb (backend_ops recorded_driver) 64 [Transaction (GetParameters 0 1), Notification_Poll]
      (intf_handler (build_virtual_ccid_device standard_usb (new_bridge (backend_ops recorded_driver) r))) =
    Some ([Response (Some (Parameters 0 1 (status_ok NotPresent) 0 1
        [0x11, 0x10, 0x00, 0x15, 0x00, 0xfe, 0x00])), Notification [0x50, 0x00]], h)"
proof -
  let ?cli = "\<lparr>cli_listen_addr = (13240 :: nat), cli_backend = DummyBackend,
      cli_serial_port = [], cli_serial_baud_rate = 115200\<rparr>"
  let ?es = "[Transaction (GetParameters 0 1), Notification_Poll]"
  have run: "daemon_main recorded_driver standard_usb Pair ?cli = Ok (13240,
      [build_virtual_ccid_device standard_usb (new_bridge (backend_ops recorded_driver) (Dummy fresh_dummy))])"
    by (simp add: daemon_main_dummy)
  have ok: "list_all event_sendable ?es" "(0 :: u32) < 64"
    by (simp_all add: sendable_iff overruns_select_def is_abort_def CCID_MAX_MESSAGE_LENGTH_def)
  have answers: "fst (slot_device_run (backend_ops recorded_driver) ?es (new_slot_device
      (new_bridge (backend_ops recorded_driver) r))) = [Response (Some (Parameters 0 1 (status_ok NotPresent) 0 1
        [0x11, 0x10, 0x00, 0x15, 0x00, 0xfe, 0x00])), Notification [0x50, 0x00]]" for r
    by (auto simp: new_slot_device_def parameters_response_def current_icc_status_def new_bridge_def
        bridge_consts card_present_def sd_report_def slot_note_def split: prod.splits sum.splits)
  from daemon_refines_slot_device [OF standard_usb_standard run ok(2,1), unfolded answers]
  show ?thesis
    by (auto simp del: urb_events.simps)
qed

subsection \<open>An APDU through the whole stack to the PN532\<close>

lemma backend_pn532 [simp]:
  "exchange_apdu (backend_ops drv) (Pn532 r) a = boxed Pn532 (pn532_exchange_apdu drv r a)"
  by (simp add: backend_ops_def)

text \<open>The exchange of the PN532 reader, as the bridge's handler of \<open>XfrBlock\<close> sees it.\<close>

lemma pn532_handle_xfr:
  assumes "bridge_inv b" "current_icc_status b = Active" "reader b = Pn532 r"
    and "pn532_exchange_apdu drv r (normalize_apdu_for_exchange payload) = (res, r')"
    and "if status = 0 then res = Ok body else \<exists>m. res = Err (TargetLost m)" "\<not> aid_overruns payload"
  shows "\<exists>b'. handle_command (backend_ops drv) (XfrBlock slot seq bwi level payload) b =
      (Some (if status = 0 then DataBlock slot seq (status_ok Active) 0 0 body
        else SlotStatus slot seq (status_failed NotPresent) GENERIC_FAILURE_ERROR 0), b')
    \<and> current_icc_status b' = (if status = 0 then Active else NotPresent) \<and> reader b' = Pn532 r'"
proof -
  obtain aid where "select_aid payload = Some aid"
    using select_aid_returns [OF assms(6)] by blast
  then show ?thesis
    using assms(2-5) xfr_active_exchanges [OF assms(1,2)]
    by (auto simp: exchange_powered_def boxed_def current_icc_status_def split: if_splits)
qed

text \<open>C4: An APDU goes from the host to the NFC card and its answer back, through every layer. On an
  active slot over a PN532 with an active target, the URBs of one \<open>XfrBlock\<close> with an APDU of at most
  310 bytes, other than a SELECT whose length byte overruns its data, put the normalised APDU on the serial line. If the device answers with status zero and
  at most 252 bytes, the host reads a successful data block with exactly these bytes; with any other
  status it reads that no card is present, and the slot is then empty.\<close>

theorem pn532_apdu_end_to_end:
  assumes "usb_standard usb" "0 < n" "stream_port drv content"
    and "host_ready (handler_transport h)" "current_icc_status (bridge (handler_transport h)) = Active"
    and "reader (bridge (handler_transport h)) = Pn532 r" "active_target r = Some target"
    and "length payload \<le> 310" "\<not> aid_overruns payload" "length body \<le> 252"
    and "answers drv content \<lparr>req_command = cmd_in_data_exchange drv,
            req_data = target # normalize_apdu_for_exchange payload\<rparr>
          (normal_frame (cmd_in_data_exchange drv + 1) (status # body) @ rest) (snd (wire r))"
  shows "\<exists>h'. urb_session usb (backend_ops drv) n [XfrBlock slot seq bwi level payload] h =
      Some ([Some (if status = 0 then DataBlock slot seq (status_ok Active) 0 0 body
               else SlotStatus slot seq (status_failed NotPresent) GENERIC_FAILURE_ERROR 0)], h')
    \<and> current_icc_status (bridge (handler_transport h')) = (if status = 0 then Active else NotPresent)"
proof -
  let ?c = "XfrBlock slot seq bwi level payload"
  let ?resp = "if status = 0 then DataBlock slot seq (status_ok Active) 0 0 body
    else SlotStatus slot seq (status_failed NotPresent) GENERIC_FAILURE_ERROR 0"
  obtain t where h: "h = \<lparr>handler_transport = t\<rparr>"
    by (cases h) simp
  have inv: "bridge_inv (bridge t)"
    using assms(4) h by (simp add: host_ready_def transport_inv_defs)
  obtain res r' where "pn532_exchange_apdu drv r (normalize_apdu_for_exchange payload) = (res, r')"
    and "if status = 0 then res = Ok body else \<exists>m. res = Err (TargetLost m)"
    using exchange_answered [OF assms(3,7) _ assms(10,11)] assms(8) by (auto split: if_splits)
  from pn532_handle_xfr [OF inv _ _ this assms(9)] obtain b' where
    b': "handle_command (backend_ops drv) ?c (bridge t) = (Some ?resp, b')"
      "current_icc_status b' = (if status = 0 then Active else NotPresent)"
    using assms(5,6) h by auto
  have "sendable ?c" "\<not> is_abort ?c" "length (response_payload ?resp) < 2 ^ 32"
    using assms(8-10)
    by (simp_all add: sendable_iff overruns_select_def is_abort_def CCID_MAX_MESSAGE_LENGTH_def)
  from urb_transaction [OF assms(1,2) _ this(1,2) b'(1) this(3)] assms(4) h
  obtain t1 frame t2 where
    "urb_write usb (backend_ops drv) (encode_command ?c) h = (Ok [], \<lparr>handler_transport = t1\<rparr>)"
    "urb_read usb (backend_ops drv) n \<lparr>handler_transport = t1\<rparr> = Some (frame, \<lparr>handler_transport = t2\<rparr>)"
    "decode_response frame = Some ?resp" "bridge t2 = b'"
    by (metis interface_handler.select_convs(1))
  then show ?thesis
    using b'(2) by (intro exI [of _ "\<lparr>handler_transport = t2\<rparr>"]) (simp del: encode_command.simps)
qed

definition attached_handler :: "byte list \<Rightarrow> byte list backend interface_handler" where
  "attached_handler line =
     \<lparr>handler_transport = new_transport ((new_bridge (backend_ops recorded_driver) (Pn532 (attached_reader line)))
        \<lparr>current_card := cached_card (attached_reader line), slot_powered := True\<rparr>)\<rparr>"

theorem pn532_apdu_end_to_end_witness:
  "\<exists>h'. urb_session standard_usb (backend_ops recorded_driver) 64 [XfrBlock 0 7 0 0 [0x00, 0xa4, 0x04, 0x00]]
      (attached_handler (normal_frame 0x41 [0x00, 0x6a, 0x82])) =
    Some ([Some (DataBlock 0 7 (status_ok Active) 0 0 [0x6a, 0x82])], h')"
proof -
  let ?line = "normal_frame 0x41 [0x00, 0x6a, 0x82]"
  have "bridge_inv ((new_bridge (backend_ops recorded_driver) (Pn532 (attached_reader ?line)))
      \<lparr>current_card := cached_card (attached_reader ?line), slot_powered := True\<rparr>)"
    using bridge_inv_new [of "backend_ops recorded_driver" "Pn532 (attached_reader ?line)"]
    by (simp add: bridge_inv_def attached_reader_def)
  then have ready: "host_ready (handler_transport (attached_handler ?line))"
    by (simp add: attached_handler_def host_ready_new)
  have "answers recorded_driver id \<lparr>req_command = cmd_in_data_exchange recorded_driver,
      req_data = 1 # normalize_apdu_for_exchange [0x00, 0xa4, 0x04, 0x00]\<rparr>
    (normal_frame (cmd_in_data_exchange recorded_driver + 1) (0x00 # [0x6a, 0x82]) @ [])
    (snd (wire (attached_reader ?line)))"
    by (simp add: answers_def recorded_driver_def attached_reader_def)
  from pn532_apdu_end_to_end [OF standard_usb_standard _ recorded_stream ready _ _ _ _ _ _ this, of 64 0 7 0 0]
  show ?thesis
    by (auto simp: attached_handler_def current_icc_status_def attached_reader_def new_bridge_def)
qed

text \<open>The two hexadecimal printers of the program write the same text.\<close>

lemma hex_printers_agree: "pn532_format_hex bytes = format_hex bytes"
  by (simp add: pn532_format_hex_def format_hex_digits fmt_02x_digits [abs_def])

end
